(* ===== verification/AB_Prelude.thy ===== *)
theory AB_Prelude
  imports Main "HOL-Library.AList"
begin

text \<open>
  Shared vocabulary of the AgentBridge development.

  \<^item> Python exceptions are values: \<open>Exn c msg\<close> is an exception of class \<open>c\<close> with message
    \<open>msg\<close>; a fallible pure function returns \<open>'a res\<close>.
  \<^item> A method that reads and writes a state of type \<open>'s\<close> is a \<open>('s, 'a) prog\<close>: it returns the
    value or the exception together with the state it leaves behind.  An exception does not
    undo earlier writes; only \<open>sql_atomic\<close> does, as the transactions of
    \<^verbatim>\<open>src/governance/store.py\<close> do.
  \<^item> A Python \<open>dict\<close> is an association list with distinct keys, read with \<^const>\<open>map_of\<close>, written
    with \<^const>\<open>AList.update\<close> (which replaces a binding in place and appends a new one, the
    insertion order Python keeps) and \<^const>\<open>AList.delete\<close>.
  \<^item> A Python string is a list of characters; \<open>len\<close> is the length of that list.
\<close>

named_theorems prog_simps \<open>how a program of a given shape ends\<close>
named_theorems prog_keeps \<open>what a program leaves unchanged\<close>

section \<open>Exceptions and fallible functions\<close>

datatype exc_class =
    ValueError | KeyError | TypeError | PermissionError | RuntimeError | IntegrityError
  | OperationConflict | GovernanceError | AdmissionRejected | AuthorityDenied
  | LifecycleRejected | LifecycleCapacity | QuotaDenied | AuditCapacityDenied
  | FenceDenied | StaleDestinationLeader | DuplicateDestinationAction | StreamCapacity
  | SqliteFenceDenied | SqliteDuplicateEffect | TimeoutError | AccessDenied
  | ReconciliationError | MalformedWireError | EgressDenied | InvalidClientHello
  | OperationalError | ConfigError | IndexError | OverflowError | UntrustedReceipt | UntrustedReadback
  | UntrustedReviewer | ObserverKeyDenied | EvidenceCapacityDenied | TaskIntentConflict | TaskIntentCapacity
  | TenantStoreDenied | AuthorityMigrationDenied | SecurityConfigurationError | WorkloadDenied
  | OidcError | OtherError

datatype exn = Exn (exn_class: exc_class) (exn_msg: string)

type_synonym 'a res = "exn + 'a"

definition bindE :: "'a res \<Rightarrow> ('a \<Rightarrow> 'b res) \<Rightarrow> 'b res" where
  "bindE m f = (case m of Inl e \<Rightarrow> Inl e | Inr a \<Rightarrow> f a)"

lemma bindE_simps [simp]: "bindE (Inr a) f = f a" "bindE (Inl e) f = Inl e"
  by (simp_all add: bindE_def)

lemma bindE_Inr_iff [prog_simps]: "bindE m f = Inr b \<longleftrightarrow> (\<exists>a. m = Inr a \<and> f a = Inr b)"
  by (cases m) auto

lemma bindE_Inl_iff [prog_simps]:
  "bindE m f = Inl e \<longleftrightarrow> m = Inl e \<or> (\<exists>a. m = Inr a \<and> f a = Inl e)"
  by (cases m) auto

text \<open>A guard that raises has passed when the function returns.\<close>

lemma raise_if: "(if b then Inl e else r) = Inr x \<longleftrightarrow> \<not> b \<and> r = Inr x"
  by simp

lemma raise_None: "(case v of None \<Rightarrow> Inl e | Some y \<Rightarrow> f y) = Inr x \<longleftrightarrow> (\<exists>y. v = Some y \<and> f y = Inr x)"
  by (cases v) simp_all

lemmas raise_simps = raise_if raise_None

section \<open>Programs over a state\<close>

type_synonym ('s, 'a) prog = "'s \<Rightarrow> 'a res \<times> 's"

definition retP :: "'a \<Rightarrow> ('s, 'a) prog" where
  "retP a s = (Inr a, s)"

definition raiseP :: "exc_class \<Rightarrow> string \<Rightarrow> ('s, 'a) prog" where
  "raiseP c msg s = (Inl (Exn c msg), s)"

definition bindP :: "('s, 'a) prog \<Rightarrow> ('a \<Rightarrow> ('s, 'b) prog) \<Rightarrow> ('s, 'b) prog" where
  "bindP m f s = (case m s of (Inl e, s') \<Rightarrow> (Inl e, s') | (Inr a, s') \<Rightarrow> f a s')"

definition getP :: "('s \<Rightarrow> 'a) \<Rightarrow> ('s, 'a) prog" where
  "getP f s = (Inr (f s), s)"

definition putP :: "('s \<Rightarrow> 's) \<Rightarrow> ('s, unit) prog" where
  "putP f s = (Inr (), f s)"

definition liftP :: "'a res \<Rightarrow> ('s, 'a) prog" where
  "liftP r s = (r, s)"

definition checkP :: "bool \<Rightarrow> exc_class \<Rightarrow> string \<Rightarrow> ('s, unit) prog" where
  "checkP ok c msg s = (if ok then (Inr (), s) else (Inl (Exn c msg), s))"

definition handleP :: "('s, 'a) prog \<Rightarrow> (exn \<Rightarrow> ('s, 'a) prog) \<Rightarrow> ('s, 'a) prog" where
  "handleP m h s = (case m s of (Inl e, s') \<Rightarrow> h e s' | (Inr a, s') \<Rightarrow> (Inr a, s'))"

text \<open>
  \<open>sql_atomic\<close> of \<^verbatim>\<open>store.py\<close>: the body runs in a transaction (or in a savepoint of the
  enclosing one) that is committed when the body returns and rolled back when it raises.
\<close>

definition sql_atomic :: "('s, 'a) prog \<Rightarrow> ('s, 'a) prog" where
  "sql_atomic m s = (case m s of (Inl e, s') \<Rightarrow> (Inl e, s) | (Inr a, s') \<Rightarrow> (Inr a, s'))"

lemma retP_apply [simp]: "retP a s = (Inr a, s)"
  by (simp add: retP_def)

lemma raiseP_apply [simp]: "raiseP c msg s = (Inl (Exn c msg), s)"
  by (simp add: raiseP_def)

lemma getP_apply [simp]: "getP f s = (Inr (f s), s)"
  by (simp add: getP_def)

lemma putP_apply [simp]: "putP f s = (Inr (), f s)"
  by (simp add: putP_def)

lemma liftP_apply [simp]: "liftP r s = (r, s)"
  by (simp add: liftP_def)

lemma checkP_apply [simp]:
  "checkP ok c msg s = (if ok then (Inr (), s) else (Inl (Exn c msg), s))"
  by (simp add: checkP_def)

lemma bindP_known [simp]:
  "m s = (Inr a, s') \<Longrightarrow> bindP m f s = f a s'"
  "m s = (Inl e, s') \<Longrightarrow> bindP m f s = (Inl e, s')"
  by (simp_all add: bindP_def)

lemma bindP_ok_iff [prog_simps]:
  "bindP m f s = (Inr b, s'') \<longleftrightarrow> (\<exists>a s'. m s = (Inr a, s') \<and> f a s' = (Inr b, s''))"
  by (auto simp: bindP_def split: prod.splits sum.splits)

lemma bindP_okE:
  assumes "bindP m f s = (Inr b, s'')"
  obtains a s' where "m s = (Inr a, s')" and "f a s' = (Inr b, s'')"
  using assms by (auto simp: bindP_ok_iff)

lemma checkP_ok_iff: "checkP ok c msg s = (Inr u, t) \<longleftrightarrow> ok \<and> t = s"
  by (auto simp: checkP_def)

lemma bindP_exn_iff [prog_simps]:
  "bindP m f s = (Inl e, s'') \<longleftrightarrow>
     m s = (Inl e, s'') \<or> (\<exists>a s'. m s = (Inr a, s') \<and> f a s' = (Inl e, s''))"
  by (auto simp: bindP_def split: prod.splits sum.splits)

lemma sql_atomic_ok_iff [prog_simps]:
  "sql_atomic m s = (Inr a, s') \<longleftrightarrow> m s = (Inr a, s')"
  by (auto simp: sql_atomic_def split: prod.splits sum.splits)

lemma sql_atomic_exn_iff [prog_simps]:
  "sql_atomic m s = (Inl e, s') \<longleftrightarrow> s' = s \<and> (\<exists>t. m s = (Inl e, t))"
  by (auto simp: sql_atomic_def split: prod.splits sum.splits)

lemma sql_atomic_known [simp]:
  "m s = (Inr a, s') \<Longrightarrow> sql_atomic m s = (Inr a, s')"
  "m s = (Inl e, s') \<Longrightarrow> sql_atomic m s = (Inl e, s)"
  by (simp_all add: sql_atomic_def)

lemma handleP_known [simp]:
  "m s = (Inr a, s') \<Longrightarrow> handleP m h s = (Inr a, s')"
  "m s = (Inl e, s') \<Longrightarrow> handleP m h s = h e s'"
  by (simp_all add: handleP_def)

lemma bindP_assoc: "bindP (bindP m f) g = bindP m (\<lambda>a. bindP (f a) g)"
  by (rule ext) (auto simp: bindP_def split: prod.splits sum.splits)

text \<open>A program keeps an observation \<open>f\<close> of the state if it leaves it as it found it.\<close>

definition keepsP :: "('s \<Rightarrow> 'v) \<Rightarrow> ('s, 'a) prog \<Rightarrow> bool" where
  "keepsP f m \<longleftrightarrow> (\<forall>s. f (snd (m s)) = f s)"

text \<open>A program preserves a state invariant, on normal and on exceptional exit.\<close>

definition presP :: "('s \<Rightarrow> bool) \<Rightarrow> ('s, 'a) prog \<Rightarrow> bool" where
  "presP I m \<longleftrightarrow> (\<forall>s. I s \<longrightarrow> I (snd (m s)))"

lemma presP_D: "presP I m \<Longrightarrow> I s \<Longrightarrow> I (snd (m s))"
  by (simp add: presP_def)

lemma presP_simple [intro!, prog_keeps]:
  "presP I (retP a)" "presP I (raiseP c msg)" "presP I (getP f)" "presP I (liftP r)"
  "presP I (checkP b c msg)"
  by (simp_all add: presP_def)

lemma presP_bind [intro]:
  assumes "presP I m" and "\<And>a. presP I (f a)"
  shows "presP I (bindP m f)"
  unfolding presP_def
proof (intro allI impI)
  fix s assume "I s"
  with assms(1) have I': "I (snd (m s))" by (rule presP_D)
  show "I (snd (bindP m f s))"
  proof (cases "m s")
    case (Pair r s')
    with I' assms(2) show ?thesis by (cases r) (auto simp: bindP_def presP_def)
  qed
qed

lemma presP_atomic [intro]: "presP I m \<Longrightarrow> presP I (sql_atomic m)"
  by (auto simp: presP_def sql_atomic_def split: prod.splits sum.splits)

lemma presP_handle [intro]:
  assumes "presP I m" and "\<And>e. presP I (h e)"
  shows "presP I (handleP m h)"
  unfolding presP_def
proof (intro allI impI)
  fix s assume "I s"
  with assms(1) have I': "I (snd (m s))" by (rule presP_D)
  show "I (snd (handleP m h s))"
  proof (cases "m s")
    case (Pair r s')
    with I' assms(2) show ?thesis by (cases r) (auto simp: handleP_def presP_def)
  qed
qed

lemma keepsP_presP: "keepsP f m \<longleftrightarrow> (\<forall>v. presP (\<lambda>s. f s = v) m)"
  by (auto simp: keepsP_def presP_def)

lemma keepsP_D: "keepsP f m \<Longrightarrow> m s = (r, s') \<Longrightarrow> f s' = f s"
  by (metis keepsP_def snd_conv)

lemma keepsP_simple [intro!, prog_keeps]:
  "keepsP f (retP a)" "keepsP f (raiseP c msg)" "keepsP f (getP g)" "keepsP f (liftP r)"
  "keepsP f (checkP b c msg)"
  by (simp_all add: keepsP_def)

lemma keepsP_bind [intro]:
  "keepsP f m \<Longrightarrow> (\<And>a. keepsP f (g a)) \<Longrightarrow> keepsP f (bindP m g)"
  unfolding keepsP_presP by (blast intro: presP_bind)

lemma keepsP_atomic [intro]: "keepsP f m \<Longrightarrow> keepsP f (sql_atomic m)"
  unfolding keepsP_presP by (blast intro: presP_atomic)

lemma keepsP_handle [intro]:
  "keepsP f m \<Longrightarrow> (\<And>e. keepsP f (h e)) \<Longrightarrow> keepsP f (handleP m h)"
  unfolding keepsP_presP by (blast intro: presP_handle)

text \<open>What a transaction promises: an exception leaves no trace.\<close>

lemma sql_atomic_rollback: "fst (sql_atomic m s) = Inl e \<Longrightarrow> snd (sql_atomic m s) = s"
  by (auto simp: sql_atomic_def split: prod.splits sum.splits)

section \<open>Dictionaries\<close>

lemma distinct_update_keys [simp]:
  "distinct (map fst (AList.update k v xs)) \<longleftrightarrow> distinct (map fst xs)"
  by (induction xs) (auto simp: AList.update_keys)

lemma map_of_update [simp]: "map_of (AList.update k v xs) = (map_of xs)(k \<mapsto> v)"
  by (simp add: update_conv')

lemma map_of_delete [simp]: "map_of (AList.delete k xs) = (map_of xs)(k := None)"
  by (simp add: delete_conv')

lemma keys_update: "fst ` set (AList.update k v xs) = insert k (fst ` set xs)"
  by (induction xs) auto

lemma update_absent: "k \<notin> fst ` set xs \<Longrightarrow> AList.update k v xs = xs @ [(k, v)]"
  by (induction xs) auto

lemma update_present_keys: "k \<in> fst ` set xs \<Longrightarrow> map fst (AList.update k v xs) = map fst xs"
  by (induction xs) auto

lemma map_of_None_keys: "map_of xs k = None \<longleftrightarrow> k \<notin> fst ` set xs"
  by (simp add: map_of_eq_None_iff)

lemma length_delete_present:
  "distinct (map fst xs) \<Longrightarrow> map_of xs k = Some v \<Longrightarrow> length (AList.delete k xs) + 1 = length xs"
proof (induction xs)
  case Nil
  then show ?case by simp
next
  case (Cons p xs)
  show ?case
  proof (cases "fst p = k")
    case True
    with Cons.prems have "k \<notin> fst ` set xs" by auto
    then have "AList.delete k xs = xs" by (simp add: delete_idem)
    with True show ?thesis by (cases p) simp
  next
    case False
    with Cons show ?thesis by (cases p) auto
  qed
qed

lemma delete_absent: "map_of xs k = None \<Longrightarrow> AList.delete k xs = xs"
  by (simp add: map_of_None_keys delete_idem)

text \<open>The values of a dictionary summed, with one binding removed.\<close>

lemma sum_list_delete:
  fixes f :: "'v \<Rightarrow> 'a::comm_monoid_add"
  assumes "distinct (map fst xs)" and "map_of xs k = Some v"
  shows "sum_list (map (f \<circ> snd) xs) = f v + sum_list (map (f \<circ> snd) (AList.delete k xs))"
  using assms
proof (induction xs)
  case Nil
  then show ?case by simp
next
  case (Cons p xs)
  obtain k' v' where p: "p = (k', v')" by (cases p)
  show ?case
  proof (cases "k' = k")
    case True
    with Cons.prems p have "k \<notin> fst ` set xs" and "v' = v" by auto
    with True p show ?thesis by (simp add: delete_idem)
  next
    case False
    with Cons p show ?thesis by (simp add: ac_simps)
  qed
qed

section \<open>Strings\<close>

text \<open>ASCII lower-casing, as \<open>str.lower\<close> acts on the environment's mode names.\<close>

definition lower_char :: "char \<Rightarrow> char" where
  "lower_char c = (if 65 \<le> (of_char c :: nat) \<and> (of_char c :: nat) \<le> 90
                   then char_of ((of_char c :: nat) + 32) else c)"

definition py_lower :: "string \<Rightarrow> string" where
  "py_lower = map lower_char"

text \<open>
  \<^verbatim>\<open>os.getenv("AGENTBRIDGE_ENV", "").lower() in ("prod", "production")\<close>; the value of the
  variable (empty when unset) is a parameter of every operation that reads it.
\<close>

definition is_prod :: "string \<Rightarrow> bool" where
  "is_prod env \<longleftrightarrow> py_lower env = ''prod'' \<or> py_lower env = ''production''"

definition py_space :: "char \<Rightarrow> bool" where
  "py_space c \<longleftrightarrow> (of_char c :: nat) \<in> {9, 10, 11, 12, 13, 28, 29, 30, 31, 32, 133, 160}"

definition py_strip :: "string \<Rightarrow> string" where
  "py_strip s = rev (dropWhile py_space (rev (dropWhile py_space s)))"

end
