(* ===== verification/Py_Float.thy ===== *)
theory Py_Float
  imports Complex_Main "HOL-Library.Log_Nat" AB_Prelude
begin

text \<open>
  Python's \<open>float\<close>: IEEE 754 binary64 values and the arithmetic the program does on them.

  A finite float is the rational it denotes; \<open>fl\<close> rounds a rational to the nearest binary64
  value, ties to even, with gradual underflow, so that the float sum of \<open>a\<close> and \<open>b\<close> is
  \<open>fl (a + b)\<close>.  Infinities and NaN occur only in inputs, which the code rejects before it
  computes with them; a sum past the largest finite float is kept as the (larger) rounded
  rational instead of becoming an infinity, which compares with every finite limit in the
  same way.  The sign of zero is not modelled.

  The rounding is exact on every value with at most 53 significant bits (\<open>fl_exact\<close>); the
  properties of the budgets that need exact sums assume amounts on such a grid.
\<close>

datatype pyfloat = Fin rat | PInf | NInf | NaN

text \<open>The exponent of the leading bit of a positive rational.\<close>

definition ilog2 :: "rat \<Rightarrow> int" where
  "ilog2 x = (let (p, q) = quotient_of x; k = bitlen p - bitlen q
              in if x < power_int 2 k then k - 1 else k)"

definition round_even :: "rat \<Rightarrow> int" where
  "round_even y = (let n = \<lfloor>y\<rfloor>; d = y - of_int n in
     if d < 1/2 then n else if d > 1/2 then n + 1 else if even n then n else n + 1)"

definition fl :: "rat \<Rightarrow> rat" where
  "fl x = (if x = 0 then 0
           else let u = power_int 2 (max (-1074) (ilog2 \<bar>x\<bar> - 52))
                in of_int (round_even (x / u)) * u)"

definition fadd :: "rat \<Rightarrow> rat \<Rightarrow> rat" where
  "fadd a b = fl (a + b)"

definition fsub :: "rat \<Rightarrow> rat \<Rightarrow> rat" where
  "fsub a b = fl (a - b)"

text \<open>
  The built-in \<open>sum\<close> over floats as CPython 3.12 (the interpreter of the repository's images)
  computes it: a left fold from 0 that carries a running compensation and adds it at the end.
\<close>

fun sum_step :: "rat \<times> rat \<Rightarrow> rat \<Rightarrow> rat \<times> rat" where
  "sum_step (acc, c) x =
     (let t = fadd acc x
      in (t, fadd c (if \<bar>acc\<bar> \<ge> \<bar>x\<bar> then fadd (fsub acc t) x else fadd (fsub x t) acc)))"

definition fsum :: "rat list \<Rightarrow> rat" where
  "fsum xs = (let (acc, c) = foldl sum_step (0, 0) xs in if c \<noteq> 0 then fadd acc c else acc)"

text \<open>
  What a caller may pass where the code expects a number, as far as the code distinguishes it.
  \<open>NumOther r\<close> is any other object; \<open>r\<close> is what \<open>float()\<close> makes of it, or \<open>None\<close> when the
  conversion raises.
\<close>

datatype pynum = NumBool bool | NumInt int | NumFloat pyfloat | NumOther "pyfloat option"

definition float_max :: rat where
  "float_max = power_int 2 1024"

fun to_float :: "pynum \<Rightarrow> pyfloat option" where
  "to_float (NumBool b) = Some (Fin (if b then 1 else 0))"
| "to_float (NumInt n) = (if \<bar>fl (of_int n)\<bar> \<ge> float_max then None else Some (Fin (fl (of_int n))))"
| "to_float (NumFloat x) = Some x"
| "to_float (NumOther r) = r"

section \<open>Where rounding is exact\<close>

lemma bitlen_rat:
  assumes "0 < p" shows "power_int 2 (bitlen p - 1) \<le> (of_int p :: rat)" "(of_int p :: rat) < power_int 2 (bitlen p)"
proof -
  from bitlen_bounds[OF assms] have a: "2 ^ nat (bitlen p - 1) \<le> p" "p < 2 ^ nat (bitlen p)" by auto
  have b: "bitlen p > 0" using assms bitlen_eq_zero_iff [of p] bitlen_nonneg [of p] by linarith
  have "(of_int (2 ^ nat (bitlen p - 1)) :: rat) \<le> of_int p" using a(1) by (rule of_int_le_iff[THEN iffD2])
  then show "power_int 2 (bitlen p - 1) \<le> (of_int p :: rat)" using b by (simp add: power_int_def)
  have "(of_int p :: rat) < of_int (2 ^ nat (bitlen p))" using a(2) by (rule of_int_less_iff[THEN iffD2])
  then show "(of_int p :: rat) < power_int 2 (bitlen p)" using b by (simp add: power_int_def)
qed

lemma ilog2_bounds:
  assumes "0 < x" shows "power_int 2 (ilog2 x) \<le> x" "x < power_int 2 (ilog2 x + 1)"
proof -
  obtain p q where q: "quotient_of x = (p, q)" by (cases "quotient_of x")
  have q0: "0 < q" using quotient_of_denom_pos[OF q] .
  have x: "x = of_int p / of_int q" using quotient_of_div[OF q] .
  have p0: "0 < p" using assms x q0 by (simp add: zero_less_divide_iff)
  note P = bitlen_rat[OF p0] and Q = bitlen_rat[OF q0]
  have rq: "(0::rat) < of_int q" using q0 by simp
  let ?k = "bitlen p - bitlen q"
  have lo: "power_int 2 (?k - 1) \<le> x"
  proof -
    have "power_int 2 (?k - 1) * (of_int q :: rat) \<le> power_int 2 (?k - 1) * power_int 2 (bitlen q)"
      using Q(2) by (intro mult_left_mono) auto
    also have "\<dots> = power_int 2 (bitlen p - 1)" by (simp add: power_int_add[symmetric])
    also have "\<dots> \<le> of_int p" by (rule P(1))
    finally show ?thesis using rq x by (simp add: le_divide_eq)
  qed
  have hi: "x < power_int 2 (?k + 1)"
  proof -
    have "(of_int p :: rat) < power_int 2 (bitlen p)" by (rule P(2))
    also have "\<dots> = power_int 2 (?k + 1) * power_int 2 (bitlen q - 1)" by (simp add: power_int_add[symmetric])
    also have "\<dots> \<le> power_int 2 (?k + 1) * of_int q" using Q(1) by (intro mult_left_mono) auto
    finally show ?thesis using rq x by (simp add: divide_less_eq)
  qed
  have i: "ilog2 x = (if x < power_int 2 ?k then ?k - 1 else ?k)" by (simp add: ilog2_def q Let_def)
  show "power_int 2 (ilog2 x) \<le> x" using lo i by auto
  show "x < power_int 2 (ilog2 x + 1)" using hi i by auto
qed

lemma round_even_of_int [simp]: "round_even (of_int n) = n"
  by (simp add: round_even_def)

text \<open>Integers below \<open>2 ^ 53\<close>, scaled by a power of two, are binary64 values.\<close>

lemma fl_exact:
  assumes "\<bar>m\<bar> < 2 ^ 53" "-1074 \<le> k"
  shows "fl (of_int m * power_int 2 k) = of_int m * power_int 2 k"
proof (cases "m = 0")
  case True then show ?thesis by (simp add: fl_def)
next
  case False
  let ?x = "of_int m * power_int 2 k :: rat"
  have ax: "\<bar>?x\<bar> = of_int \<bar>m\<bar> * power_int 2 k" by (simp add: abs_mult)
  have pos: "0 < \<bar>?x\<bar>" using False by simp
  have "(of_int \<bar>m\<bar> :: rat) < of_int (2 ^ 53)" using assms(1) by (rule of_int_less_iff[THEN iffD2])
  then have "\<bar>?x\<bar> < power_int 2 53 * power_int 2 k" unfolding ax by (intro mult_strict_right_mono) auto
  also have "\<dots> = power_int 2 (53 + k)" by (simp add: power_int_add)
  finally have "power_int 2 (ilog2 \<bar>?x\<bar>) < (power_int 2 (53 + k) :: rat)"
    using ilog2_bounds(1)[OF pos] by linarith
  then have "ilog2 \<bar>?x\<bar> < 53 + k"
    by (meson linorder_not_less one_le_numeral power_int_increasing)
  define e where "e = max (-1074) (ilog2 \<bar>?x\<bar> - 52)"
  have ek: "e \<le> k" using assms(2) \<open>ilog2 \<bar>?x\<bar> < 53 + k\<close> by (simp add: e_def)
  have "?x / power_int 2 e = of_int m * power_int 2 (k - e)"
    by (simp add: power_int_diff)
  also have "\<dots> = of_int (m * 2 ^ nat (k - e))" using ek by (simp add: power_int_def)
  finally have d: "?x / power_int 2 e = of_int (m * 2 ^ nat (k - e))" .
  have "of_int (m * 2 ^ nat (k - e)) * power_int 2 e = ?x"
    unfolding d[symmetric] by simp
  moreover have "fl ?x = of_int (round_even (?x / power_int 2 e)) * power_int 2 e"
    using False by (simp add: fl_def Let_def e_def)
  ultimately show ?thesis unfolding d round_even_of_int by (rule trans[rotated])
qed

text \<open>Multiples of \<open>2 ^ k\<close> below \<open>2 ^ (k + 53)\<close>: sums within this set are exact.\<close>

definition multiple_of_unit :: "int \<Rightarrow> rat \<Rightarrow> bool" where
  "multiple_of_unit k x \<longleftrightarrow> of_int \<lfloor>x / power_int 2 k\<rfloor> = x / power_int 2 k"

definition on_grid :: "int \<Rightarrow> rat \<Rightarrow> bool" where
  "on_grid k x \<longleftrightarrow> -1074 \<le> k \<and> multiple_of_unit k x \<and> \<bar>x\<bar> < power_int 2 (k + 53)"

lemma multiple_of_unit_iff: "multiple_of_unit k x \<longleftrightarrow> (\<exists>m. x = of_int m * power_int 2 k)"
proof
  assume "multiple_of_unit k x"
  then have "of_int \<lfloor>x / power_int 2 k\<rfloor> * power_int 2 k = x / power_int 2 k * power_int 2 k"
    unfolding multiple_of_unit_def by (rule arg_cong)
  then have "x = of_int \<lfloor>x / power_int 2 k\<rfloor> * power_int 2 k"
    by simp
  then show "\<exists>m. x = of_int m * power_int 2 k" ..
qed (auto simp: multiple_of_unit_def)

lemma fl_grid: "on_grid k x \<Longrightarrow> fl x = x"
proof -
  assume g: "on_grid k x"
  then obtain m where x: "x = of_int m * power_int 2 k"
    by (auto simp: on_grid_def multiple_of_unit_iff)
  have "(of_int \<bar>m\<bar> :: rat) * power_int 2 k = \<bar>x\<bar>" by (simp add: x abs_mult)
  also have "\<dots> < power_int 2 (k + 53)" using g by (simp add: on_grid_def)
  also have "\<dots> = of_int (2 ^ 53) * power_int 2 k" by (simp add: power_int_add)
  finally have "(of_int \<bar>m\<bar> :: rat) < of_int (2 ^ 53)" by simp
  then have "\<bar>m\<bar> < 2 ^ 53" by (simp only: of_int_less_iff)
  then show ?thesis using g unfolding x by (intro fl_exact) (auto simp: on_grid_def)
qed

lemma multiple_of_unit_add [intro]:
  "multiple_of_unit k x \<Longrightarrow> multiple_of_unit k y \<Longrightarrow> multiple_of_unit k (x + y)"
  unfolding multiple_of_unit_iff by (metis distrib_right of_int_add)

lemma multiple_of_unit_0 [simp]: "multiple_of_unit k 0"
  by (simp add: multiple_of_unit_def)

lemma multiple_of_unit_sum_list:
  "(\<And>x. x \<in> set xs \<Longrightarrow> multiple_of_unit k x) \<Longrightarrow> multiple_of_unit k (sum_list xs)"
  by (induction xs) auto

lemma on_gridI:
  "-1074 \<le> k \<Longrightarrow> multiple_of_unit k x \<Longrightarrow> \<bar>x\<bar> < power_int 2 (k + 53) \<Longrightarrow> on_grid k x"
  by (simp add: on_grid_def)

lemma fadd_grid: "on_grid k (a + b) \<Longrightarrow> fadd a b = a + b"
  by (simp add: fadd_def fl_grid)

lemma multiple_of_unit_minus [intro]: "multiple_of_unit k x \<Longrightarrow> multiple_of_unit k (- x)"
  unfolding multiple_of_unit_iff by (metis mult_minus_left of_int_minus)

lemma multiple_of_unit_diff [intro]:
  "multiple_of_unit k x \<Longrightarrow> multiple_of_unit k y \<Longrightarrow> multiple_of_unit k (x - y)"
  using multiple_of_unit_add [of k x "- y"] by auto

lemma fsub_grid: "on_grid k (a - b) \<Longrightarrow> fsub a b = a - b"
  by (simp add: fsub_def fl_grid)

lemma fl_0 [simp]: "fl 0 = 0"
  by (simp add: fl_def)

text \<open>
  A float sum of nonnegative grid amounts is the sum, as long as the total stays on the grid:
  the compensation never leaves 0.
\<close>

lemma sum_step_grid:
  assumes k: "-1074 \<le> k" and a: "multiple_of_unit k a" "0 \<le> a" and x: "multiple_of_unit k x" "0 \<le> x"
    and le: "a + x < power_int 2 (k + 53)"
  shows "sum_step (a, 0) x = (a + x, 0)"
proof -
  have g: "on_grid k y" if "multiple_of_unit k y" "\<bar>y\<bar> \<le> a + x" for y
    using that k le by (intro on_gridI) auto
  have 1: "fadd a x = a + x" using a x by (intro fadd_grid [of k] g) auto
  have 2: "fsub a (a + x) = - x" using a x fsub_grid [of k a "a + x"] g [of "- x"] by auto
  have 3: "fsub x (a + x) = - a" using a x fsub_grid [of k x "a + x"] g [of "- a"] by auto
  show ?thesis by (simp add: 1 2 3 Let_def) (simp add: fadd_def)
qed

lemma foldl_sum_step_grid:
  assumes "-1074 \<le> k" and "multiple_of_unit k a" and "0 \<le> a"
    and "\<And>x. x \<in> set xs \<Longrightarrow> multiple_of_unit k x \<and> 0 \<le> x"
    and "a + sum_list xs < power_int 2 (k + 53)"
  shows "foldl sum_step (a, 0) xs = (a + sum_list xs, 0)"
  using assms
proof (induction xs arbitrary: a)
  case Nil
  then show ?case by simp
next
  case (Cons x xs)
  have x: "multiple_of_unit k x" "0 \<le> x" using Cons.prems(4) by auto
  have "0 \<le> sum_list xs" using Cons.prems(4) by (intro sum_list_nonneg) auto
  with Cons.prems(5) have e: "sum_step (a, 0) x = (a + x, 0)"
    using Cons.prems(1,2,3) x by (intro sum_step_grid [of k]) auto
  have "foldl sum_step (a + x, 0) xs = ((a + x) + sum_list xs, 0)"
    using Cons.prems x by (intro Cons.IH) (auto simp: ac_simps)
  with e show ?case by (simp add: ac_simps del: sum_step.simps)
qed

lemma fsum_grid:
  assumes "-1074 \<le> k" and "\<And>x. x \<in> set xs \<Longrightarrow> multiple_of_unit k x \<and> 0 \<le> x"
    and "sum_list xs < power_int 2 (k + 53)"
  shows "fsum xs = sum_list xs"
  using foldl_sum_step_grid [of k 0 xs] assms by (simp add: fsum_def)

section \<open>Rounding far from zero\<close>

lemma round_even_bounds:
  "of_int n \<le> y \<Longrightarrow> n \<le> round_even y" "y \<le> of_int n \<Longrightarrow> round_even y \<le> n"
proof -
  have c: "round_even y = \<lfloor>y\<rfloor> \<or> (round_even y = \<lfloor>y\<rfloor> + 1 \<and> y \<noteq> of_int \<lfloor>y\<rfloor>)"
    by (auto simp: round_even_def Let_def)
  show "of_int n \<le> y \<Longrightarrow> n \<le> round_even y" using c le_floor_iff [of n y] by auto
  assume y: "y \<le> of_int n"
  have "\<lfloor>y\<rfloor> \<le> n" using y by linarith
  moreover have "\<lfloor>y\<rfloor> + 1 \<le> n" if "y \<noteq> of_int \<lfloor>y\<rfloor>"
    using that y by (metis calculation floor_of_int leD less_le_not_le order_antisym_conv
        zless_imp_add1_zle of_int_floor_le of_int_le_iff order.trans)
  ultimately show "round_even y \<le> n" using c by auto
qed

lemma ilog2_ge: "power_int 2 e \<le> x \<Longrightarrow> 0 < x \<Longrightarrow> e \<le> ilog2 x"
proof (rule ccontr)
  assume "power_int 2 e \<le> x" "0 < x" "\<not> e \<le> ilog2 x"
  then have "ilog2 x + 1 \<le> e" by simp
  then have "power_int 2 (ilog2 x + 1) \<le> (power_int 2 e :: rat)" by (intro power_int_increasing) auto
  with ilog2_bounds(2) [OF \<open>0 < x\<close>] \<open>power_int 2 e \<le> x\<close> show False by linarith
qed

lemma fl_unit:
  assumes "x \<noteq> 0"
  obtains e where "fl x = of_int (round_even (x / power_int 2 e)) * power_int 2 e"
    and "e = max (-1074) (ilog2 \<bar>x\<bar> - 52)"
  using assms by (auto simp: fl_def Let_def)

text \<open>A value of magnitude at least \<open>2 ^ e\<close> is rounded to a multiple of \<open>2 ^ (e - 52)\<close>.\<close>

lemma fl_multiple:
  assumes x: "power_int 2 e \<le> \<bar>x\<bar>" and e: "-1074 \<le> e - 52"
  shows "multiple_of_unit (e - 52) (fl x)"
proof -
  have pos: "0 < \<bar>x\<bar>" using x by (rule less_le_trans [rotated]) simp
  then obtain f where f: "fl x = of_int (round_even (x / power_int 2 f)) * power_int 2 f"
    and "f = max (-1074) (ilog2 \<bar>x\<bar> - 52)" using fl_unit [of x] by auto
  with ilog2_ge [OF x pos] have le: "e - 52 \<le> f" by simp
  have "power_int 2 f = (of_int (2 ^ nat (f - (e - 52))) * power_int 2 (e - 52) :: rat)"
  proof -
    have "of_int (2 ^ nat (f - (e - 52))) = (power_int 2 (f - (e - 52)) :: rat)"
      using le by (simp add: power_int_def)
    then show ?thesis by (simp add: power_int_add [symmetric])
  qed
  then have "fl x = of_int (round_even (x / power_int 2 f) * 2 ^ nat (f - (e - 52))) * power_int 2 (e - 52)"
    using f by (simp add: mult.assoc)
  then show ?thesis unfolding multiple_of_unit_iff by blast
qed

text \<open>Rounding does not cross a power of two that is at least \<open>2 ^ -1022\<close>.\<close>

lemma fl_ge_pow:
  assumes x: "power_int 2 e \<le> x" and e: "-1074 \<le> e - 52"
  shows "power_int 2 e \<le> fl x"
proof -
  have pos: "0 < x" using x by (rule less_le_trans [rotated]) simp
  then obtain f where f: "fl x = of_int (round_even (x / power_int 2 f)) * power_int 2 f"
    and fe: "f = max (-1074) (ilog2 \<bar>x\<bar> - 52)" using fl_unit [of x] by auto
  define l where "l = ilog2 x"
  have l: "e \<le> l" "power_int 2 l \<le> x" "f = l - 52"
    using ilog2_ge [OF x pos] ilog2_bounds(1) [OF pos] fe e pos by (auto simp: l_def)
  have "(of_int (2 ^ 52) :: rat) = power_int 2 (l - f)" using l by (simp add: power_int_def)
  also have "\<dots> = power_int 2 l / power_int 2 f" by (simp add: power_int_diff)
  also have "\<dots> \<le> x / power_int 2 f" using l(2) by (intro divide_right_mono) auto
  finally have "2 ^ 52 \<le> round_even (x / power_int 2 f)" by (rule round_even_bounds(1))
  then have "(of_int (2 ^ 52) :: rat) \<le> of_int (round_even (x / power_int 2 f))"
    by (rule of_int_le_iff [THEN iffD2])
  then have "of_int (2 ^ 52) * power_int 2 f \<le> fl x" unfolding f by (intro mult_right_mono) auto
  moreover have "of_int (2 ^ 52) * power_int 2 f = (power_int 2 l :: rat)"
    using l(3) by (simp add: power_int_diff)
  moreover have "power_int 2 e \<le> (power_int 2 l :: rat)" using l(1) by (intro power_int_increasing) auto
  ultimately show ?thesis by simp
qed

lemma round_even_minus: "round_even (- y) = - round_even y"
proof (cases "y = of_int \<lfloor>y\<rfloor>")
  case True
  then show ?thesis by (metis of_int_minus round_even_of_int)
next
  case False
  then have c: "\<lfloor>- y\<rfloor> = - \<lfloor>y\<rfloor> - 1"
    by (metis ceiling_altdef ceiling_def diff_minus_eq_add minus_diff_eq minus_minus uminus_add_conv_diff
        add.commute)
  have e: "even (- \<lfloor>y\<rfloor> - 1) \<longleftrightarrow> odd \<lfloor>y\<rfloor>" by simp
  show ?thesis by (auto simp: round_even_def Let_def c e)
qed

lemma fl_minus: "fl (- x) = - fl x"
  by (simp add: fl_def Let_def round_even_minus)

lemma fl_nonneg: "0 \<le> x \<Longrightarrow> 0 \<le> fl x"
proof (cases "x = 0")
  case False
  assume "0 \<le> x"
  then obtain f where "fl x = of_int (round_even (x / power_int 2 f)) * power_int 2 f"
    using fl_unit [of x] False by auto
  moreover have "0 \<le> round_even (x / power_int 2 f)"
    using \<open>0 \<le> x\<close> by (intro round_even_bounds(1)) simp
  ultimately show ?thesis by simp
qed simp

lemma fl_far:
  assumes "power_int 2 e \<le> \<bar>x\<bar>" and "-1074 \<le> e - 52"
  shows "power_int 2 e \<le> \<bar>fl x\<bar>"
  using assms fl_ge_pow [of e x] fl_ge_pow [of e "- x"] fl_minus [of x] by (cases "0 \<le> x") auto

lemma fl_le_pow:
  assumes x: "\<bar>x\<bar> \<le> power_int 2 e" and e: "-1074 \<le> e"
  shows "\<bar>fl x\<bar> \<le> power_int 2 e"
proof (cases "x = 0")
  case False
  have le: "fl y \<le> power_int 2 e" if y: "0 < y" "y \<le> power_int 2 e" for y
  proof -
    from y(1) obtain f where f: "fl y = of_int (round_even (y / power_int 2 f)) * power_int 2 f"
      and fe: "f = max (-1074) (ilog2 \<bar>y\<bar> - 52)" using fl_unit [of y] by auto
    have "\<not> e < ilog2 y"
    proof
      assume "e < ilog2 y"
      then have "(power_int 2 e :: rat) < power_int 2 (ilog2 y)" by (intro power_int_strict_increasing) auto
      with ilog2_bounds(1) [OF y(1)] y(2) show False by simp
    qed
    with fe e y have fle: "f \<le> e" by auto
    have "y / power_int 2 f \<le> power_int 2 e / power_int 2 f" using y(2) by (intro divide_right_mono) auto
    also have "\<dots> = power_int 2 (e - f)" by (simp add: power_int_diff)
    also have pw: "\<dots> = of_int (2 ^ nat (e - f))" using fle by (simp add: power_int_def)
    finally have "round_even (y / power_int 2 f) \<le> 2 ^ nat (e - f)" by (rule round_even_bounds(2))
    then have "(of_int (round_even (y / power_int 2 f)) :: rat) \<le> of_int (2 ^ nat (e - f))"
      by (rule of_int_le_iff [THEN iffD2])
    then have "fl y \<le> of_int (2 ^ nat (e - f)) * power_int 2 f" unfolding f by (intro mult_right_mono) auto
    also have "of_int (2 ^ nat (e - f)) * power_int 2 f = (power_int 2 e :: rat)"
      unfolding pw [symmetric] by (simp add: power_int_add [symmetric])
    finally show ?thesis .
  qed
  show ?thesis
  proof (cases "0 < x")
    case True
    with le [of x] x show ?thesis using fl_minus [of x] fl_nonneg [of x] by simp
  next
    case neg: False
    with False le [of "- x"] x show ?thesis using fl_minus [of x] fl_nonneg [of "- x"] by simp
  qed
qed simp

section \<open>Evaluation\<close>

text \<open>Small integers need no rounding; the equations let concrete budgets be computed.\<close>

lemma fl_of_int: "\<bar>n\<bar> < 9007199254740992 \<Longrightarrow> fl (of_int n) = of_int n"
  using fl_exact [of n 0] by simp

lemma fl_numeral [simp]:
  "fl 1 = 1"
  "(numeral n :: int) < 9007199254740992 \<Longrightarrow> fl (numeral n) = numeral n"
  "(numeral n :: int) < 9007199254740992 \<Longrightarrow> fl (- numeral n) = - numeral n"
  using fl_of_int [of 1] fl_of_int [of "numeral n"] fl_of_int [of "- numeral n"] by simp_all

lemma fl_code [code]:
  "fl x = (let (p, q) = quotient_of x in
     if q = 1 \<and> \<bar>p\<bar> < 9007199254740992 then x
     else let u = power_int 2 (max (-1074) (ilog2 \<bar>x\<bar> - 52)) in of_int (round_even (x / u)) * u)"
proof -
  obtain p q where q: "quotient_of x = (p, q)" by (cases "quotient_of x")
  show ?thesis
  proof (cases "q = 1 \<and> \<bar>p\<bar> < 9007199254740992")
    case True
    with quotient_of_div [OF q] fl_of_int [of p] show ?thesis by (simp add: q)
  next
    case False
    with q show ?thesis by (auto simp: fl_def Let_def)
  qed
qed

lemma to_float_int:
  "to_float (NumInt n) = (if \<bar>n\<bar> < 9007199254740992 then Some (Fin (of_int n))
     else if \<bar>fl (of_int n)\<bar> \<ge> float_max then None else Some (Fin (fl (of_int n))))"
proof (cases "\<bar>n\<bar> < 9007199254740992")
  case True
  have "\<bar>of_int n :: rat\<bar> = of_int \<bar>n\<bar>" by simp
  also have "\<dots> < of_int 9007199254740992" using True by (rule of_int_less_iff [THEN iffD2])
  also have "\<dots> \<le> float_max" by (simp add: float_max_def)
  finally show ?thesis using True by (simp add: fl_of_int)
qed simp

lemma to_float_code [code]:
  "to_float c = (case c of
      NumBool b \<Rightarrow> Some (Fin (if b then 1 else 0))
    | NumInt n \<Rightarrow> (if \<bar>n\<bar> < 9007199254740992 then Some (Fin (of_int n))
        else if \<bar>fl (of_int n)\<bar> \<ge> float_max then None else Some (Fin (fl (of_int n))))
    | NumFloat x \<Rightarrow> Some x
    | NumOther r \<Rightarrow> r)"
  by (cases c) (simp_all only: to_float_int pynum.case to_float.simps(1,3,4))

end
