(* ===== verification/Py_Json.thy ===== *)
theory Py_Json
  imports Py_Float
begin

text \<open>
  The JSON-shaped Python values the program receives on its wires and stores: \<open>None\<close>, \<open>bool\<close>,
  \<open>int\<close>, \<open>float\<close>, \<open>str\<close>, \<open>list\<close> and \<open>dict\<close> with string keys (an association list in insertion
  order).  \<open>jget\<close> is \<^verbatim>\<open>dict.get\<close>, \<open>jget_or\<close> the two-argument form.
\<close>

datatype json =
    JNull
  | JBool bool
  | JInt int
  | JFloat pyfloat
  | JStr string
  | JArr "json list"
  | JObj "(string \<times> json) list"

definition jget :: "(string \<times> json) list \<Rightarrow> string \<Rightarrow> json" where
  "jget d k = (case map_of d k of None \<Rightarrow> JNull | Some v \<Rightarrow> v)"

definition jget_or :: "(string \<times> json) list \<Rightarrow> string \<Rightarrow> json \<Rightarrow> json" where
  "jget_or d k v = (case map_of d k of None \<Rightarrow> v | Some w \<Rightarrow> w)"

text \<open>Python's truth value of a JSON value.\<close>

fun truthy :: "json \<Rightarrow> bool" where
  "truthy JNull = False"
| "truthy (JBool b) = b"
| "truthy (JInt n) = (n \<noteq> 0)"
| "truthy (JFloat x) = (x \<noteq> Fin 0)"
| "truthy (JStr s) = (s \<noteq> [])"
| "truthy (JArr xs) = (xs \<noteq> [])"
| "truthy (JObj d) = (d \<noteq> [])"

text \<open>\<^verbatim>\<open>x or y\<close> on JSON values.\<close>

definition py_or :: "json \<Rightarrow> json \<Rightarrow> json" where
  "py_or x y = (if truthy x then x else y)"

lemma jget_Nil [simp]: "jget [] k = JNull"
  by (simp add: jget_def)

lemma jget_Cons [simp]: "jget ((k', v) # d) k = (if k = k' then v else jget d k)"
  by (simp add: jget_def)

lemma jget_or_Nil [simp]: "jget_or [] k v = v"
  by (simp add: jget_or_def)

lemma jget_or_Cons [simp]: "jget_or ((k', w) # d) k v = (if k = k' then w else jget_or d k v)"
  by (simp add: jget_or_def)

text \<open>
  Python's \<open>==\<close> on JSON values: numbers compare by value across \<open>bool\<close>, \<open>int\<close> and \<open>float\<close>, NaN equals
  nothing, and
  dictionaries do not depend on the order of their keys.
\<close>

fun num_of :: "json \<Rightarrow> pyfloat option" where
  "num_of (JBool b) = Some (Fin (if b then 1 else 0))"
| "num_of (JInt n) = Some (Fin (of_int n))"
| "num_of (JFloat x) = (if x = NaN then None else Some x)"
| "num_of _ = None"

function (sequential) json_eq :: "json \<Rightarrow> json \<Rightarrow> bool" where
  "json_eq JNull JNull = True"
| "json_eq (JStr s) (JStr t) = (s = t)"
| "json_eq (JArr xs) (JArr ys) \<longleftrightarrow> length xs = length ys \<and> list_all (\<lambda>(x, y). json_eq x y) (zip xs ys)"
| "json_eq (JObj d) (JObj e) \<longleftrightarrow> length d = length e \<and>
     list_all (\<lambda>(k, v). list_ex (\<lambda>(k', w). k = k' \<and> json_eq v w) e) d"
| "json_eq x y \<longleftrightarrow> num_of x \<noteq> None \<and> num_of x = num_of y"
  by pat_completeness auto
termination
proof (relation "measure (\<lambda>(x, y). size x + size y)", goal_cases)
  case (2 xs ys z x y)
  then have "x \<in> set xs" "y \<in> set ys" by (auto dest: set_zip_leftD set_zip_rightD)
  then have "size x \<le> size_list size xs" "size y \<le> size_list size ys"
    using size_list_estimation' [of x xs "size x" size] size_list_estimation' [of y ys "size y" size] by auto
  with 2 show ?case by auto
next
  case (3 d e p k v q k' w)
  then have "size v \<le> size_list (size_prod (\<lambda>_. 0) size) d" "size w \<le> size_list (size_prod (\<lambda>_. 0) size) e"
    using size_list_estimation' [of "(k, v)" d "size v" "size_prod (\<lambda>_. 0) size"]
      size_list_estimation' [of "(k', w)" e "size w" "size_prod (\<lambda>_. 0) size"] by auto
  with 3 show ?case by auto
qed simp

end
