(* ===== verification/Store_Interface.thy ===== *)
theory Store_Interface
  imports Py_Json
begin

text \<open>
  The persistence interface of the governance plane (\<^verbatim>\<open>GovernanceStore\<close> in
  \<^verbatim>\<open>src/governance/store.py\<close>).  The abstract base class is the record \<open>store_ops\<close> of its
  operations over a state type \<open>'s\<close>; a backend is a value of this record.  What every backend
  promises its clients is stated once, as locales over the record: \<open>identity_store\<close>,
  \<open>budget_store\<close>, \<open>approval_store\<close>, \<open>audit_store\<close> and their union \<open>governance_store\<close>.
  \<^verbatim>\<open>Mem_Store\<close> and \<^verbatim>\<open>Sql_Store\<close> interpret them on the three backends.
\<close>

section \<open>Rows\<close>

text \<open>A formatted string: its literal pieces and the numbers formatted between them.\<close>

datatype piece = Txt string | NumP rat | IntP int

type_synonym text_line = "piece list"

record identity_row =
  i_agent :: string
  i_pub :: string
  i_revoked :: bool

record approval =
  a_id :: string
  a_agent :: string
  a_cap :: string
  a_cost :: rat
  a_status :: string
  a_created :: string

record audit_entry =
  e_seq :: int
  e_timestamp :: string
  e_actor :: string
  e_action :: string
  e_source :: string
  e_target :: string
  e_capability :: string
  e_decision :: string
  e_reason :: text_line
  e_cost :: rat
  e_prev :: string
  e_hash :: string

text \<open>
  The persisted budget document.  A key the document does not have is \<open>None\<close>; the empty
  document, which is what a missing row reads as, has none of them.
\<close>

record budget_dict =
  d_spend_limit :: "rat option"
  d_rate_limit :: "int option"
  d_window :: "rat option"
  d_spent :: "rat option"
  d_calls :: "rat list option"
  d_reserved :: "(string \<times> rat) list option"

definition empty_dict :: budget_dict where
  "empty_dict = \<lparr>d_spend_limit = None, d_rate_limit = None, d_window = None,
                 d_spent = None, d_calls = None, d_reserved = None\<rparr>"

text \<open>What the mutators that the budget manager passes to \<open>mutate_budget\<close> return.\<close>

datatype budget_reply =
    Affordable bool text_line
  | ReserveReply "string option" text_line
  | Changed bool

definition GENESIS :: string where
  "GENESIS = replicate 64 CHR ''0''"

section \<open>The interface\<close>

record 's store_ops =
  upsert_identity :: "string \<Rightarrow> string \<Rightarrow> bool \<Rightarrow> ('s, unit) prog"
  get_identity :: "string \<Rightarrow> 's \<Rightarrow> identity_row option"
  list_identities :: "'s \<Rightarrow> identity_row list"
  upsert_budget :: "string \<Rightarrow> budget_dict \<Rightarrow> ('s, unit) prog"
  get_budget :: "string \<Rightarrow> 's \<Rightarrow> budget_dict option"
  append_audit :: "audit_entry \<Rightarrow> ('s, unit) prog"
  load_audit :: "'s \<Rightarrow> audit_entry list"
  truncate_audit_before :: "int \<Rightarrow> ('s, int) prog"
  audit_count :: "'s \<Rightarrow> int"
  load_audit_head :: "'s \<Rightarrow> audit_entry option"
  insert_approval :: "approval \<Rightarrow> ('s, unit) prog"
  get_approval :: "string \<Rightarrow> 's \<Rightarrow> approval option"
  list_approvals :: "string option \<Rightarrow> 's \<Rightarrow> approval list"
  update_approval_status :: "string \<Rightarrow> string \<Rightarrow> ('s, bool) prog"
  consume_approval :: "string \<Rightarrow> ('s, bool) prog"
  delete_approval :: "string \<Rightarrow> ('s, bool) prog"
  append_audit_chained :: "(int \<Rightarrow> string \<Rightarrow> audit_entry) \<Rightarrow> ('s, audit_entry) prog"
  mutate_budget :: "string \<Rightarrow> (budget_dict, budget_reply) prog \<Rightarrow> ('s, budget_reply) prog"

text \<open>The document a mutator starts from.\<close>

definition dict_or_empty :: "budget_dict option \<Rightarrow> budget_dict" where
  "dict_or_empty r = (case r of None \<Rightarrow> empty_dict | Some d \<Rightarrow> d)"

text \<open>Sequence number and previous hash of the next chained entry, from the retained history.\<close>

definition next_seq :: "audit_entry list \<Rightarrow> int" where
  "next_seq es = (if es = [] then 0 else e_seq (last es) + 1)"

definition head_hash_of :: "audit_entry list \<Rightarrow> string" where
  "head_hash_of es = (if es = [] then GENESIS else e_hash (last es))"

section \<open>What a backend promises\<close>

locale identity_store =
  fixes ops :: "'s store_ops"
  assumes upsert_identity_ok: "fst (upsert_identity ops a k r s) = Inr ()"
    and get_upsert_identity:
      "get_identity ops b (snd (upsert_identity ops a k r s)) =
         (if b = a then Some \<lparr>i_agent = a, i_pub = k, i_revoked = r\<rparr> else get_identity ops b s)"

locale budget_store =
  fixes ops :: "'s store_ops"
  assumes get_upsert_budget:
      "upsert_budget ops a d s = (r, s') \<Longrightarrow>
         r = Inr () \<and> get_budget ops b s' = (if b = a then Some d else get_budget ops b s)"
    and mutate_ok:
      "m (dict_or_empty (get_budget ops a s)) = (Inr v, d) \<Longrightarrow>
         mutate_budget ops a m s = (Inr v, snd (upsert_budget ops a d s))"
    and mutate_exn:
      "m (dict_or_empty (get_budget ops a s)) = (Inl e, d) \<Longrightarrow> mutate_budget ops a m s = (Inl e, s)"
begin

lemma get_mutate:
  assumes "m (dict_or_empty (get_budget ops a s)) = (Inr r, d)"
  shows "fst (mutate_budget ops a m s) = Inr r"
    and "get_budget ops b (snd (mutate_budget ops a m s)) = (if b = a then Some d else get_budget ops b s)"
proof -
  obtain r' s' where u: "upsert_budget ops a d s = (r', s')" by (cases "upsert_budget ops a d s")
  from mutate_ok [of m a s r d] assms show "fst (mutate_budget ops a m s) = Inr r" by simp
  from mutate_ok [of m a s r d] assms get_upsert_budget [OF u]
  show "get_budget ops b (snd (mutate_budget ops a m s)) = (if b = a then Some d else get_budget ops b s)"
    by (simp add: u)
qed

lemma mutate_result: "fst (mutate_budget ops a m s) = fst (m (dict_or_empty (get_budget ops a s)))"
proof (cases "m (dict_or_empty (get_budget ops a s))")
  case (Pair r d)
  then show ?thesis
    using mutate_ok [of m a s] mutate_exn [of m a s] by (cases r) auto
qed

lemma mutate_frame:
  assumes "b \<noteq> a"
  shows "get_budget ops b (snd (mutate_budget ops a m s)) = get_budget ops b s"
proof (cases "m (dict_or_empty (get_budget ops a s))")
  case (Pair r d)
  show ?thesis
  proof (cases r)
    case (Inl e)
    with Pair mutate_exn show ?thesis by simp
  next
    case (Inr x)
    with Pair assms get_mutate(2) [of m a s x d b] show ?thesis by simp
  qed
qed

end

locale approval_store =
  fixes ops :: "'s store_ops"
    and appr_inv :: "'s \<Rightarrow> bool"
  assumes appr_id: "appr_inv s \<Longrightarrow> get_approval ops i s = Some a \<Longrightarrow> a_id a = i"
    and list_approvals_iff:
      "appr_inv s \<Longrightarrow> a \<in> set (list_approvals ops (Some st) s) \<longleftrightarrow>
         a_status a = st \<and> get_approval ops (a_id a) s = Some a"
    and insert_new:
      "appr_inv s \<Longrightarrow> get_approval ops (a_id a) s = None \<Longrightarrow>
         insert_approval ops a s = (u, s') \<Longrightarrow>
         u = Inr () \<and> appr_inv s' \<and>
         get_approval ops i s' = (if i = a_id a then Some a else get_approval ops i s)"
    and update_status:
      "appr_inv s \<Longrightarrow> update_approval_status ops i st s = (r, s') \<Longrightarrow>
         appr_inv s' \<and>
         (if \<exists>a. get_approval ops i s = Some a \<and> a_status a = ''pending''
          then r = Inr True \<and>
               get_approval ops j s' =
                 (if j = i then map_option (\<lambda>a. a\<lparr>a_status := st\<rparr>) (get_approval ops i s)
                  else get_approval ops j s)
          else r = Inr False \<and> get_approval ops j s' = get_approval ops j s)"
    and consume:
      "appr_inv s \<Longrightarrow> consume_approval ops i s = (r, s') \<Longrightarrow>
         appr_inv s' \<and>
         (if \<exists>a. get_approval ops i s = Some a \<and> a_status a = ''approved''
          then r = Inr True \<and>
               get_approval ops j s' =
                 (if j = i then map_option (\<lambda>a. a\<lparr>a_status := ''consumed''\<rparr>) (get_approval ops i s)
                  else get_approval ops j s)
          else r = Inr False \<and> get_approval ops j s' = get_approval ops j s)"

locale audit_store =
  fixes ops :: "'s store_ops"
    and audit_inv :: "'s \<Rightarrow> bool"
  assumes load_head:
      "audit_inv s \<Longrightarrow> load_audit_head ops s =
         (if load_audit ops s = [] then None else Some (last (load_audit ops s)))"
    and count_load: "audit_count ops s = int (length (load_audit ops s))"
    and append_chained_ok:
      "audit_inv s \<Longrightarrow> (\<And>n p. e_seq (b n p) = n) \<Longrightarrow>
         append_audit_chained ops b s = (Inr e, s') \<Longrightarrow>
         audit_inv s' \<and> e = b (next_seq (load_audit ops s)) (head_hash_of (load_audit ops s))
         \<and> load_audit ops s' = load_audit ops s @ [e]"
    and append_chained_exn: "append_audit_chained ops b s = (Inl x, s') \<Longrightarrow> s' = s"

locale governance_store =
  identity_store ops + budget_store ops + approval_store ops appr_inv + audit_store ops audit_inv
  for ops :: "'s store_ops" and appr_inv and audit_inv

end
