(* ===== verification/Mem_Store.thy ===== *)
theory Mem_Store
  imports Store_Interface
begin

text \<open>
  \<^verbatim>\<open>InMemoryStore\<close> of \<^verbatim>\<open>src/governance/store.py\<close>: four Python containers and the operations on
  them, collected in \<open>mem_ops\<close>, with the proof that they satisfy the store contract
  (\<open>interpretation mem\<close>).  The lock of the class serialises its operations, so each is one
  step on the tables.
\<close>

record gov_tables =
  t_identities :: "(string \<times> identity_row) list"
  t_budgets :: "(string \<times> budget_dict) list"
  t_audit :: "audit_entry list"
  t_approvals :: "(string \<times> approval) list"

definition empty_tables :: gov_tables where
  "empty_tables = \<lparr>t_identities = [], t_budgets = [], t_audit = [], t_approvals = []\<rparr>"

section \<open>Operations\<close>

definition mem_upsert_identity :: "string \<Rightarrow> string \<Rightarrow> bool \<Rightarrow> (gov_tables, unit) prog" where
  "mem_upsert_identity agent key revoked = putP (\<lambda>s. s\<lparr>t_identities :=
     AList.update agent \<lparr>i_agent = agent, i_pub = key, i_revoked = revoked\<rparr> (t_identities s)\<rparr>)"

definition mem_get_identity :: "string \<Rightarrow> gov_tables \<Rightarrow> identity_row option" where
  "mem_get_identity agent s = map_of (t_identities s) agent"

definition mem_list_identities :: "gov_tables \<Rightarrow> identity_row list" where
  "mem_list_identities s = map snd (t_identities s)"

definition mem_upsert_budget :: "string \<Rightarrow> budget_dict \<Rightarrow> (gov_tables, unit) prog" where
  "mem_upsert_budget agent state = putP (\<lambda>s. s\<lparr>t_budgets := AList.update agent state (t_budgets s)\<rparr>)"

definition mem_get_budget :: "string \<Rightarrow> gov_tables \<Rightarrow> budget_dict option" where
  "mem_get_budget agent s = map_of (t_budgets s) agent"

definition mem_append_audit :: "audit_entry \<Rightarrow> (gov_tables, unit) prog" where
  "mem_append_audit entry = putP (\<lambda>s. s\<lparr>t_audit := t_audit s @ [entry]\<rparr>)"

definition mem_load_audit :: "gov_tables \<Rightarrow> audit_entry list" where
  "mem_load_audit s = t_audit s"

definition mem_audit_count :: "gov_tables \<Rightarrow> int" where
  "mem_audit_count s = int (length (t_audit s))"

definition mem_load_audit_head :: "gov_tables \<Rightarrow> audit_entry option" where
  "mem_load_audit_head s = (if t_audit s = [] then None else Some (last (t_audit s)))"

definition mem_truncate_audit_before :: "int \<Rightarrow> (gov_tables, int) prog" where
  "mem_truncate_audit_before seq =
     (if seq \<le> 0 then retP 0
      else bindP (getP (length \<circ> t_audit)) (\<lambda>before.
           bindP (putP (\<lambda>s. s\<lparr>t_audit := filter (\<lambda>e. e_seq e \<ge> seq) (t_audit s)\<rparr>)) (\<lambda>_.
           getP (\<lambda>s. int before - int (length (t_audit s))))))"

definition mem_append_audit_chained ::
  "(int \<Rightarrow> string \<Rightarrow> audit_entry) \<Rightarrow> (gov_tables, audit_entry) prog" where
  "mem_append_audit_chained build_entry =
     bindP (getP mem_load_audit_head) (\<lambda>last_row.
       let seq = (case last_row of None \<Rightarrow> 0 | Some l \<Rightarrow> e_seq l + 1);
           prev_hash = (case last_row of None \<Rightarrow> GENESIS | Some l \<Rightarrow> e_hash l);
           entry = build_entry seq prev_hash
       in bindP (mem_append_audit entry) (\<lambda>_. retP entry))"

definition mem_mutate_budget ::
  "string \<Rightarrow> (budget_dict, budget_reply) prog \<Rightarrow> (gov_tables, budget_reply) prog" where
  "mem_mutate_budget agent mutator s =
     (let state = dict_or_empty (map_of (t_budgets s) agent) in
      case mutator state of
        (Inl e, _) \<Rightarrow> (Inl e, s)
      | (Inr result, state') \<Rightarrow>
          (Inr result, s\<lparr>t_budgets := AList.update agent state' (t_budgets s)\<rparr>))"

definition mem_insert_approval :: "approval \<Rightarrow> (gov_tables, unit) prog" where
  "mem_insert_approval a = putP (\<lambda>s. s\<lparr>t_approvals := AList.update (a_id a) a (t_approvals s)\<rparr>)"

definition mem_get_approval :: "string \<Rightarrow> gov_tables \<Rightarrow> approval option" where
  "mem_get_approval i s = map_of (t_approvals s) i"

definition mem_list_approvals :: "string option \<Rightarrow> gov_tables \<Rightarrow> approval list" where
  "mem_list_approvals status s =
     filter (\<lambda>a. status = None \<or> status = Some (a_status a)) (map snd (t_approvals s))"

definition mem_update_approval_status :: "string \<Rightarrow> string \<Rightarrow> (gov_tables, bool) prog" where
  "mem_update_approval_status i status s =
     (case map_of (t_approvals s) i of
        None \<Rightarrow> (Inr False, s)
      | Some rec \<Rightarrow>
          if a_status rec \<noteq> ''pending'' then (Inr False, s)
          else (Inr True, s\<lparr>t_approvals := AList.update i (rec\<lparr>a_status := status\<rparr>) (t_approvals s)\<rparr>))"

definition mem_consume_approval :: "string \<Rightarrow> (gov_tables, bool) prog" where
  "mem_consume_approval i s =
     (case map_of (t_approvals s) i of
        None \<Rightarrow> (Inr False, s)
      | Some rec \<Rightarrow>
          if a_status rec \<noteq> ''approved'' then (Inr False, s)
          else (Inr True, s\<lparr>t_approvals :=
                  AList.update i (rec\<lparr>a_status := ''consumed''\<rparr>) (t_approvals s)\<rparr>))"

definition mem_delete_approval :: "string \<Rightarrow> (gov_tables, bool) prog" where
  "mem_delete_approval i s =
     (Inr (map_of (t_approvals s) i \<noteq> None), s\<lparr>t_approvals := AList.delete i (t_approvals s)\<rparr>)"

definition mem_ops :: "gov_tables store_ops" where
  "mem_ops = \<lparr>
     upsert_identity = mem_upsert_identity,
     get_identity = mem_get_identity,
     list_identities = mem_list_identities,
     upsert_budget = mem_upsert_budget,
     get_budget = mem_get_budget,
     append_audit = mem_append_audit,
     load_audit = mem_load_audit,
     truncate_audit_before = mem_truncate_audit_before,
     audit_count = mem_audit_count,
     load_audit_head = mem_load_audit_head,
     insert_approval = mem_insert_approval,
     get_approval = mem_get_approval,
     list_approvals = mem_list_approvals,
     update_approval_status = mem_update_approval_status,
     consume_approval = mem_consume_approval,
     delete_approval = mem_delete_approval,
     append_audit_chained = mem_append_audit_chained,
     mutate_budget = mem_mutate_budget\<rparr>"

lemmas mem_defs = mem_ops_def
  mem_upsert_identity_def mem_get_identity_def mem_list_identities_def mem_upsert_budget_def
  mem_get_budget_def mem_append_audit_def mem_load_audit_def mem_truncate_audit_before_def
  mem_audit_count_def mem_load_audit_head_def mem_insert_approval_def mem_get_approval_def
  mem_list_approvals_def mem_update_approval_status_def mem_consume_approval_def
  mem_delete_approval_def mem_append_audit_chained_def mem_mutate_budget_def

section \<open>The contract\<close>

text \<open>Approvals are stored under their own identifier, once.\<close>

definition keyed_approvals :: "(string \<times> approval) list \<Rightarrow> bool" where
  "keyed_approvals xs \<longleftrightarrow> distinct (map fst xs) \<and> (\<forall>(i, a) \<in> set xs. a_id a = i)"

lemma keyed_approvals_update:
  assumes "keyed_approvals xs" and "a_id a = i"
  shows "keyed_approvals (AList.update i a xs)"
proof -
  have "set (AList.update i a xs) \<subseteq> insert (i, a) (set xs)"
    by (induction xs) auto
  with assms show ?thesis by (auto simp: keyed_approvals_def)
qed

lemma keyed_approvals_lookup: "keyed_approvals xs \<Longrightarrow> map_of xs i = Some a \<Longrightarrow> a_id a = i"
  by (auto simp: keyed_approvals_def dest: map_of_SomeD)

lemma keyed_approvals_values:
  "keyed_approvals xs \<Longrightarrow> a \<in> set (map snd xs) \<longleftrightarrow> map_of xs (a_id a) = Some a"
  by (force simp: keyed_approvals_def dest: map_of_SomeD)

definition mem_appr_inv :: "gov_tables \<Rightarrow> bool" where
  "mem_appr_inv s \<longleftrightarrow> keyed_approvals (t_approvals s)"

interpretation mem: identity_store mem_ops
  by unfold_locales (simp_all add: mem_defs)

interpretation mem: budget_store mem_ops
  by unfold_locales (auto simp: mem_defs)

interpretation mem: approval_store mem_ops mem_appr_inv
proof
  fix s i and a :: approval
  assume "mem_appr_inv s" "get_approval mem_ops i s = Some a"
  then show "a_id a = i"
    by (auto simp: mem_defs mem_appr_inv_def dest: keyed_approvals_lookup)
next
  fix s st and a :: approval
  assume "mem_appr_inv s"
  then show "a \<in> set (list_approvals mem_ops (Some st) s) \<longleftrightarrow>
      a_status a = st \<and> get_approval mem_ops (a_id a) s = Some a"
    by (auto simp: mem_defs mem_appr_inv_def keyed_approvals_values simp del: set_map)
next
  fix s u s' i and a :: approval
  assume "mem_appr_inv s" "get_approval mem_ops (a_id a) s = None"
    and "insert_approval mem_ops a s = (u, s')"
  then show "u = Inr () \<and> mem_appr_inv s' \<and>
      get_approval mem_ops i s' = (if i = a_id a then Some a else get_approval mem_ops i s)"
    by (auto simp: mem_defs mem_appr_inv_def keyed_approvals_update)
qed (auto simp: mem_defs mem_appr_inv_def keyed_approvals_update keyed_approvals_lookup
      split: option.splits if_splits)

interpretation mem: audit_store mem_ops "\<lambda>_. True"
  by unfold_locales
     (auto simp: mem_defs next_seq_def head_hash_of_def Let_def bindP_def split: if_splits)

interpretation mem: governance_store mem_ops mem_appr_inv "\<lambda>_. True" ..

end
