(* ===== verification/Task_Lifecycle.thy ===== *)
theory Task_Lifecycle
  imports Py_Json
begin

text \<open>
  \<^verbatim>\<open>src/protocols/task_lifecycle.py\<close>: the task status contract.  \<open>task\<close> is the frozen dataclass
  \<^verbatim>\<open>TaskLifecycle\<close>; \<open>mk_task\<close> its checked constructor, \<open>transition\<close> and \<open>from_a2a_task\<close> its
  methods.  Values that arrive untyped are \<open>json\<close>; a \<open>new_state\<close> argument that is no
  \<^verbatim>\<open>TaskState\<close> is \<open>None\<close>.

  The lemmas show that the transition relation is acyclic once a task has terminated, that
  every accepted event strictly increases the sequence number, and that every constructed
  task satisfies \<open>task_wf\<close>.
\<close>

datatype task_state =
    SUBMITTED | WORKING | INPUT_REQUIRED | AUTH_REQUIRED
  | COMPLETED | FAILED | CANCELED | REJECTED

fun state_value :: "task_state \<Rightarrow> string" where
  "state_value SUBMITTED = ''submitted''"
| "state_value WORKING = ''working''"
| "state_value INPUT_REQUIRED = ''input-required''"
| "state_value AUTH_REQUIRED = ''auth-required''"
| "state_value COMPLETED = ''completed''"
| "state_value FAILED = ''failed''"
| "state_value CANCELED = ''canceled''"
| "state_value REJECTED = ''rejected''"

definition all_states :: "task_state list" where
  "all_states = [SUBMITTED, WORKING, INPUT_REQUIRED, AUTH_REQUIRED,
                 COMPLETED, FAILED, CANCELED, REJECTED]"

text \<open>\<^verbatim>\<open>TaskState(value)\<close>: the member with this value.\<close>

definition state_of_value :: "string \<Rightarrow> task_state option" where
  "state_of_value v = List.find (\<lambda>s. state_value s = v) all_states"

definition terminal_states :: "task_state list" where
  "terminal_states = [COMPLETED, FAILED, CANCELED, REJECTED]"

fun transitions :: "task_state \<Rightarrow> task_state list" where
  "transitions SUBMITTED =
     [WORKING, INPUT_REQUIRED, AUTH_REQUIRED, FAILED, CANCELED, REJECTED]"
| "transitions WORKING =
     [INPUT_REQUIRED, AUTH_REQUIRED, COMPLETED, FAILED, CANCELED, REJECTED]"
| "transitions INPUT_REQUIRED = [WORKING, CANCELED, FAILED]"
| "transitions AUTH_REQUIRED = [WORKING, CANCELED, REJECTED, FAILED]"
| "transitions COMPLETED = []"
| "transitions FAILED = []"
| "transitions CANCELED = []"
| "transitions REJECTED = []"

fun lc_identifier :: "json \<Rightarrow> string \<Rightarrow> string res" where
  "lc_identifier (JStr v) label =
     (if \<not> (1 \<le> length v \<and> length v \<le> 128) \<or> py_strip v = [] \<or> py_strip v \<noteq> v
      then Inl (Exn LifecycleRejected (label @ '' must be a bounded nonempty identifier''))
      else Inr v)"
| "lc_identifier _ label =
     Inl (Exn LifecycleRejected (label @ '' must be a bounded nonempty identifier''))"

record task =
  task_id :: string
  context_id :: string
  source_protocol :: string
  tstate :: task_state
  tsequence :: int

definition mk_task :: "json \<Rightarrow> json \<Rightarrow> json \<Rightarrow> task_state \<Rightarrow> json \<Rightarrow> task res" where
  "mk_task tid cid src st seq =
     bindE (lc_identifier tid ''task_id'') (\<lambda>t.
     bindE (lc_identifier cid ''context_id'') (\<lambda>c.
     bindE (lc_identifier src ''source_protocol'') (\<lambda>p.
       if p \<noteq> ''a2a'' \<and> p \<noteq> ''agentbridge''
       then Inl (Exn LifecycleRejected
                  ''only reviewed A2A and native task provenance is supported'')
       else case seq of
         JInt n \<Rightarrow>
           if n < 0 then Inl (Exn LifecycleRejected ''invalid lifecycle state or sequence'')
           else Inr \<lparr>task_id = t, context_id = c, source_protocol = p,
                     tstate = st, tsequence = n\<rparr>
       | _ \<Rightarrow> Inl (Exn LifecycleRejected ''invalid lifecycle state or sequence''))))"

definition terminal :: "task \<Rightarrow> bool" where
  "terminal t \<longleftrightarrow> tstate t \<in> set terminal_states"

definition transition :: "task \<Rightarrow> task_state option \<Rightarrow> json \<Rightarrow> task res" where
  "transition t new_state sequence =
     (case new_state of
        None \<Rightarrow> Inl (Exn LifecycleRejected ''unknown or unreviewed task state'')
      | Some ns \<Rightarrow>
          (case sequence of
             JInt n \<Rightarrow>
               if n \<le> tsequence t
               then Inl (Exn LifecycleRejected ''stale or replayed lifecycle event sequence'')
               else if ns \<notin> set (transitions (tstate t))
               then Inl (Exn LifecycleRejected ''illegal or terminal task lifecycle transition'')
               else Inr (t\<lparr>tstate := ns, tsequence := n\<rparr>)
           | _ \<Rightarrow> Inl (Exn LifecycleRejected
                       ''stale or replayed lifecycle event sequence'')))"

fun from_a2a_task :: "json \<Rightarrow> task res" where
  "from_a2a_task (JObj d) =
     (if jget d ''kind'' \<noteq> JStr ''task''
      then Inl (Exn LifecycleRejected ''A2A lifecycle requires a task object'')
      else case jget d ''status'' of
        JObj raw \<Rightarrow>
          (case jget raw ''state'' of
             JStr v \<Rightarrow>
               (case state_of_value v of
                  None \<Rightarrow> Inl (Exn LifecycleRejected ''unknown A2A task state'')
                | Some st \<Rightarrow>
                    (case jget d ''metadata'' of
                       JNull \<Rightarrow> mk_task (jget d ''id'') (jget d ''contextId'') (JStr ''a2a'') st (JInt 0)
                     | JObj m \<Rightarrow> mk_task (jget d ''id'') (jget d ''contextId'') (JStr ''a2a'') st
                                   (jget_or m ''agentbridge_sequence'' (JInt 0))
                     | _ \<Rightarrow> Inl (Exn LifecycleRejected ''task metadata must be an object'')))
           | _ \<Rightarrow> Inl (Exn LifecycleRejected ''A2A task state is required''))
      | _ \<Rightarrow> Inl (Exn LifecycleRejected ''A2A task state is required''))"
| "from_a2a_task _ = Inl (Exn LifecycleRejected ''A2A lifecycle requires a task object'')"

section \<open>Well-formed tasks\<close>

definition wf_identifier :: "string \<Rightarrow> bool" where
  "wf_identifier v \<longleftrightarrow> 1 \<le> length v \<and> length v \<le> 128 \<and> py_strip v = v"

definition task_wf :: "task \<Rightarrow> bool" where
  "task_wf t \<longleftrightarrow> wf_identifier (task_id t) \<and> wf_identifier (context_id t)
     \<and> source_protocol t \<in> {''a2a'', ''agentbridge''} \<and> 0 \<le> tsequence t"

lemma lc_identifier_ok_iff: "lc_identifier j l = Inr v \<longleftrightarrow> j = JStr v \<and> wf_identifier v"
  by (cases j) (auto simp: wf_identifier_def)

lemma mk_task_wf:
  "mk_task a b c st q = Inr t \<Longrightarrow> task_wf t \<and> tstate t = st \<and> c = JStr (source_protocol t)"
  by (auto simp: mk_task_def prog_simps lc_identifier_ok_iff task_wf_def
      split: if_splits json.splits)

lemma transition_ok_iff:
  "transition t ns q = Inr t' \<longleftrightarrow>
     (\<exists>s n. ns = Some s \<and> q = JInt n \<and> tsequence t < n \<and> s \<in> set (transitions (tstate t))
        \<and> t' = t\<lparr>tstate := s, tsequence := n\<rparr>)"
  by (auto simp: transition_def split: option.splits json.splits if_splits)

lemma transition_wf: "task_wf t \<Longrightarrow> transition t ns q = Inr t' \<Longrightarrow> task_wf t'"
  by (auto simp: transition_ok_iff task_wf_def)

lemma from_a2a_task_wf: "from_a2a_task j = Inr t \<Longrightarrow> task_wf t \<and> source_protocol t = ''a2a''"
  by (cases j)
     (auto dest!: mk_task_wf split: if_splits json.splits option.splits)

text \<open>\<^verbatim>\<open>TaskState(s.value)\<close> gives the member back, and only for the value of a member.\<close>

lemma state_of_value_roundtrip: "state_of_value (state_value s) = Some s"
  by (cases s) (simp_all add: state_of_value_def all_states_def)

lemma state_of_value_Some: "state_of_value v = Some s \<Longrightarrow> v = state_value s"
  by (auto simp: state_of_value_def find_Some_iff)

section \<open>Runs of a task\<close>

text \<open>Terminal states are exactly those without a successor.\<close>

lemma terminal_iff_stuck: "terminal t \<longleftrightarrow> transitions (tstate t) = []"
  by (cases "tstate t") (simp_all add: terminal_def terminal_states_def)

inductive task_step :: "task \<Rightarrow> task \<Rightarrow> bool" where
  "transition t ns q = Inr t' \<Longrightarrow> task_step t t'"

inductive_cases task_stepE: "task_step t t'"

inductive task_reach :: "task \<Rightarrow> task \<Rightarrow> bool" where
  reach_refl: "task_reach t t"
| reach_step: "task_reach t u \<Longrightarrow> task_step u v \<Longrightarrow> task_reach t v"

lemma task_step_seq: "task_step t t' \<Longrightarrow> tsequence t < tsequence t'"
  by (auto elim!: task_stepE simp: transition_ok_iff)

lemma task_step_not_terminal: "task_step t t' \<Longrightarrow> \<not> terminal t"
  by (auto elim!: task_stepE simp: transition_ok_iff terminal_iff_stuck)

lemma task_reach_inv:
  assumes "task_reach t u" and "task_wf t"
  shows "task_wf u \<and> tsequence t \<le> tsequence u
    \<and> (u \<noteq> t \<longrightarrow> tsequence t < tsequence u)
    \<and> task_id u = task_id t \<and> context_id u = context_id t \<and> source_protocol u = source_protocol t"
  using assms
proof (induction rule: task_reach.induct)
  case (reach_refl t)
  then show ?case by simp
next
  case (reach_step t u v)
  then have IH: "task_wf u" "tsequence t \<le> tsequence u" "task_id u = task_id t"
    "context_id u = context_id t" "source_protocol u = source_protocol t" by auto
  from reach_step.hyps(2) have "task_wf v" "tsequence u < tsequence v" "task_id v = task_id u"
    "context_id v = context_id u" "source_protocol v = source_protocol u"
    using IH(1) by (auto elim!: task_stepE intro: transition_wf simp: transition_ok_iff)
  with IH show ?case by auto
qed

lemma task_reach_terminal: "task_reach t u \<Longrightarrow> terminal t \<Longrightarrow> u = t"
  by (induction rule: task_reach.induct) (auto dest: task_step_not_terminal)

section \<open>Properties of the lifecycle\<close>

text \<open>Along any run of a well-formed task its identity stays, its sequence number only grows, it stays
  well-formed, and once it is in a terminal state it does not change any more.\<close>

theorem task_run_safe:
  assumes "task_reach t u" and "task_wf t"
  shows "task_wf u \<and> (u = t \<or> tsequence t < tsequence u) \<and> task_id u = task_id t \<and> context_id u = context_id t
    \<and> source_protocol u = source_protocol t \<and> (terminal t \<longrightarrow> u = t)"
  using task_reach_inv [OF assms] task_reach_terminal [OF assms(1)] by blast

definition demo_task :: task where
  "demo_task = \<lparr>task_id = ''t1'', context_id = ''c1'', source_protocol = ''a2a'', tstate = SUBMITTED, tsequence = 0\<rparr>"

theorem task_run_safe_witness:
  "\<exists>u. task_reach demo_task u \<and> tstate u = COMPLETED \<and> task_wf u \<and> tsequence demo_task < tsequence u"
proof -
  let ?v = "demo_task\<lparr>tstate := WORKING, tsequence := 1\<rparr>" and ?u = "demo_task\<lparr>tstate := COMPLETED, tsequence := 5\<rparr>"
  have "transition demo_task (Some WORKING) (JInt 1) = Inr ?v" "transition ?v (Some COMPLETED) (JInt 5) = Inr ?u"
    by (simp_all add: transition_def demo_task_def)
  then have r: "task_reach demo_task ?u"
    by (blast intro: task_reach.intros task_step.intros)
  have "task_wf demo_task" by (simp add: task_wf_def wf_identifier_def demo_task_def py_strip_def py_space_def)
  from task_run_safe [OF r this] r show ?thesis by (intro exI [of _ ?u]) (auto simp: demo_task_def)
qed

text \<open>What is accepted from an A2A task object is well-formed, is in the state the object names, and
  nothing but one of the eight reviewed state names is accepted.\<close>

theorem a2a_task_accepted:
  assumes "from_a2a_task (JObj d) = Inr t"
  shows "task_wf t \<and> source_protocol t = ''a2a''
    \<and> (\<exists>raw. jget d ''status'' = JObj raw \<and> jget raw ''state'' = JStr (state_value (tstate t)))
    \<and> jget d ''id'' = JStr (task_id t)"
proof -
  from assms obtain raw v st where raw: "jget d ''status'' = JObj raw" "jget raw ''state'' = JStr v" "state_of_value v = Some st"
    and mk: "\<exists>q. mk_task (jget d ''id'') (jget d ''contextId'') (JStr ''a2a'') st q = Inr t"
    by (auto split: if_splits json.splits option.splits)
  from mk obtain q where "mk_task (jget d ''id'') (jget d ''contextId'') (JStr ''a2a'') st q = Inr t" ..
  then have "tstate t = st" "jget d ''id'' = JStr (task_id t)"
    by (cases q; auto simp: mk_task_def prog_simps lc_identifier_ok_iff split: if_splits)+
  with raw state_of_value_Some [OF raw(3)] from_a2a_task_wf [OF assms] show ?thesis by auto
qed

definition demo_wire :: "(string \<times> json) list" where
  "demo_wire = [(''kind'', JStr ''task''), (''id'', JStr ''t1''), (''contextId'', JStr ''c1''),
     (''status'', JObj [(''state'', JStr ''working'')])]"

theorem a2a_task_accepted_witness:
  "\<exists>t. from_a2a_task (JObj demo_wire) = Inr t \<and> task_wf t \<and> tstate t = WORKING"
proof -
  have v: "state_of_value ''working'' = Some WORKING" by (simp add: state_of_value_def all_states_def)
  have "py_strip x = x" if "x \<in> {''t1'', ''c1'', ''a2a''}" for x
    using that by (auto simp: py_strip_def py_space_def)
  then have "\<exists>t. from_a2a_task (JObj demo_wire) = Inr t \<and> tstate t = WORKING"
    by (simp add: demo_wire_def v mk_task_def bindE_def)
  then obtain t where "from_a2a_task (JObj demo_wire) = Inr t" "tstate t = WORKING" by blast
  with a2a_task_accepted [of demo_wire t] show ?thesis by blast
qed

end
