(* ===== verification/Audit_Capacity.thy ===== *)
theory Audit_Capacity
  imports Mem_Store Task_Lifecycle
begin

text \<open>
  The SQL database shared by the governance components, and the retained-audit capacity
  control of \<^verbatim>\<open>src/governance/audit_capacity.py\<close>.

  \<open>sql_tables\<close> is one tenant namespace: the four tables of \<^verbatim>\<open>store.py\<close>, the legal holds, the
  capacity policy row, the operation ledger, quotas, nonces, task and reconciliation tables.  A table with a
  primary key is an association list on that key, in insertion order; the \<^verbatim>\<open>audit\<close> table is
  the list of its rows in insertion order, its key being the entry's own sequence number.

  The capacity counters are kept by triggers on the \<^verbatim>\<open>audit\<close> table, so they are part of every
  insert and delete: \<open>sqlite_audit_insert\<close>, \<open>pg_audit_insert\<close>, \<open>audit_delete_before\<close>.
  \<open>esize e\<close>, the number of bytes of the stored JSON of an entry, is a parameter.
\<close>

section \<open>The database\<close>

record cap_row =
  cp_version :: int
  cp_max_records :: int
  cp_max_bytes :: int
  cp_max_entry :: int
  cp_used_records :: int
  cp_used_bytes :: int

record op_row =
  op_fingerprint :: string
  op_state :: string
  op_updated :: rat

record quota_limits =
  q_enabled :: bool
  q_spend :: rat
  q_user_spend :: rat
  q_rate :: int
  q_user_rate :: int
  q_window :: int
  q_active :: int
  q_user_active :: int
  q_records :: int

record quota_row =
  qr_fingerprint :: string
  qr_owner :: string
  qr_cost :: rat
  qr_admitted :: rat

record recon_row =
  rc_result :: string
  rc_reference :: string
  rc_evidence :: string
  rc_reviewer :: string
  rc_created :: rat

record sql_tables = gov_tables +
  t_holds :: "(string \<times> bool) list"
  t_capacity :: "cap_row option"
  t_operations :: "((string \<times> string) \<times> op_row) list"
  t_reservations :: "((string \<times> string) \<times> string) list"
  t_op_authority :: "((string \<times> string) \<times> json) list"
  t_quota_policy :: "quota_limits option"
  t_quota_records :: "((string \<times> string) \<times> quota_row) list"
  t_nonces :: "((string \<times> string) \<times> rat) list"
  t_task_links :: "(string \<times> string) list"
  t_task_snaps :: "((string \<times> string) \<times> (string \<times> bool)) list"
  t_task_events :: "((string \<times> string \<times> int) \<times> string) list"
  t_task_history :: "(int \<times> int) option"
  t_task_history_meta :: "int option"
  t_task_bytes :: "(int \<times> int) option"
  t_task_bytes_meta :: "int option"
  t_reconciled :: "((string \<times> string) \<times> recon_row) list"
  t_readbacks :: "((string \<times> string) \<times> string) list"
  t_evidence :: "((string \<times> string) \<times> string) list"
  t_evidence_cap :: "cap_row option"
  t_rules :: "json list"
  t_sensitive :: "string list"

definition empty_db :: sql_tables where
  "empty_db = gov_tables.extend empty_tables
     (sql_tables.fields [] None [] [] [] None [] [] [] [] [] None None None None [] [] [] None [] [])"

section \<open>Limits and the policy row\<close>

definition audit_limits_ok :: "int \<Rightarrow> int \<Rightarrow> int \<Rightarrow> bool" where
  "audit_limits_ok mr mb me \<longleftrightarrow>
     1 \<le> mr \<and> mr \<le> 1000000 \<and> 1 \<le> mb \<and> mb \<le> 1073741824 \<and> 1 \<le> me \<and> me \<le> 65536 \<and> me \<le> mb"

definition mk_audit_limits :: "int \<Rightarrow> int \<Rightarrow> int \<Rightarrow> (int \<times> int \<times> int) res" where
  "mk_audit_limits mr mb me =
     (if \<not> (1 \<le> mr \<and> mr \<le> 1000000 \<and> 1 \<le> mb \<and> mb \<le> 1073741824 \<and> 1 \<le> me \<and> me \<le> 65536)
      then Inl (Exn AuditCapacityDenied ''positive bounded audit capacity required'')
      else if me > mb
      then Inl (Exn AuditCapacityDenied ''audit entry capacity exceeds retained byte capacity'')
      else Inr (mr, mb, me))"

definition default_cap :: "int \<Rightarrow> int \<Rightarrow> cap_row" where
  "default_cap n b = \<lparr>cp_version = 1, cp_max_records = 100000, cp_max_bytes = 67108864,
                      cp_max_entry = 16384, cp_used_records = n, cp_used_bytes = b\<rparr>"

definition cap_validate :: "cap_row \<Rightarrow> cap_row res" where
  "cap_validate row =
     (if cp_version row \<noteq> 1
      then Inl (Exn AuditCapacityDenied ''missing or unsupported audit capacity policy'')
      else bindE (mk_audit_limits (cp_max_records row) (cp_max_bytes row) (cp_max_entry row)) (\<lambda>_.
           if cp_used_records row < 0 \<or> cp_used_bytes row < 0
           then Inl (Exn AuditCapacityDenied ''invalid retained audit capacity counters'')
           else Inr row))"

definition total_size :: "(audit_entry \<Rightarrow> int) \<Rightarrow> audit_entry list \<Rightarrow> int" where
  "total_size esize es = sum_list (map esize es)"

definition verify_retained_usage ::
  "(audit_entry \<Rightarrow> int) \<Rightarrow> ('z sql_tables_scheme, unit) prog" where
  "verify_retained_usage esize s =
     (case t_capacity s of
        None \<Rightarrow> (Inr (), s)
      | Some row \<Rightarrow>
          (case cap_validate row of
             Inl e \<Rightarrow> (Inl e, s)
           | Inr _ \<Rightarrow>
               if cp_used_records row \<noteq> int (length (t_audit s))
                  \<or> cp_used_bytes row \<noteq> total_size esize (t_audit s)
               then (Inl (Exn AuditCapacityDenied
                       ''retained audit counters do not match stored history''), s)
               else (Inr (), s)))"

section \<open>Triggers on the audit table\<close>

definition cap_row_valid :: "cap_row \<Rightarrow> bool" where
  "cap_row_valid p \<longleftrightarrow> cp_version p = 1 \<and> 0 \<le> cp_used_records p \<and> 0 \<le> cp_used_bytes p
     \<and> audit_limits_ok (cp_max_records p) (cp_max_bytes p) (cp_max_entry p)"

definition cap_row_full :: "int \<Rightarrow> cap_row \<Rightarrow> bool" where
  "cap_row_full sz p \<longleftrightarrow>
     cp_used_records p > cp_max_records p \<or> cp_used_bytes p > cp_max_bytes p \<or> sz > cp_max_entry p"

definition cap_charge :: "int \<Rightarrow> int \<Rightarrow> cap_row \<Rightarrow> cap_row" where
  "cap_charge n b p = p\<lparr>cp_used_records := cp_used_records p + n, cp_used_bytes := cp_used_bytes p + b\<rparr>"

text \<open>
  SQLite: the \<open>BEFORE INSERT\<close> trigger refuses a sequence number in use; the \<open>AFTER INSERT\<close>
  trigger creates the policy row from the other rows if there is none, checks it, charges the
  new row and aborts when a limit is passed.
\<close>

definition sqlite_audit_insert ::
  "(audit_entry \<Rightarrow> int) \<Rightarrow> audit_entry \<Rightarrow> ('z sql_tables_scheme, unit) prog" where
  "sqlite_audit_insert esize e s =
     (if \<exists>x \<in> set (t_audit s). e_seq x = e_seq e
      then (Inl (Exn IntegrityError ''audit sequence already exists; replacement forbidden''), s)
      else
        let p = (case t_capacity s of
                   None \<Rightarrow> default_cap (int (length (t_audit s))) (total_size esize (t_audit s))
                 | Some p \<Rightarrow> p)
        in if \<not> cap_row_valid p then (Inl (Exn IntegrityError ''invalid audit capacity policy''), s)
           else let p' = cap_charge 1 (esize e) p
                in if cap_row_full (esize e) p'
                   then (Inl (Exn IntegrityError ''retained audit capacity reached''), s)
                   else (Inr (), s\<lparr>t_audit := t_audit s @ [e], t_capacity := Some p'\<rparr>))"

text \<open>
  PostgreSQL: the unique index refuses a sequence number in use; the \<open>AFTER INSERT\<close> trigger
  counts all rows, the new one included, when it creates the policy row, and checks the row
  after charging it.
\<close>

definition pg_audit_trigger ::
  "(audit_entry \<Rightarrow> int) \<Rightarrow> audit_entry \<Rightarrow> ('z sql_tables_scheme, unit) prog" where
  "pg_audit_trigger esize e s =
     (let p' = (case t_capacity s of
                  None \<Rightarrow> default_cap (int (length (t_audit s @ [e]))) (total_size esize (t_audit s @ [e]))
                | Some p \<Rightarrow> cap_charge 1 (esize e) p)
      in if \<not> cap_row_valid p' then (Inl (Exn RuntimeError ''invalid audit capacity policy''), s)
         else if cap_row_full (esize e) p'
         then (Inl (Exn RuntimeError ''retained audit capacity reached''), s)
         else (Inr (), s\<lparr>t_audit := t_audit s @ [e], t_capacity := Some p'\<rparr>))"

definition pg_audit_insert ::
  "(audit_entry \<Rightarrow> int) \<Rightarrow> audit_entry \<Rightarrow> ('z sql_tables_scheme, unit) prog" where
  "pg_audit_insert esize e s =
     (if \<exists>x \<in> set (t_audit s). e_seq x = e_seq e
      then (Inl (Exn IntegrityError ''duplicate key value violates unique constraint''), s)
      else pg_audit_trigger esize e s)"

text \<open>\<^verbatim>\<open>DELETE FROM audit WHERE seq < ?\<close> with the \<open>AFTER DELETE\<close> trigger of each deleted row.\<close>

definition audit_delete_before ::
  "(audit_entry \<Rightarrow> int) \<Rightarrow> int \<Rightarrow> ('z sql_tables_scheme, int) prog" where
  "audit_delete_before esize seq s =
     (let gone = filter (\<lambda>e. e_seq e < seq) (t_audit s);
          kept = filter (\<lambda>e. \<not> e_seq e < seq) (t_audit s)
      in (Inr (int (length gone)),
          s\<lparr>t_audit := kept,
            t_capacity := map_option (cap_charge (- int (length gone)) (- total_size esize gone))
                            (t_capacity s)\<rparr>))"

section \<open>Operator policy and the retention guard\<close>

text \<open>
  \<^verbatim>\<open>policy\<close>: creates the row when it is missing, validates it, and with \<open>limits\<close> replaces the
  limits and runs the audit callback in the same transaction.
\<close>

definition capacity_policy ::
  "(audit_entry \<Rightarrow> int) \<Rightarrow> (int \<times> int \<times> int) option \<Rightarrow> ('z sql_tables_scheme, unit) prog option
     \<Rightarrow> ('z sql_tables_scheme, cap_row option) prog" where
  "capacity_policy esize limits audit = sql_atomic (
     bindP (getP t_capacity) (\<lambda>row.
     bindP (putP (\<lambda>s. if row = None
              then s\<lparr>t_capacity := Some (default_cap (int (length (t_audit s))) (total_size esize (t_audit s)))\<rparr>
              else s)) (\<lambda>_.
     bindP (getP t_capacity) (\<lambda>row.
     bindP (case row of None \<Rightarrow> retP () | Some r \<Rightarrow> bindP (liftP (cap_validate r)) (\<lambda>_. retP ())) (\<lambda>_.
       case limits of
         None \<Rightarrow> getP t_capacity
       | Some (mr, mb, me) \<Rightarrow>
           bindP (putP (\<lambda>s. s\<lparr>t_capacity := map_option (\<lambda>p. p\<lparr>cp_max_records := mr,
                     cp_max_bytes := mb, cp_max_entry := me\<rparr>) (t_capacity s)\<rparr>)) (\<lambda>_.
           bindP (case audit of None \<Rightarrow> retP () | Some a \<Rightarrow> a) (\<lambda>_.
           getP t_capacity)))))))"

definition retention_guard :: "('z sql_tables_scheme, unit) prog" where
  "retention_guard =
     bindP (getP id) (\<lambda>s.
     bindP (checkP (t_operations s = [] \<and> t_task_links s = []) PermissionError
              ''retained operation evidence blocks audit deletion'') (\<lambda>_.
     bindP (checkP (\<forall>(k, snap, term) \<in> set (t_task_snaps s). term) PermissionError
              ''nonterminal task evidence blocks audit deletion'') (\<lambda>_.
     checkP (\<forall>(a, d) \<in> set (t_budgets s). d_reserved d = None \<or> d_reserved d = Some []) PermissionError
              ''reserved budget evidence blocks audit deletion'')))"

section \<open>The counters are exact\<close>

text \<open>The policy row, once there, counts the retained rows and their bytes.\<close>

definition counters_exact :: "(audit_entry \<Rightarrow> int) \<Rightarrow> 'z sql_tables_scheme \<Rightarrow> bool" where
  "counters_exact esize s \<longleftrightarrow> (\<forall>p. t_capacity s = Some p \<longrightarrow>
     cp_used_records p = int (length (t_audit s)) \<and> cp_used_bytes p = total_size esize (t_audit s))"

lemma total_size_simps [simp]:
  "total_size f [] = 0" "total_size f (e # es) = f e + total_size f es"
  "total_size f (es @ fs) = total_size f es + total_size f fs"
  by (simp_all add: total_size_def)

lemma total_size_partition:
  "total_size f (filter P es) + total_size f (filter (\<lambda>e. \<not> P e) es) = total_size f es"
  by (induction es) auto

lemma length_partition: "length (filter P es) + length (filter (\<lambda>e. \<not> P e) es) = length es"
  by (induction es) auto

lemma sqlite_audit_insert_counters: "presP (counters_exact esize) (sqlite_audit_insert esize e)"
  by (auto simp: presP_def sqlite_audit_insert_def counters_exact_def Let_def cap_charge_def
      default_cap_def split: option.splits)

lemma pg_audit_trigger_counters: "presP (counters_exact esize) (pg_audit_trigger esize e)"
  by (auto simp: presP_def pg_audit_trigger_def counters_exact_def Let_def cap_charge_def
      default_cap_def split: option.splits)

lemma pg_audit_insert_counters: "presP (counters_exact esize) (pg_audit_insert esize e)"
  using pg_audit_trigger_counters [of esize e] by (auto simp: presP_def pg_audit_insert_def)

lemma audit_delete_counters: "presP (counters_exact esize) (audit_delete_before esize seq)"
proof -
  have "int (length (filter (\<lambda>e. \<not> e_seq e < seq) es)) = int (length es) - int (length (filter (\<lambda>e. e_seq e < seq) es))"
    and "total_size esize (filter (\<lambda>e. \<not> e_seq e < seq) es) =
         total_size esize es - total_size esize (filter (\<lambda>e. e_seq e < seq) es)" for es
    using length_partition [of "\<lambda>e. e_seq e < seq" es] total_size_partition [of esize "\<lambda>e. e_seq e < seq" es]
    by linarith+
  then show ?thesis
    by (auto simp: presP_def audit_delete_before_def counters_exact_def Let_def cap_charge_def)
qed

text \<open>Every accepted insert is within the three limits.\<close>

lemma sqlite_audit_insert_ok_iff:
  "sqlite_audit_insert esize e s = (Inr (), s') \<longleftrightarrow>
     (\<forall>x \<in> set (t_audit s). e_seq x \<noteq> e_seq e) \<and>
     (\<exists>p. (case t_capacity s of
             None \<Rightarrow> p = default_cap (int (length (t_audit s))) (total_size esize (t_audit s))
           | Some q \<Rightarrow> p = q)
        \<and> cap_row_valid p \<and> \<not> cap_row_full (esize e) (cap_charge 1 (esize e) p)
        \<and> s' = s\<lparr>t_audit := t_audit s @ [e], t_capacity := Some (cap_charge 1 (esize e) p)\<rparr>)"
  by (auto simp: sqlite_audit_insert_def Let_def split: option.splits)

lemma sqlite_audit_insert_exn: "sqlite_audit_insert esize e s = (Inl x, s') \<Longrightarrow> s' = s"
  by (auto simp: sqlite_audit_insert_def Let_def split: option.splits if_splits)

lemma pg_audit_insert_exn: "pg_audit_insert esize e s = (Inl x, s') \<Longrightarrow> s' = s"
  by (auto simp: pg_audit_insert_def pg_audit_trigger_def Let_def split: option.splits if_splits)

lemma pg_audit_insert_ok:
  "pg_audit_insert esize e s = (Inr (), s') \<Longrightarrow>
     (\<forall>x \<in> set (t_audit s). e_seq x \<noteq> e_seq e) \<and>
     (\<exists>p. s' = s\<lparr>t_audit := t_audit s @ [e], t_capacity := Some p\<rparr>)"
  by (auto simp: pg_audit_insert_def pg_audit_trigger_def Let_def split: option.splits if_splits)

text \<open>
  With nonnegative counters the two databases' triggers agree, but for the class of the
  exception the driver raises.
\<close>

definition cap_counters_nonneg :: "'z sql_tables_scheme \<Rightarrow> bool" where
  "cap_counters_nonneg s \<longleftrightarrow> (\<forall>p. t_capacity s = Some p \<longrightarrow> 0 \<le> cp_used_records p \<and> 0 \<le> cp_used_bytes p)"

lemma total_size_nonneg: "(\<And>x. 0 \<le> f x) \<Longrightarrow> 0 \<le> total_size f es"
  by (induction es) auto

lemma pg_sqlite_insert_agree:
  assumes "cap_counters_nonneg s" and "\<And>x. 0 \<le> esize x"
  shows "pg_audit_insert esize e s = (Inr (), s') \<longleftrightarrow> sqlite_audit_insert esize e s = (Inr (), s')"
  using assms total_size_nonneg [of esize "t_audit s", OF assms(2)]
  by (auto simp: pg_audit_insert_def pg_audit_trigger_def sqlite_audit_insert_def Let_def
      cap_row_valid_def cap_row_full_def cap_charge_def default_cap_def cap_counters_nonneg_def
      audit_limits_ok_def add_nonneg_nonneg split: option.splits)

section \<open>Properties of the audit capacity\<close>

text \<open>C32: While the counters agree with the table, an accepted insert leaves them agreeing, and the retained
  rows and bytes and the new entry within the configured limits; a refused insert changes nothing.\<close>

theorem capacity_bounds_history:
  assumes "counters_exact esize s" and "sqlite_audit_insert esize e s = (r, s')"
  shows "(r = Inr () \<and> (\<exists>p. t_capacity s' = Some p \<and> t_audit s' = t_audit s @ [e]
            \<and> cp_used_records p = int (length (t_audit s')) \<and> cp_used_bytes p = total_size esize (t_audit s')
            \<and> int (length (t_audit s')) \<le> cp_max_records p \<and> total_size esize (t_audit s') \<le> cp_max_bytes p
            \<and> esize e \<le> cp_max_entry p))
       \<or> ((\<exists>x. r = Inl x) \<and> s' = s)"
proof (cases r)
  case (Inl x)
  with assms(2) show ?thesis by (auto dest: sqlite_audit_insert_exn)
next
  case (Inr u)
  then have ok: "sqlite_audit_insert esize e s = (Inr (), s')" using assms(2) by simp
  have "counters_exact esize s'" using presP_D [OF sqlite_audit_insert_counters assms(1)] ok by (metis snd_conv)
  with ok Inr show ?thesis unfolding sqlite_audit_insert_ok_iff
    by (auto simp: counters_exact_def cap_row_full_def cap_charge_def)
qed

definition small_entry :: audit_entry where
  "small_entry = \<lparr>e_seq = 0, e_timestamp = ''t'', e_actor = ''a'', e_action = ''x'', e_source = ''s'', e_target = ''d'',
     e_capability = ''c'', e_decision = ''allow'', e_reason = [], e_cost = 0, e_prev = GENESIS, e_hash = ''h''\<rparr>"

definition tight_cap :: cap_row where
  "tight_cap = \<lparr>cp_version = 1, cp_max_records = 1, cp_max_bytes = 200, cp_max_entry = 100, cp_used_records = 0, cp_used_bytes = 0\<rparr>"

theorem capacity_bounds_history_witness:
  "\<exists>s'. sqlite_audit_insert (\<lambda>_. 90) small_entry (empty_db\<lparr>t_capacity := Some tight_cap\<rparr>) = (Inr (), s')
     \<and> length (t_audit s') = 1 \<and> (\<exists>p. t_capacity s' = Some p \<and> int (length (t_audit s')) \<le> cp_max_records p)"
proof -
  let ?s = "empty_db\<lparr>t_capacity := Some tight_cap\<rparr>"
  have c: "counters_exact (\<lambda>_. 90) ?s"
    by (simp add: counters_exact_def tight_cap_def empty_db_def empty_tables_def gov_tables.defs sql_tables.defs)
  obtain s' where r: "sqlite_audit_insert (\<lambda>_. 90) small_entry ?s = (Inr (), s')" and l: "length (t_audit s') = 1"
    by (simp add: sqlite_audit_insert_def cap_row_valid_def cap_row_full_def cap_charge_def audit_limits_ok_def tight_cap_def
        Let_def empty_db_def empty_tables_def gov_tables.defs sql_tables.defs)
  from capacity_bounds_history [OF c r] r l show ?thesis by auto
qed



text \<open>With a negative counter they differ: PostgreSQL checks the row after it has charged the new entry and
  accepts a row that SQLite refuses as invalid.\<close>

theorem databases_disagree_on_negative_counter:
  "fst (pg_audit_insert (\<lambda>_. 90) small_entry (empty_db\<lparr>t_capacity := Some (tight_cap\<lparr>cp_used_records := -1\<rparr>)\<rparr>)) = Inr ()
   \<and> fst (sqlite_audit_insert (\<lambda>_. 90) small_entry (empty_db\<lparr>t_capacity := Some (tight_cap\<lparr>cp_used_records := -1\<rparr>)\<rparr>))
       = Inl (Exn IntegrityError ''invalid audit capacity policy'')"
  by (simp add: sqlite_audit_insert_def pg_audit_insert_def pg_audit_trigger_def cap_row_valid_def cap_row_full_def
      cap_charge_def audit_limits_ok_def tight_cap_def Let_def empty_db_def empty_tables_def gov_tables.defs sql_tables.defs)

end
