(* ===== verification/Sql_Store.thy ===== *)
theory Sql_Store
  imports Audit_Capacity "HOL-Library.Multiset" "HOL-Library.List_Lexorder" "HOL-Library.Char_ord"
begin

text \<open>
  \<^verbatim>\<open>SqliteStore\<close> and \<^verbatim>\<open>PostgresStore\<close> of \<^verbatim>\<open>src/governance/store.py\<close> over the database of
  \<^verbatim>\<open>Audit_Capacity\<close>, and the proof that both satisfy the store contract.  A method that runs
  in a transaction is wrapped in \<^const>\<open>sql_atomic\<close>; the advisory and row locks serialise the
  transactions and have no other effect, so they do not appear.  \<open>env\<close> is the value of
  \<^verbatim>\<open>AGENTBRIDGE_ENV\<close>.
\<close>

type_synonym db = sql_tables

section \<open>SQLite\<close>

definition sqlite_upsert_identity :: "string \<Rightarrow> string \<Rightarrow> bool \<Rightarrow> (db, unit) prog" where
  "sqlite_upsert_identity agent key revoked = sql_atomic (putP (\<lambda>s. s\<lparr>t_identities :=
     AList.update agent \<lparr>i_agent = agent, i_pub = key, i_revoked = revoked\<rparr> (t_identities s)\<rparr>))"

definition sqlite_get_identity :: "string \<Rightarrow> db \<Rightarrow> identity_row option" where
  "sqlite_get_identity agent s = map_of (t_identities s) agent"

definition sqlite_list_identities :: "db \<Rightarrow> identity_row list" where
  "sqlite_list_identities s = map snd (t_identities s)"

definition sqlite_upsert_budget :: "string \<Rightarrow> budget_dict \<Rightarrow> (db, unit) prog" where
  "sqlite_upsert_budget agent state =
     sql_atomic (putP (\<lambda>s. s\<lparr>t_budgets := AList.update agent state (t_budgets s)\<rparr>))"

definition sqlite_get_budget :: "string \<Rightarrow> db \<Rightarrow> budget_dict option" where
  "sqlite_get_budget agent s = map_of (t_budgets s) agent"

definition sqlite_append_audit :: "(audit_entry \<Rightarrow> int) \<Rightarrow> audit_entry \<Rightarrow> (db, unit) prog" where
  "sqlite_append_audit esize entry = sql_atomic (sqlite_audit_insert esize entry)"

definition sqlite_load_audit :: "db \<Rightarrow> audit_entry list" where
  "sqlite_load_audit s = sort_key e_seq (t_audit s)"

definition sqlite_audit_count :: "db \<Rightarrow> int" where
  "sqlite_audit_count s = int (length (t_audit s))"

definition sqlite_load_audit_head :: "db \<Rightarrow> audit_entry option" where
  "sqlite_load_audit_head s =
     (let rows = sort_key e_seq (t_audit s) in if rows = [] then None else Some (last rows))"

definition sqlite_truncate_audit_before ::
  "string \<Rightarrow> (audit_entry \<Rightarrow> int) \<Rightarrow> int \<Rightarrow> (db, int) prog" where
  "sqlite_truncate_audit_before env esize seq =
     (if is_prod env
      then raiseP PermissionError ''production audit retention requires external anchoring''
      else if seq \<le> 0 then retP 0
      else sql_atomic (
        bindP (getP t_holds) (\<lambda>holds.
        bindP (checkP (\<forall>(n, enabled) \<in> set holds. \<not> enabled) PermissionError
                 ''durable legal hold blocks audit deletion'') (\<lambda>_.
        bindP retention_guard (\<lambda>_.
        bindP (getP sqlite_load_audit_head) (\<lambda>head.
        bindP (checkP (case head of None \<Rightarrow> True | Some h \<Rightarrow> \<not> seq > e_seq h) PermissionError
                 ''audit retention must preserve the current chain head'') (\<lambda>_.
        audit_delete_before esize seq)))))))"

definition sqlite_append_audit_chained ::
  "(audit_entry \<Rightarrow> int) \<Rightarrow> (int \<Rightarrow> string \<Rightarrow> audit_entry) \<Rightarrow> (db, audit_entry) prog" where
  "sqlite_append_audit_chained esize build_entry = sql_atomic (
     bindP (getP sqlite_load_audit_head) (\<lambda>row.
       let (seq, prev_hash) = (case row of None \<Rightarrow> (0, GENESIS) | Some l \<Rightarrow> (e_seq l + 1, e_hash l));
           entry = build_entry seq prev_hash
       in bindP (sqlite_audit_insert esize entry) (\<lambda>_. retP entry)))"

definition sqlite_mutate_budget ::
  "string \<Rightarrow> (budget_dict, budget_reply) prog \<Rightarrow> (db, budget_reply) prog" where
  "sqlite_mutate_budget agent mutator = sql_atomic (\<lambda>s.
     let state = dict_or_empty (map_of (t_budgets s) agent) in
     case mutator state of
       (Inl e, _) \<Rightarrow> (Inl e, s)
     | (Inr result, state') \<Rightarrow>
         (Inr result, s\<lparr>t_budgets := AList.update agent state' (t_budgets s)\<rparr>))"

definition sqlite_insert_approval :: "approval \<Rightarrow> (db, unit) prog" where
  "sqlite_insert_approval a = sql_atomic (putP (\<lambda>s.
     if map_of (t_approvals s) (a_id a) = None
     then s\<lparr>t_approvals := t_approvals s @ [(a_id a, a)]\<rparr> else s))"

definition sqlite_get_approval :: "string \<Rightarrow> db \<Rightarrow> approval option" where
  "sqlite_get_approval i s = map_of (t_approvals s) i"

definition sqlite_list_approvals :: "string option \<Rightarrow> db \<Rightarrow> approval list" where
  "sqlite_list_approvals status s =
     (case status of
        None \<Rightarrow> sort_key a_created (map snd (t_approvals s))
      | Some st \<Rightarrow> sort_key a_created (filter (\<lambda>a. a_status a = st) (map snd (t_approvals s))))"

definition sqlite_update_approval_status :: "string \<Rightarrow> string \<Rightarrow> (db, bool) prog" where
  "sqlite_update_approval_status i status = sql_atomic (\<lambda>s.
     case map_of (t_approvals s) i of
       None \<Rightarrow> (Inr False, s)
     | Some row \<Rightarrow>
         if a_status row \<noteq> ''pending'' then (Inr False, s)
         else (Inr True, s\<lparr>t_approvals := AList.update i (row\<lparr>a_status := status\<rparr>) (t_approvals s)\<rparr>))"

definition sqlite_consume_approval :: "string \<Rightarrow> (db, bool) prog" where
  "sqlite_consume_approval i = sql_atomic (\<lambda>s.
     case map_of (t_approvals s) i of
       None \<Rightarrow> (Inr False, s)
     | Some row \<Rightarrow>
         if a_status row \<noteq> ''approved'' then (Inr False, s)
         else (Inr True, s\<lparr>t_approvals :=
                 AList.update i (row\<lparr>a_status := ''consumed''\<rparr>) (t_approvals s)\<rparr>))"

definition sqlite_delete_approval :: "string \<Rightarrow> (db, bool) prog" where
  "sqlite_delete_approval i = sql_atomic (\<lambda>s.
     (Inr (map_of (t_approvals s) i \<noteq> None), s\<lparr>t_approvals := AList.delete i (t_approvals s)\<rparr>))"

definition sqlite_ops :: "string \<Rightarrow> (audit_entry \<Rightarrow> int) \<Rightarrow> db store_ops" where
  "sqlite_ops env esize = \<lparr>
     upsert_identity = sqlite_upsert_identity,
     get_identity = sqlite_get_identity,
     list_identities = sqlite_list_identities,
     upsert_budget = sqlite_upsert_budget,
     get_budget = sqlite_get_budget,
     append_audit = sqlite_append_audit esize,
     load_audit = sqlite_load_audit,
     truncate_audit_before = sqlite_truncate_audit_before env esize,
     audit_count = sqlite_audit_count,
     load_audit_head = sqlite_load_audit_head,
     insert_approval = sqlite_insert_approval,
     get_approval = sqlite_get_approval,
     list_approvals = sqlite_list_approvals,
     update_approval_status = sqlite_update_approval_status,
     consume_approval = sqlite_consume_approval,
     delete_approval = sqlite_delete_approval,
     append_audit_chained = sqlite_append_audit_chained esize,
     mutate_budget = sqlite_mutate_budget\<rparr>"

section \<open>PostgreSQL\<close>

text \<open>
  The statements differ from SQLite's in the conflict clause of \<open>append_audit\<close> and in the
  trigger; every other method has the effect of its SQLite counterpart.
\<close>

definition pg_upsert_identity :: "string \<Rightarrow> string \<Rightarrow> bool \<Rightarrow> (db, unit) prog" where
  "pg_upsert_identity agent key revoked = putP (\<lambda>s. s\<lparr>t_identities :=
     AList.update agent \<lparr>i_agent = agent, i_pub = key, i_revoked = revoked\<rparr> (t_identities s)\<rparr>)"

definition pg_upsert_budget :: "string \<Rightarrow> budget_dict \<Rightarrow> (db, unit) prog" where
  "pg_upsert_budget agent state = putP (\<lambda>s. s\<lparr>t_budgets := AList.update agent state (t_budgets s)\<rparr>)"

definition pg_append_audit :: "(audit_entry \<Rightarrow> int) \<Rightarrow> audit_entry \<Rightarrow> (db, unit) prog" where
  "pg_append_audit esize entry s =
     (if \<exists>x \<in> set (t_audit s). e_seq x = e_seq entry then (Inr (), s)
      else pg_audit_trigger esize entry s)"

definition pg_truncate_audit_before ::
  "string \<Rightarrow> (audit_entry \<Rightarrow> int) \<Rightarrow> int \<Rightarrow> (db, int) prog" where
  "pg_truncate_audit_before env esize seq =
     (if is_prod env
      then raiseP PermissionError ''production audit retention requires external anchoring''
      else if seq \<le> 0 then retP 0
      else sql_atomic (
        bindP (getP t_holds) (\<lambda>holds.
        bindP (checkP (\<forall>(n, enabled) \<in> set holds. \<not> enabled) PermissionError
                 ''durable legal hold blocks audit deletion'') (\<lambda>_.
        bindP retention_guard (\<lambda>_.
        bindP (getP sqlite_load_audit_head) (\<lambda>head.
        bindP (checkP (case head of None \<Rightarrow> True | Some h \<Rightarrow> \<not> seq > e_seq h) PermissionError
                 ''audit retention must preserve the current chain head'') (\<lambda>_.
        audit_delete_before esize seq)))))))"

definition pg_append_audit_chained ::
  "(audit_entry \<Rightarrow> int) \<Rightarrow> (int \<Rightarrow> string \<Rightarrow> audit_entry) \<Rightarrow> (db, audit_entry) prog" where
  "pg_append_audit_chained esize build_entry = sql_atomic (
     bindP (getP sqlite_load_audit_head) (\<lambda>row.
       let (seq, prev_hash) = (case row of None \<Rightarrow> (0, GENESIS) | Some l \<Rightarrow> (e_seq l + 1, e_hash l));
           entry = build_entry seq prev_hash
       in bindP (pg_audit_insert esize entry) (\<lambda>_. retP entry)))"

definition pg_insert_approval :: "approval \<Rightarrow> (db, unit) prog" where
  "pg_insert_approval a = putP (\<lambda>s.
     if map_of (t_approvals s) (a_id a) = None
     then s\<lparr>t_approvals := t_approvals s @ [(a_id a, a)]\<rparr> else s)"

definition pg_ops :: "string \<Rightarrow> (audit_entry \<Rightarrow> int) \<Rightarrow> db store_ops" where
  "pg_ops env esize = \<lparr>
     upsert_identity = pg_upsert_identity,
     get_identity = sqlite_get_identity,
     list_identities = sqlite_list_identities,
     upsert_budget = pg_upsert_budget,
     get_budget = sqlite_get_budget,
     append_audit = pg_append_audit esize,
     load_audit = sqlite_load_audit,
     truncate_audit_before = pg_truncate_audit_before env esize,
     audit_count = sqlite_audit_count,
     load_audit_head = sqlite_load_audit_head,
     insert_approval = pg_insert_approval,
     get_approval = sqlite_get_approval,
     list_approvals = sqlite_list_approvals,
     update_approval_status = sqlite_update_approval_status,
     consume_approval = sqlite_consume_approval,
     delete_approval = sqlite_delete_approval,
     append_audit_chained = pg_append_audit_chained esize,
     mutate_budget = sqlite_mutate_budget\<rparr>"

lemmas sqlite_defs = sqlite_ops_def
  sqlite_upsert_identity_def sqlite_get_identity_def sqlite_list_identities_def
  sqlite_upsert_budget_def sqlite_get_budget_def sqlite_append_audit_def sqlite_load_audit_def
  sqlite_audit_count_def sqlite_load_audit_head_def sqlite_insert_approval_def
  sqlite_get_approval_def sqlite_list_approvals_def sqlite_update_approval_status_def
  sqlite_consume_approval_def sqlite_delete_approval_def sqlite_mutate_budget_def

lemmas pg_defs = pg_ops_def pg_upsert_identity_def pg_upsert_budget_def pg_insert_approval_def
  sqlite_get_identity_def sqlite_get_budget_def sqlite_get_approval_def sqlite_list_approvals_def
  sqlite_update_approval_status_def sqlite_consume_approval_def sqlite_mutate_budget_def
  sqlite_load_audit_def sqlite_audit_count_def sqlite_load_audit_head_def

section \<open>The contract\<close>

text \<open>Rows are stored once per sequence number, so that sorting orders them strictly.\<close>

definition sql_appr_inv :: "db \<Rightarrow> bool" where
  "sql_appr_inv s \<longleftrightarrow> keyed_approvals (t_approvals s)"

definition sql_audit_inv :: "db \<Rightarrow> bool" where
  "sql_audit_inv s \<longleftrightarrow> distinct (map e_seq (t_audit s))"

lemma sort_key_append_max:
  assumes "\<And>x. x \<in> set xs \<Longrightarrow> f x \<le> f y"
  shows "sort_key f (xs @ [y]) = sort_key f xs @ [y]"
proof (rule properties_for_sort_key)
  show "mset (sort_key f xs @ [y]) = mset (xs @ [y])" by simp
next
  fix k
  show "filter (\<lambda>x. f k = f x) (sort_key f xs @ [y]) = filter (\<lambda>x. f k = f x) (xs @ [y])"
    using sort_key_stable [of f "f k" xs] by (simp add: eq_commute [of "f k"])
next
  show "sorted (map f (sort_key f xs @ [y]))" using assms by (auto simp: sorted_append)
qed

lemma seq_le_last:
  assumes "e \<in> set (t_audit s)"
  shows "e_seq e \<le> e_seq (last (sort_key e_seq (t_audit s)))"
proof -
  let ?xs = "sort_key e_seq (t_audit s)"
  from assms have e: "e \<in> set ?xs" by simp
  then have "?xs \<noteq> []" by (metis empty_iff empty_set)
  from e obtain i where i: "i < length ?xs" "e = ?xs ! i" by (metis in_set_conv_nth)
  have "sorted (map e_seq ?xs)" by simp
  then have "map e_seq ?xs ! i \<le> map e_seq ?xs ! (length ?xs - 1)"
    using i by (intro sorted_nth_mono) auto
  with \<open>?xs \<noteq> []\<close> i show ?thesis by (simp add: last_conv_nth)
qed

lemma chained_insert_loads:
  assumes seq: "e_seq e = next_seq (sort_key e_seq (t_audit s))"
  shows "sort_key e_seq (t_audit s @ [e]) = sort_key e_seq (t_audit s) @ [e]"
proof (rule sort_key_append_max)
  fix x assume "x \<in> set (t_audit s)"
  moreover from this have "sort_key e_seq (t_audit s) \<noteq> []" by (metis empty_iff empty_set set_sort)
  ultimately show "e_seq x \<le> e_seq e"
    using seq_le_last [of x s] seq by (simp add: next_seq_def)
qed

lemma chained_head:
  "(case (if es = [] then None else Some (last es)) of
      None \<Rightarrow> (0, GENESIS) | Some l \<Rightarrow> (e_seq l + 1, e_hash l)) = (next_seq es, head_hash_of es)"
  by (simp add: next_seq_def head_hash_of_def)

text \<open>What a chained append does, for a database whose row insert behaves like \<open>ins\<close>.\<close>

lemma chained_append_contract:
  assumes inv: "sql_audit_inv s" and b: "\<And>n p. e_seq (b n p) = n"
    and ins: "\<And>e u t. ins e s = (Inr u, t) \<Longrightarrow>
      (\<forall>x \<in> set (t_audit s). e_seq x \<noteq> e_seq e) \<and> (\<exists>p. t = s\<lparr>t_audit := t_audit s @ [e], t_capacity := p\<rparr>)"
    and run: "sql_atomic (bindP (getP sqlite_load_audit_head) (\<lambda>row.
       let (seq, prev_hash) = (case row of None \<Rightarrow> (0, GENESIS) | Some l \<Rightarrow> (e_seq l + 1, e_hash l));
           entry = b seq prev_hash
       in bindP (ins entry) (\<lambda>_. retP entry))) s = (Inr e, s')"
  shows "sql_audit_inv s' \<and> e = b (next_seq (sort_key e_seq (t_audit s))) (head_hash_of (sort_key e_seq (t_audit s)))
    \<and> sort_key e_seq (t_audit s') = sort_key e_seq (t_audit s) @ [e]"
proof -
  let ?es = "sort_key e_seq (t_audit s)"
  from run have e: "e = b (next_seq ?es) (head_hash_of ?es)" and i: "\<exists>u. ins e s = (Inr u, s')"
    by (auto simp: prog_simps sqlite_load_audit_head_def Let_def chained_head split: prod.splits)
  from i ins obtain p where fresh: "\<forall>x \<in> set (t_audit s). e_seq x \<noteq> e_seq e"
    and s': "s' = s\<lparr>t_audit := t_audit s @ [e], t_capacity := p\<rparr>" by blast
  from e b have "e_seq e = next_seq ?es" by simp
  then have "sort_key e_seq (t_audit s') = ?es @ [e]" by (simp add: s' chained_insert_loads)
  moreover have "sql_audit_inv s'" using inv fresh by (auto simp: sql_audit_inv_def s')
  ultimately show ?thesis using e by simp
qed

lemma sqlite_insert_contract:
  "sqlite_audit_insert esize e s = (Inr u, t) \<Longrightarrow>
     (\<forall>x \<in> set (t_audit s). e_seq x \<noteq> e_seq e) \<and> (\<exists>p. t = s\<lparr>t_audit := t_audit s @ [e], t_capacity := p\<rparr>)"
  by (cases u) (auto simp: sqlite_audit_insert_ok_iff split: option.splits)

lemma pg_insert_contract:
  "pg_audit_insert esize e s = (Inr u, t) \<Longrightarrow>
     (\<forall>x \<in> set (t_audit s). e_seq x \<noteq> e_seq e) \<and> (\<exists>p. t = s\<lparr>t_audit := t_audit s @ [e], t_capacity := p\<rparr>)"
  by (cases u) (auto dest: pg_audit_insert_ok)

lemma keyed_approvals_snoc:
  "keyed_approvals xs \<Longrightarrow> map_of xs (a_id a) = None \<Longrightarrow> keyed_approvals (xs @ [(a_id a, a)])"
  by (auto simp: keyed_approvals_def map_of_None_keys)

interpretation sqlite: identity_store "sqlite_ops env esize" for env esize
  by unfold_locales (simp_all add: sqlite_defs sql_atomic_def)

interpretation sqlite: budget_store "sqlite_ops env esize" for env esize
  by unfold_locales (auto simp: sqlite_defs sql_atomic_def)

interpretation sqlite: approval_store "sqlite_ops env esize" sql_appr_inv for env esize
proof
  fix s i and a :: approval
  assume "sql_appr_inv s" "get_approval (sqlite_ops env esize) i s = Some a"
  then show "a_id a = i"
    by (auto simp: sqlite_defs sql_appr_inv_def dest: keyed_approvals_lookup)
next
  fix s st and a :: approval
  assume "sql_appr_inv s"
  then show "a \<in> set (list_approvals (sqlite_ops env esize) (Some st) s) \<longleftrightarrow>
      a_status a = st \<and> get_approval (sqlite_ops env esize) (a_id a) s = Some a"
    by (auto simp: sqlite_defs sql_appr_inv_def keyed_approvals_values simp del: set_map)
next
  fix s u s' i and a :: approval
  assume "sql_appr_inv s" "get_approval (sqlite_ops env esize) (a_id a) s = None"
    and "insert_approval (sqlite_ops env esize) a s = (u, s')"
  then show "u = Inr () \<and> sql_appr_inv s' \<and> get_approval (sqlite_ops env esize) i s' =
      (if i = a_id a then Some a else get_approval (sqlite_ops env esize) i s)"
    by (auto simp: sqlite_defs sql_appr_inv_def keyed_approvals_snoc sql_atomic_def map_add_def
        split: option.splits)
qed (auto simp: sqlite_defs sql_appr_inv_def keyed_approvals_update keyed_approvals_lookup sql_atomic_def
      split: option.splits if_splits)

interpretation sqlite: audit_store "sqlite_ops env esize" sql_audit_inv for env esize
proof
  fix s and b :: "int \<Rightarrow> string \<Rightarrow> audit_entry" and e s'
  assume "sql_audit_inv s" "\<And>n p. e_seq (b n p) = n"
    and "append_audit_chained (sqlite_ops env esize) b s = (Inr e, s')"
  then show "sql_audit_inv s' \<and>
      e = b (next_seq (load_audit (sqlite_ops env esize) s)) (head_hash_of (load_audit (sqlite_ops env esize) s))
      \<and> load_audit (sqlite_ops env esize) s' = load_audit (sqlite_ops env esize) s @ [e]"
    using chained_append_contract [of s b "sqlite_audit_insert esize", OF _ _ sqlite_insert_contract]
    by (simp add: sqlite_ops_def sqlite_append_audit_chained_def sqlite_load_audit_def)
qed (auto simp: sqlite_defs sqlite_append_audit_chained_def prog_simps Let_def)

interpretation sqlite: governance_store "sqlite_ops env esize" sql_appr_inv sql_audit_inv for env esize ..

interpretation pg: identity_store "pg_ops env esize" for env esize
  by unfold_locales (simp_all add: pg_defs)

interpretation pg: budget_store "pg_ops env esize" for env esize
  by unfold_locales (auto simp: pg_defs sql_atomic_def)

interpretation pg: approval_store "pg_ops env esize" sql_appr_inv for env esize
proof
  fix s i and a :: approval
  assume "sql_appr_inv s" "get_approval (pg_ops env esize) i s = Some a"
  then show "a_id a = i"
    by (auto simp: pg_defs sql_appr_inv_def dest: keyed_approvals_lookup)
next
  fix s st and a :: approval
  assume "sql_appr_inv s"
  then show "a \<in> set (list_approvals (pg_ops env esize) (Some st) s) \<longleftrightarrow>
      a_status a = st \<and> get_approval (pg_ops env esize) (a_id a) s = Some a"
    by (auto simp: pg_defs sql_appr_inv_def keyed_approvals_values simp del: set_map)
next
  fix s u s' i and a :: approval
  assume "sql_appr_inv s" "get_approval (pg_ops env esize) (a_id a) s = None"
    and "insert_approval (pg_ops env esize) a s = (u, s')"
  then show "u = Inr () \<and> sql_appr_inv s' \<and> get_approval (pg_ops env esize) i s' =
      (if i = a_id a then Some a else get_approval (pg_ops env esize) i s)"
    by (auto simp: pg_defs sql_appr_inv_def keyed_approvals_snoc map_add_def split: option.splits)
qed (auto simp: pg_defs sql_appr_inv_def keyed_approvals_update keyed_approvals_lookup sql_atomic_def
      split: option.splits if_splits)

interpretation pg: audit_store "pg_ops env esize" sql_audit_inv for env esize
proof
  fix s and b :: "int \<Rightarrow> string \<Rightarrow> audit_entry" and e s'
  assume "sql_audit_inv s" "\<And>n p. e_seq (b n p) = n"
    and "append_audit_chained (pg_ops env esize) b s = (Inr e, s')"
  then show "sql_audit_inv s' \<and>
      e = b (next_seq (load_audit (pg_ops env esize) s)) (head_hash_of (load_audit (pg_ops env esize) s))
      \<and> load_audit (pg_ops env esize) s' = load_audit (pg_ops env esize) s @ [e]"
    using chained_append_contract [of s b "pg_audit_insert esize", OF _ _ pg_insert_contract]
    by (simp add: pg_ops_def pg_append_audit_chained_def sqlite_load_audit_def)
qed (auto simp: pg_defs pg_append_audit_chained_def prog_simps Let_def)

interpretation pg: governance_store "pg_ops env esize" sql_appr_inv sql_audit_inv for env esize ..

end
