(* ===== verification/Py_Text.thy ===== *)
theory Py_Text
  imports Py_Float
begin

text \<open>
  The string and bytes operations of Python that the program uses: UTF-8 encoding, hexadecimal,
  \<open>split\<close> at a separator and \<open>float\<close> of a string.  Bytes are lists of characters, as strings
  are; a string character is one of the first 256 code points.
\<close>

section \<open>UTF-8\<close>

definition utf8_char :: "char \<Rightarrow> char list" where
  "utf8_char c = (let n = (of_char c :: nat) in
     if n < 128 then [c] else [char_of (192 + n div 64), char_of (128 + n mod 64)])"

definition encode :: "string \<Rightarrow> string" where
  "encode s = concat (map utf8_char s)"

lemma encode_simps [simp]:
  "encode [] = []" "encode (c # s) = utf8_char c @ encode s" "encode (s @ t) = encode s @ encode t"
  by (simp_all add: encode_def)

lemma of_char_256: "(of_char c :: nat) < 256"
  by (metis of_char_mod_256 mod_less_divisor zero_less_numeral)

lemma utf8_prefix_free:
  assumes eq: "utf8_char c @ xs = utf8_char d @ ys" shows "c = d \<and> xs = ys"
proof -
  let ?n = "of_char c :: nat" and ?m = "of_char d :: nat"
  note b = of_char_256 [of c] of_char_256 [of d]
  have lead: "(of_char (char_of (192 + k div 64)) :: nat) = 192 + k div 64"
    and trail: "(of_char (char_of (128 + k mod 64)) :: nat) = 128 + k mod 64" if "k < 256" for k :: nat
  proof -
    from that have "k div 64 < 4" by auto
    then show "(of_char (char_of (192 + k div 64)) :: nat) = 192 + k div 64" by simp
    have "k mod 64 < 64" by simp
    then have "128 + k mod 64 < 256" by linarith
    then show "(of_char (char_of (128 + k mod 64)) :: nat) = 128 + k mod 64" by simp
  qed
  consider "?n < 128 \<and> ?m < 128" | "?n < 128 \<and> \<not> ?m < 128" | "\<not> ?n < 128 \<and> ?m < 128"
    | "\<not> ?n < 128 \<and> \<not> ?m < 128" by blast
  then show ?thesis
  proof cases
    case 1
    with eq show ?thesis by (simp add: utf8_char_def)
  next
    case 2
    with eq have "c = char_of (192 + ?m div 64)" by (simp add: utf8_char_def Let_def)
    with 2 lead [OF b(2)] show ?thesis by simp
  next
    case 3
    with eq have "d = char_of (192 + ?n div 64)" by (simp add: utf8_char_def Let_def)
    with 3 lead [OF b(1)] show ?thesis by simp
  next
    case 4
    with eq have *: "char_of (192 + ?n div 64) = (char_of (192 + ?m div 64) :: char)"
      "char_of (128 + ?n mod 64) = (char_of (128 + ?m mod 64) :: char)" and t: "xs = ys"
      by (simp_all add: utf8_char_def Let_def)
    from arg_cong [OF *(1), of "of_char :: char \<Rightarrow> nat"] arg_cong [OF *(2), of "of_char :: char \<Rightarrow> nat"]
    have "?n div 64 = ?m div 64" "?n mod 64 = ?m mod 64"
      unfolding lead [OF b(1)] lead [OF b(2)] trail [OF b(1)] trail [OF b(2)] by simp_all
    then have "?n = ?m" by (metis div_mult_mod_eq)
    with t show ?thesis by simp
  qed
qed

lemma encode_inj: "encode s = encode t \<longleftrightarrow> s = t"
proof
  show "encode s = encode t \<Longrightarrow> s = t"
  proof (induction s arbitrary: t)
    case Nil
    then show ?case by (cases t) (auto simp: utf8_char_def Let_def split: if_splits)
  next
    case (Cons c s)
    then obtain d t' where t: "t = d # t'"
      by (cases t) (auto simp: utf8_char_def Let_def split: if_splits)
    with Cons show ?case using utf8_prefix_free [of c "encode s" d "encode t'"] by simp
  qed
qed simp

section \<open>Hexadecimal\<close>

definition hex_digit :: "nat \<Rightarrow> char" where
  "hex_digit n = (if n < 10 then char_of (48 + n) else char_of (87 + n))"

definition hex_val :: "char \<Rightarrow> nat option" where
  "hex_val c = (let n = (of_char c :: nat) in
     if 48 \<le> n \<and> n \<le> 57 then Some (n - 48)
     else if 97 \<le> n \<and> n \<le> 102 then Some (n - 87)
     else if 65 \<le> n \<and> n \<le> 70 then Some (n - 55) else None)"

text \<open>\<^verbatim>\<open>bytes.hex\<close> and \<^verbatim>\<open>bytes.fromhex\<close>, which skips ASCII white space before each byte.\<close>

fun to_hex :: "string \<Rightarrow> string" where
  "to_hex [] = []"
| "to_hex (c # cs) = (let n = (of_char c :: nat) in hex_digit (n div 16) # hex_digit (n mod 16) # to_hex cs)"

definition ascii_space :: "char \<Rightarrow> bool" where
  "ascii_space c \<longleftrightarrow> (of_char c :: nat) \<in> {9, 10, 11, 12, 13, 32}"

fun fromhex :: "string \<Rightarrow> string option" where
  "fromhex [] = Some []"
| "fromhex (c # cs) =
     (if ascii_space c then fromhex cs
      else (case cs of
              [] \<Rightarrow> None
            | d # ds \<Rightarrow>
                (case (hex_val c, hex_val d) of
                   (Some h, Some l) \<Rightarrow> map_option (Cons (char_of (16 * h + l))) (fromhex ds)
                 | _ \<Rightarrow> None)))"

lemma hex_val_digit: "n < 16 \<Longrightarrow> hex_val (hex_digit n) = Some n"
  by (auto simp: hex_val_def hex_digit_def Let_def)

lemma hex_digit_not_space: "n < 16 \<Longrightarrow> \<not> ascii_space (hex_digit n)"
  by (auto simp: ascii_space_def hex_digit_def)

lemma fromhex_to_hex [simp]: "fromhex (to_hex b) = Some b"
proof (induction b)
  case Nil
  then show ?case by simp
next
  case (Cons c cs)
  let ?n = "of_char c :: nat"
  have "k div 16 < 16" if "k < 256" for k :: nat using that by auto
  from this [OF of_char_256 [of c]] have "?n div 16 < 16" .
  moreover have "16 * (?n div 16) + ?n mod 16 = ?n" by simp
  ultimately show ?case using Cons
    by (simp add: Let_def hex_val_digit hex_digit_not_space)
qed

section \<open>Splitting and numbers\<close>

text \<open>\<^verbatim>\<open>s.split(sep, 1)\<close> with a one-character separator.\<close>

definition split_first :: "char \<Rightarrow> string \<Rightarrow> string list" where
  "split_first sep s = (if sep \<in> set s
     then [takeWhile (\<lambda>c. c \<noteq> sep) s, tl (dropWhile (\<lambda>c. c \<noteq> sep) s)] else [s])"

definition is_digit :: "char \<Rightarrow> bool" where
  "is_digit c \<longleftrightarrow> 48 \<le> (of_char c :: nat) \<and> (of_char c :: nat) \<le> 57"

definition digits_val :: "string \<Rightarrow> nat" where
  "digits_val s = foldl (\<lambda>n c. 10 * n + ((of_char c :: nat) - 48)) 0 s"

text \<open>Underscores are allowed between two digits and then dropped.\<close>

fun drop_underscores :: "char \<Rightarrow> string \<Rightarrow> string option" where
  "drop_underscores p [] = (if p = CHR ''_'' then None else Some [])"
| "drop_underscores p (c # cs) =
     (if c = CHR ''_'' then (if is_digit p then drop_underscores c cs else None)
      else if p = CHR ''_'' \<and> \<not> is_digit c then None
      else map_option (Cons c) (drop_underscores c cs))"

definition split_sign :: "string \<Rightarrow> bool \<times> string" where
  "split_sign s = (case s of [] \<Rightarrow> (False, [])
     | c # cs \<Rightarrow> if c = CHR ''-'' then (True, cs) else if c = CHR ''+'' then (False, cs) else (False, s))"

definition parse_exponent :: "string \<Rightarrow> int option" where
  "parse_exponent s = (case s of
      [] \<Rightarrow> Some 0
    | c # cs \<Rightarrow>
        if c \<noteq> CHR ''e'' \<and> c \<noteq> CHR ''E'' then None
        else let (neg, ds) = split_sign cs
             in if ds = [] \<or> \<not> list_all is_digit ds then None
                else Some (if neg then - int (digits_val ds) else int (digits_val ds)))"

definition parse_decimal :: "string \<Rightarrow> rat option" where
  "parse_decimal s =
     (let ip = takeWhile is_digit s; r = dropWhile is_digit s;
          (fp, e) = (case r of
             c # cs \<Rightarrow> if c = CHR ''.'' then (takeWhile is_digit cs, dropWhile is_digit cs) else ([], r)
           | [] \<Rightarrow> ([], []))
      in if ip = [] \<and> fp = [] then None
         else map_option (\<lambda>x. of_nat (digits_val (ip @ fp)) * power_int 10 (x - int (length fp)))
                (parse_exponent e))"

text \<open>\<^verbatim>\<open>float(s)\<close>; \<open>None\<close> is a \<open>ValueError\<close>.\<close>

definition float_of_string :: "string \<Rightarrow> pyfloat option" where
  "float_of_string text =
     (case drop_underscores CHR '' '' (py_strip text) of
        None \<Rightarrow> None
      | Some s \<Rightarrow>
          let (neg, body) = split_sign s
          in if py_lower body = ''inf'' \<or> py_lower body = ''infinity'' then Some (if neg then NInf else PInf)
             else if py_lower body = ''nan'' then Some NaN
             else (case parse_decimal body of
                     None \<Rightarrow> None
                   | Some q \<Rightarrow> let x = fl (if neg then - q else q)
                               in Some (if x \<ge> float_max then PInf else if x \<le> - float_max then NInf else Fin x)))"

lemma float_of_string_fl: "float_of_string s = Some (Fin x) \<Longrightarrow> \<exists>q. x = fl q"
  by (auto simp: float_of_string_def Let_def split: option.splits prod.splits if_splits)

section \<open>Decimal text of integers\<close>

fun nat_text :: "nat \<Rightarrow> string" where
  "nat_text n = (if n < 10 then [char_of (48 + n)] else nat_text (n div 10) @ [char_of (48 + n mod 10)])"

declare nat_text.simps [simp del]

definition int_text :: "int \<Rightarrow> string" where
  "int_text z = (if z < 0 then CHR ''-'' # nat_text (nat (- z)) else nat_text (nat z))"

lemma of_char_digit: "n < 10 \<Longrightarrow> (of_char (char_of (48 + n)) :: nat) = 48 + n"
  by simp

lemma nat_text_digits: "list_all is_digit (nat_text n) \<and> nat_text n \<noteq> []"
proof (induction n rule: nat_text.induct)
  case (1 n)
  have "n mod 10 < 10" by simp
  then have "is_digit (char_of (48 + n mod 10))" by (simp add: is_digit_def)
  moreover have "n < 10 \<Longrightarrow> is_digit (char_of (48 + n))" by (simp add: is_digit_def)
  ultimately show ?case using 1 by (subst (1 2) nat_text.simps) auto
qed

lemma digits_val_snoc: "digits_val (s @ [c]) = 10 * digits_val s + ((of_char c :: nat) - 48)"
  by (simp add: digits_val_def)

lemma digits_val_nat_text [simp]: "digits_val (nat_text n) = n"
proof (induction n rule: nat_text.induct)
  case (1 n)
  have "n mod 10 < 10" by simp
  from of_char_digit [OF this] 1 show ?case
    by (subst nat_text.simps) (auto simp: digits_val_snoc of_char_digit digits_val_def [of "[_]"])
qed

lemma nat_text_inj: "nat_text m = nat_text n \<longleftrightarrow> m = n"
  by (metis digits_val_nat_text)

lemma nat_text_no_sign: "CHR ''-'' \<notin> set (nat_text n)"
  using nat_text_digits [of n] by (auto simp: list_all_iff is_digit_def)

lemma nat_text_no_colon: "CHR '':'' \<notin> set (nat_text n)"
  using nat_text_digits [of n] by (auto simp: list_all_iff is_digit_def)

lemma int_text_inj: "int_text x = int_text y \<longleftrightarrow> x = y"
proof
  assume e: "int_text x = int_text y"
  have "nat_text n \<noteq> CHR ''-'' # t" for n t using nat_text_no_sign [of n] by auto
  with e show "x = y"
    by (auto simp: int_text_def nat_text_inj split: if_splits) metis+
qed simp

lemma int_text_no_colon: "CHR '':'' \<notin> set (int_text z)"
  by (simp add: int_text_def nat_text_no_colon)

end
