(* ===== verification/Policy_Rules.thy ===== *)
theory Policy_Rules
  imports Sql_Store Py_Text
begin

text \<open>
  The declarative rules of \<^verbatim>\<open>src/governance/policy_rules.py\<close> and their durable form in
  \<^verbatim>\<open>src/governance/durable_policy.py\<close>.

  The subclasses of \<^verbatim>\<open>Rule\<close> are the constructors of \<open>rule\<close>.  The time of evaluation is the pair
  of weekday (0 is Monday) and hour that the code reads from it.  The stored text of a durable
  rule is its JSON value.
\<close>

section \<open>Rules\<close>

record policy_context =
  c_agent :: string
  c_capability :: string
  c_cost :: rat
  c_src :: "string option"
  c_dst :: "string option"
  c_now :: "(int \<times> int) option"

definition ctx_when :: "int \<times> int \<Rightarrow> policy_context \<Rightarrow> int \<times> int" where
  "ctx_when clock ctx = (case c_now ctx of None \<Rightarrow> clock | Some t \<Rightarrow> t)"

record rule_result =
  rr_allowed :: bool
  rr_reason :: text_line
  rr_needs_approval :: bool

datatype rule =
    MaxCostPerCall rat
  | RequireApprovalAboveCost rat
  | DenyCapabilities "string set"
  | AllowOnlyCapabilities "string set"
  | BusinessHoursOnly int int "int set"
  | DenyProtocolRoute string string

definition rule_ok :: rule_result where
  "rule_ok = \<lparr>rr_allowed = True, rr_reason = [Txt []], rr_needs_approval = False\<rparr>"

definition rule_deny :: "text_line \<Rightarrow> rule_result" where
  "rule_deny why = \<lparr>rr_allowed = False, rr_reason = why, rr_needs_approval = False\<rparr>"

definition business_hours_default :: rule where
  "business_hours_default = BusinessHoursOnly 9 17 {0, 1, 2, 3, 4}"

text \<open>\<^verbatim>\<open>{n:02d}\<close> and the text of a list of integers.\<close>

definition pad2 :: "int \<Rightarrow> string" where
  "pad2 z = (let t = int_text z in if length t < 2 then CHR ''0'' # t else t)"

fun int_list_items :: "int list \<Rightarrow> string" where
  "int_list_items [] = []"
| "int_list_items [x] = int_text x"
| "int_list_items (x # xs) = int_text x @ '', '' @ int_list_items xs"

definition int_list_text :: "int list \<Rightarrow> string" where
  "int_list_text xs = ''['' @ int_list_items xs @ '']''"

definition window_reason :: "int \<Rightarrow> int \<Rightarrow> int set \<Rightarrow> text_line" where
  "window_reason s e days = [Txt (''outside allowed window (days '' @ int_list_text (sorted_list_of_set days)
     @ '' '' @ pad2 s @ '':00-'' @ pad2 e @ '':00 UTC)'')]"

fun rule_evaluate :: "int \<times> int \<Rightarrow> policy_context \<Rightarrow> rule \<Rightarrow> rule_result" where
  "rule_evaluate clock ctx (MaxCostPerCall m) =
     (if c_cost ctx > m
      then rule_deny [Txt ''cost '', NumP (c_cost ctx), Txt '' exceeds per-call cap '', NumP m]
      else rule_ok)"
| "rule_evaluate clock ctx (RequireApprovalAboveCost t) =
     (if c_cost ctx > t
      then \<lparr>rr_allowed = True,
            rr_reason = [Txt ''approval required: cost '', NumP (c_cost ctx), Txt '' > '', NumP t],
            rr_needs_approval = True\<rparr>
      else rule_ok)"
| "rule_evaluate clock ctx (DenyCapabilities caps) =
     (if c_capability ctx \<in> caps
      then rule_deny [Txt (''capability '' @ [CHR 0x27] @ c_capability ctx @ [CHR 0x27] @ '' is denied by policy'')]
      else rule_ok)"
| "rule_evaluate clock ctx (AllowOnlyCapabilities caps) =
     (if c_capability ctx \<notin> caps
      then rule_deny [Txt (''capability '' @ [CHR 0x27] @ c_capability ctx @ [CHR 0x27] @ '' not in policy allowlist'')]
      else rule_ok)"
| "rule_evaluate clock ctx (BusinessHoursOnly s e days) =
     (let (weekday, hour) = ctx_when clock ctx
      in if weekday \<notin> days \<or> \<not> (s \<le> hour \<and> hour < e) then rule_deny (window_reason s e days) else rule_ok)"
| "rule_evaluate clock ctx (DenyProtocolRoute src dst) =
     (if c_src ctx = Some src \<and> c_dst ctx = Some dst
      then rule_deny [Txt (''route '' @ src @ ''->'' @ dst @ '' is blocked by policy'')]
      else rule_ok)"

text \<open>A formatted reason is falsy when it is the empty string.\<close>

definition no_text :: "text_line \<Rightarrow> bool" where
  "no_text ps \<longleftrightarrow> list_all (\<lambda>p. p = Txt []) ps"

fun policy_loop ::
  "int \<times> int \<Rightarrow> policy_context \<Rightarrow> bool \<Rightarrow> text_line \<Rightarrow> rule list \<Rightarrow> rule_result" where
  "policy_loop clock ctx needs why [] =
     \<lparr>rr_allowed = True, rr_reason = (if needs then why else [Txt ''policy ok'']), rr_needs_approval = needs\<rparr>"
| "policy_loop clock ctx needs why (r # rs) =
     (let x = rule_evaluate clock ctx r
      in if \<not> rr_allowed x then x
         else if rr_needs_approval x
         then policy_loop clock ctx True (if no_text (rr_reason x) then why else rr_reason x) rs
         else policy_loop clock ctx needs why rs)"

definition policy_evaluate :: "int \<times> int \<Rightarrow> rule list \<Rightarrow> policy_context \<Rightarrow> rule_result" where
  "policy_evaluate clock rules ctx = policy_loop clock ctx False [Txt []] rules"

definition policy_add :: "rule \<Rightarrow> rule list \<Rightarrow> rule list" where
  "policy_add r rules = rules @ [r]"

section \<open>What a set of rules decides\<close>

definition rule_denies :: "int \<times> int \<Rightarrow> policy_context \<Rightarrow> rule \<Rightarrow> bool" where
  "rule_denies clock ctx r \<longleftrightarrow> \<not> rr_allowed (rule_evaluate clock ctx r)"

definition rule_asks :: "int \<times> int \<Rightarrow> policy_context \<Rightarrow> rule \<Rightarrow> bool" where
  "rule_asks clock ctx r \<longleftrightarrow> rr_needs_approval (rule_evaluate clock ctx r)"

lemma policy_loop_spec:
  "case find (rule_denies clock ctx) rules of
     Some r \<Rightarrow> policy_loop clock ctx needs why rules = rule_evaluate clock ctx r
   | None \<Rightarrow> rr_allowed (policy_loop clock ctx needs why rules) \<and>
       rr_needs_approval (policy_loop clock ctx needs why rules) = (needs \<or> list_ex (rule_asks clock ctx) rules)"
proof (induction rules arbitrary: needs why)
  case (Cons r rs)
  show ?case
  proof (cases "rule_denies clock ctx r")
    case True
    then show ?thesis by (simp add: rule_denies_def)
  next
    case False
    have a: "rr_allowed (rule_evaluate clock ctx r)" using False by (simp add: rule_denies_def)
    have n: "rr_needs_approval (rule_evaluate clock ctx r) = rule_asks clock ctx r" by (simp add: rule_asks_def)
    show ?thesis
      using False Cons.IH [of True] Cons.IH [of needs why]
      by (cases "rule_asks clock ctx r") (auto simp: a n Let_def split: option.splits)
  qed
qed simp

section \<open>Durable rules\<close>

definition rule_to_dict :: "rule \<Rightarrow> json" where
  "rule_to_dict r = (case r of
      MaxCostPerCall m \<Rightarrow> JObj [(''kind'', JStr ''max_cost''), (''max_cost'', JFloat (Fin m))]
    | RequireApprovalAboveCost t \<Rightarrow> JObj [(''kind'', JStr ''approval_above_cost''), (''threshold'', JFloat (Fin t))]
    | DenyCapabilities caps \<Rightarrow> JObj [(''kind'', JStr ''deny_capabilities''),
        (''capabilities'', JArr (map JStr (sorted_list_of_set caps)))]
    | AllowOnlyCapabilities caps \<Rightarrow> JObj [(''kind'', JStr ''allow_only_capabilities''),
        (''capabilities'', JArr (map JStr (sorted_list_of_set caps)))]
    | BusinessHoursOnly s e days \<Rightarrow> JObj [(''kind'', JStr ''business_hours''), (''start_hour'', JInt s),
        (''end_hour'', JInt e), (''days'', JArr (map JInt (sorted_list_of_set days)))]
    | DenyProtocolRoute src dst \<Rightarrow> JObj [(''kind'', JStr ''deny_route''), (''src'', JStr src), (''dst'', JStr dst)])"

text \<open>
  \<^verbatim>\<open>data[k]\<close>, and the values of the types the constructors of \<open>rule\<close> hold; a value of another
  JSON type has no counterpart in \<open>rule\<close> and is a type error here.
\<close>

definition jreq :: "(string \<times> json) list \<Rightarrow> string \<Rightarrow> json res" where
  "jreq d k = (case map_of d k of None \<Rightarrow> Inl (Exn KeyError k) | Some v \<Rightarrow> Inr v)"

definition type_error :: "'a res" where
  "type_error = Inl (Exn TypeError ''unexpected type in stored policy rule'')"

fun as_num :: "json \<Rightarrow> rat res" where
  "as_num (JFloat (Fin x)) = Inr x" | "as_num (JInt n) = Inr (of_int n)" | "as_num _ = type_error"

fun as_int :: "json \<Rightarrow> int res" where
  "as_int (JInt n) = Inr n" | "as_int _ = type_error"

fun as_str :: "json \<Rightarrow> string res" where
  "as_str (JStr s) = Inr s" | "as_str _ = type_error"

fun all_of :: "('a \<Rightarrow> 'b res) \<Rightarrow> 'a list \<Rightarrow> 'b list res" where
  "all_of f [] = Inr []"
| "all_of f (x # xs) = bindE (f x) (\<lambda>y. bindE (all_of f xs) (\<lambda>ys. Inr (y # ys)))"

fun as_list :: "(json \<Rightarrow> 'b res) \<Rightarrow> json \<Rightarrow> 'b list res" where
  "as_list f (JArr xs) = all_of f xs" | "as_list f _ = type_error"

definition rule_from_dict :: "json \<Rightarrow> rule res" where
  "rule_from_dict data = (case data of
      JObj d \<Rightarrow> bindE (jreq d ''kind'') (\<lambda>kind.
        if kind = JStr ''max_cost''
        then bindE (bindE (jreq d ''max_cost'') as_num) (\<lambda>m. Inr (MaxCostPerCall m))
        else if kind = JStr ''approval_above_cost''
        then bindE (bindE (jreq d ''threshold'') as_num) (\<lambda>t. Inr (RequireApprovalAboveCost t))
        else if kind = JStr ''deny_capabilities''
        then bindE (bindE (jreq d ''capabilities'') (as_list as_str)) (\<lambda>cs. Inr (DenyCapabilities (set cs)))
        else if kind = JStr ''allow_only_capabilities''
        then bindE (bindE (jreq d ''capabilities'') (as_list as_str)) (\<lambda>cs. Inr (AllowOnlyCapabilities (set cs)))
        else if kind = JStr ''business_hours''
        then bindE (bindE (jreq d ''start_hour'') as_int) (\<lambda>s.
             bindE (bindE (jreq d ''end_hour'') as_int) (\<lambda>e.
             bindE (bindE (jreq d ''days'') (as_list as_int)) (\<lambda>ds. Inr (BusinessHoursOnly s e (set ds)))))
        else if kind = JStr ''deny_route''
        then bindE (bindE (jreq d ''src'') as_str) (\<lambda>src.
             bindE (bindE (jreq d ''dst'') as_str) (\<lambda>dst. Inr (DenyProtocolRoute src dst)))
        else Inl (Exn ValueError ''Unknown policy rule kind in durable configuration''))
    | _ \<Rightarrow> type_error)"

text \<open>\<^verbatim>\<open>DurablePolicySet\<close> and the sensitive-capability table of \<^verbatim>\<open>DurableApprovalQueue\<close>, on an SQL store.\<close>

definition durable_rules :: "db \<Rightarrow> rule list res" where
  "durable_rules s = all_of rule_from_dict (t_rules s)"

definition durable_add :: "rule \<Rightarrow> (db, unit) prog" where
  "durable_add r = putP (\<lambda>s. s\<lparr>t_rules := t_rules s @ [rule_to_dict r]\<rparr>)"

definition durable_mark_sensitive :: "string \<Rightarrow> (db, unit) prog" where
  "durable_mark_sensitive capability =
     (if capability = [] then raiseP ValueError ''capability must be nonempty''
      else putP (\<lambda>s. if capability \<in> set (t_sensitive s) then s
                     else s\<lparr>t_sensitive := t_sensitive s @ [capability]\<rparr>))"

definition durable_requires_approval :: "string \<Rightarrow> db \<Rightarrow> bool" where
  "durable_requires_approval capability s \<longleftrightarrow> capability \<in> set (t_sensitive s)"

text \<open>Rules hold finite sets; a stored rule reads back as itself.\<close>

definition rule_finite :: "rule \<Rightarrow> bool" where
  "rule_finite r = (case r of
      DenyCapabilities caps \<Rightarrow> finite caps
    | AllowOnlyCapabilities caps \<Rightarrow> finite caps
    | BusinessHoursOnly s e days \<Rightarrow> finite days
    | _ \<Rightarrow> True)"

lemma all_of_strs [simp]: "all_of as_str (map JStr xs) = Inr xs"
  by (induction xs) simp_all

lemma all_of_ints [simp]: "all_of as_int (map JInt xs) = Inr xs"
  by (induction xs) simp_all

lemma rule_roundtrip: "rule_finite r \<Longrightarrow> rule_from_dict (rule_to_dict r) = Inr r"
  by (cases r) (simp_all add: rule_from_dict_def rule_to_dict_def jreq_def rule_finite_def)

lemma all_of_append: "all_of f xs = Inr ys \<Longrightarrow> f x = Inr y \<Longrightarrow> all_of f (xs @ [x]) = Inr (ys @ [y])"
  by (induction xs arbitrary: ys) (auto simp: bindE_def split: sum.splits)

lemma durable_add_rules:
  assumes "durable_rules s = Inr rs" and "rule_finite r"
  shows "durable_rules (snd (durable_add r s)) = Inr (policy_add r rs)"
  using assms by (simp add: durable_rules_def durable_add_def policy_add_def all_of_append rule_roundtrip)

lemma durable_mark_iff:
  "durable_requires_approval c (snd (durable_mark_sensitive c' s)) \<longleftrightarrow>
     durable_requires_approval c s \<or> (c = c' \<and> c' \<noteq> [])"
  by (auto simp: durable_mark_sensitive_def durable_requires_approval_def)

section \<open>Properties of the rules\<close>

text \<open>A rule set denies exactly when one of its rules does, with the verdict of the first that does;
  otherwise it asks for approval exactly when one of its rules does.\<close>

theorem first_denial_wins:
  "case find (rule_denies clock ctx) rules of
     Some r \<Rightarrow> policy_evaluate clock rules ctx = rule_evaluate clock ctx r \<and> \<not> rr_allowed (policy_evaluate clock rules ctx)
   | None \<Rightarrow> rr_allowed (policy_evaluate clock rules ctx) \<and>
       (rr_needs_approval (policy_evaluate clock rules ctx) \<longleftrightarrow> list_ex (rule_asks clock ctx) rules)"
proof (cases "find (rule_denies clock ctx) rules")
  case None
  with policy_loop_spec [of clock ctx False "[Txt []]" rules] show ?thesis by (simp add: policy_evaluate_def)
next
  case (Some r)
  then have "rule_denies clock ctx r" by (auto simp: find_Some_iff)
  with Some policy_loop_spec [of clock ctx False "[Txt []]" rules] show ?thesis
    by (simp add: policy_evaluate_def rule_denies_def)
qed

lemma durable_adds:
  assumes "durable_rules s = Inr rs" and "list_all rule_finite new"
  shows "durable_rules (foldl (\<lambda>s r. snd (durable_add r s)) s new) = Inr (foldl (\<lambda>l r. policy_add r l) rs new)"
  using assms
proof (induction new arbitrary: s rs)
  case (Cons r new)
  then have "durable_rules (snd (durable_add r s)) = Inr (policy_add r rs)" by (simp add: durable_add_rules)
  from Cons.IH [OF this] Cons.prems show ?case by simp
qed simp

text \<open>C26: The durable rule set refines the in-memory one: after any additions the rules read back from the
  database are the rules the in-memory set holds, in the same order.\<close>

theorem durable_rules_refine:
  assumes "durable_rules s = Inr rs" and "list_all rule_finite new"
    and "s' = foldl (\<lambda>s r. snd (durable_add r s)) s new"
  shows "\<exists>stored. durable_rules s' = Inr stored
     \<and> policy_evaluate clock stored ctx = policy_evaluate clock (foldl (\<lambda>l r. policy_add r l) rs new) ctx"
  using durable_adds [OF assms(1,2)] assms(3) by simp

theorem durable_rules_refine_witness:
  "\<exists>stored. durable_rules (foldl (\<lambda>s r. snd (durable_add r s)) empty_db
        [MaxCostPerCall 5, DenyCapabilities {''wire''}, BusinessHoursOnly 9 17 {0, 1}]) = Inr stored
     \<and> policy_evaluate (0, 0) stored \<lparr>c_agent = ''a'', c_capability = ''wire'', c_cost = 1, c_src = None, c_dst = None, c_now = None\<rparr>
         = policy_evaluate (0, 0) [MaxCostPerCall 5, DenyCapabilities {''wire''}, BusinessHoursOnly 9 17 {0, 1}]
         \<lparr>c_agent = ''a'', c_capability = ''wire'', c_cost = 1, c_src = None, c_dst = None, c_now = None\<rparr>"
  using durable_rules_refine [of empty_db "[]" "[MaxCostPerCall 5, DenyCapabilities {''wire''}, BusinessHoursOnly 9 17 {0, 1}]" _ "(0, 0)"
      "\<lparr>c_agent = ''a'', c_capability = ''wire'', c_cost = 1, c_src = None, c_dst = None, c_now = None\<rparr>"]
  by (simp add: durable_rules_def rule_finite_def policy_add_def empty_db_def empty_tables_def gov_tables.defs sql_tables.defs)

end
