(* ===== verification/Approvals.thy ===== *)
theory Approvals
  imports Sql_Store
begin

text \<open>
  \<^verbatim>\<open>src/governance/approvals.py\<close>: the human approval queue over a governance store.

  The methods of \<^verbatim>\<open>ApprovalQueue\<close> are functions of the store's operations \<open>ops\<close>; the generated
  identifier and the creation time are arguments.  \<open>race_step\<close> interleaves any number of workers
  at the granularity the code has: a \<^verbatim>\<open>consume\<close> call reads the list of grants in one step and
  tries them one store call at a time, while operators and other workers act in between.
\<close>

section \<open>The queue\<close>

definition mark_sensitive :: "string \<Rightarrow> string set \<Rightarrow> string set" where
  "mark_sensitive capability sensitive = insert capability sensitive"

definition requires_approval :: "string \<Rightarrow> string set \<Rightarrow> bool" where
  "requires_approval capability sensitive \<longleftrightarrow> capability \<in> sensitive"

definition scoped_capability :: "string \<Rightarrow> string option \<Rightarrow> string" where
  "scoped_capability capability request_scope =
     (case request_scope of None \<Rightarrow> capability | Some sc \<Rightarrow> capability @ ''|'' @ sc)"

definition aq_request :: "'s store_ops \<Rightarrow> string \<Rightarrow> string \<Rightarrow> rat \<Rightarrow> string option \<Rightarrow> string \<Rightarrow> string
    \<Rightarrow> ('s, approval) prog" where
  "aq_request ops agent capability cost request_scope uuid now =
     (let req = \<lparr>a_id = uuid, a_agent = agent, a_cap = scoped_capability capability request_scope,
                 a_cost = cost, a_status = ''pending'', a_created = now\<rparr>
      in bindP (insert_approval ops req) (\<lambda>_. retP req))"

definition aq_approve :: "'s store_ops \<Rightarrow> string \<Rightarrow> ('s, bool) prog" where
  "aq_approve ops request_id = update_approval_status ops request_id ''approved''"

definition aq_deny :: "'s store_ops \<Rightarrow> string \<Rightarrow> ('s, bool) prog" where
  "aq_deny ops request_id = update_approval_status ops request_id ''denied''"

definition grant_for :: "string \<Rightarrow> string \<Rightarrow> string option \<Rightarrow> approval \<Rightarrow> bool" where
  "grant_for agent capability request_scope a \<longleftrightarrow>
     a_agent a = agent \<and> a_cap a = scoped_capability capability request_scope"

definition is_granted :: "'s store_ops \<Rightarrow> string \<Rightarrow> string \<Rightarrow> string option \<Rightarrow> 's \<Rightarrow> bool" where
  "is_granted ops agent capability request_scope s \<longleftrightarrow>
     list_ex (grant_for agent capability request_scope) (list_approvals ops (Some ''approved'') s)"

fun consume_loop :: "'s store_ops \<Rightarrow> string list \<Rightarrow> ('s, bool) prog" where
  "consume_loop ops [] = retP False"
| "consume_loop ops (i # is) =
     bindP (consume_approval ops i) (\<lambda>won. if won then retP True else consume_loop ops is)"

definition candidates :: "'s store_ops \<Rightarrow> string \<Rightarrow> string \<Rightarrow> string option \<Rightarrow> 's \<Rightarrow> string list" where
  "candidates ops agent capability request_scope s =
     map a_id (filter (grant_for agent capability request_scope) (list_approvals ops (Some ''approved'') s))"

definition aq_consume ::
  "'s store_ops \<Rightarrow> string \<Rightarrow> string \<Rightarrow> string option \<Rightarrow> ('s, bool) prog" where
  "aq_consume ops agent capability request_scope =
     bindP (getP (candidates ops agent capability request_scope)) (consume_loop ops)"

definition aq_pending :: "'s store_ops \<Rightarrow> 's \<Rightarrow> approval list" where
  "aq_pending ops s = list_approvals ops (Some ''pending'') s"

definition aq_get :: "'s store_ops \<Rightarrow> string \<Rightarrow> 's \<Rightarrow> approval option" where
  "aq_get ops request_id s = get_approval ops request_id s"

lemma scoped_capability_inj:
  assumes "CHR ''|'' \<notin> set sc" and "CHR ''|'' \<notin> set sc'"
    and eq: "scoped_capability c (Some sc) = scoped_capability c' (Some sc')"
  shows "c = c' \<and> sc = sc'"
proof -
  have split: "takeWhile (\<lambda>x. x \<noteq> CHR ''|'') (rev (d @ ''|'' @ t)) = rev t"
    if t: "CHR ''|'' \<notin> set t" for d t :: string
  proof -
    from t have "\<forall>x \<in> set (rev t). x \<noteq> CHR ''|''" by (metis set_rev)
    then show ?thesis using takeWhile_append2 [of "rev t" "\<lambda>x. x \<noteq> CHR ''|''" "CHR ''|'' # rev d"] by simp
  qed
  from eq have e: "c @ ''|'' @ sc = c' @ ''|'' @ sc'" by (simp add: scoped_capability_def)
  then have "rev sc = rev sc'" using split [of sc c] split [of sc' c'] assms(1,2) by metis
  with e show ?thesis by simp
qed

section \<open>Racing workers\<close>

record 's race =
  r_store :: 's
  r_todo :: "nat \<Rightarrow> string list option"
  r_wins :: "(nat \<times> string) list"

inductive race_step :: "'s store_ops \<Rightarrow> 's race \<Rightarrow> 's race \<Rightarrow> bool" for ops where
  Ask: "get_approval ops uuid (r_store w) = None \<Longrightarrow>
     aq_request ops agent cap cost scope uuid now (r_store w) = (x, s') \<Longrightarrow>
     race_step ops w (w\<lparr>r_store := s'\<rparr>)"
| Approve: "aq_approve ops i (r_store w) = (y, s') \<Longrightarrow> race_step ops w (w\<lparr>r_store := s'\<rparr>)"
| Deny: "aq_deny ops i (r_store w) = (y, s') \<Longrightarrow> race_step ops w (w\<lparr>r_store := s'\<rparr>)"
| Begin: "r_todo w n = None \<Longrightarrow>
     race_step ops w (w\<lparr>r_todo := (r_todo w)(n \<mapsto> candidates ops agent cap scope (r_store w))\<rparr>)"
| Win: "r_todo w n = Some (i # is) \<Longrightarrow> consume_approval ops i (r_store w) = (Inr True, s') \<Longrightarrow>
     race_step ops w (w\<lparr>r_store := s', r_todo := (r_todo w)(n := None), r_wins := r_wins w @ [(n, i)]\<rparr>)"
| Lose: "r_todo w n = Some (i # is) \<Longrightarrow> consume_approval ops i (r_store w) = (Inr False, s') \<Longrightarrow>
     race_step ops w (w\<lparr>r_store := s', r_todo := (r_todo w)(n \<mapsto> is)\<rparr>)"
| GiveUp: "r_todo w n = Some [] \<Longrightarrow> race_step ops w (w\<lparr>r_todo := (r_todo w)(n := None)\<rparr>)"

definition race_start :: "'s \<Rightarrow> 's race" where
  "race_start s = \<lparr>r_store = s, r_todo = (\<lambda>_. None), r_wins = []\<rparr>"

text \<open>Every grant that let a call through is consumed, and let through one call.\<close>

definition wins_ok :: "'s store_ops \<Rightarrow> ('s \<Rightarrow> bool) \<Rightarrow> 's race \<Rightarrow> bool" where
  "wins_ok ops I w \<longleftrightarrow> I (r_store w) \<and> distinct (map snd (r_wins w)) \<and>
     (\<forall>i \<in> snd ` set (r_wins w). \<exists>a. get_approval ops i (r_store w) = Some a \<and> a_status a = ''consumed'')"

context approval_store
begin

lemma consumed_stays_request:
  assumes "appr_inv s" and "get_approval ops uuid s = None"
    and "aq_request ops agent cap cost scope uuid now s = (x, s')"
  shows "appr_inv s' \<and> (\<forall>i a. get_approval ops i s = Some a \<longrightarrow> get_approval ops i s' = Some a)"
proof -
  let ?a = "\<lparr>a_id = uuid, a_agent = agent, a_cap = scoped_capability cap scope,
             a_cost = cost, a_status = ''pending'', a_created = now\<rparr>"
  obtain u t where ins: "insert_approval ops ?a s = (u, t)" by (metis surj_pair)
  have "u = Inr () \<and> appr_inv t \<and>
      get_approval ops i t = (if i = uuid then Some ?a else get_approval ops i s)" for i
    using insert_new [OF assms(1) _ ins, of i] assms(2) by simp
  moreover from this have "s' = t" using assms(3) ins by (simp add: aq_request_def Let_def)
  ultimately show ?thesis using assms(2) by auto
qed

lemma update_keeps_settled:
  assumes "appr_inv s" and "update_approval_status ops j st s = (y, s')"
    and "get_approval ops i s = Some a" and "a_status a \<noteq> ''pending''"
  shows "get_approval ops i s' = Some a"
  using update_status [OF assms(1,2), of i] assms(3,4) by (auto split: if_splits)

lemma consume_keeps_settled:
  assumes "appr_inv s" and "consume_approval ops j s = (y, s')"
    and "get_approval ops i s = Some a" and "a_status a \<noteq> ''approved''"
  shows "get_approval ops i s' = Some a"
  using consume [OF assms(1,2), of i] assms(3,4) by (auto split: if_splits)

lemma consume_won:
  assumes "appr_inv s" and "consume_approval ops i s = (Inr True, s')"
  obtains a where "get_approval ops i s = Some a" and "a_status a = ''approved''"
    and "get_approval ops i s' = Some (a\<lparr>a_status := ''consumed''\<rparr>)"
  using consume [OF assms, of i] by (auto split: if_splits)

lemma race_step_wins_ok: "race_step ops w w' \<Longrightarrow> wins_ok ops appr_inv w \<Longrightarrow> wins_ok ops appr_inv w'"
proof (induction rule: race_step.induct)
  case (Ask uuid w agent cap cost scope now x s')
  then show ?case using consumed_stays_request [OF _ Ask.hyps] unfolding wins_ok_def by (simp, blast)
next
  case (Approve i w y s')
  then have inv: "appr_inv (r_store w)"
    and up: "update_approval_status ops i ''approved'' (r_store w) = (y, s')"
    by (auto simp: wins_ok_def aq_approve_def)
  show ?case using Approve.prems update_keeps_settled [OF inv up] update_status [OF inv up]
    by (force simp: wins_ok_def)
next
  case (Deny i w y s')
  then have inv: "appr_inv (r_store w)"
    and up: "update_approval_status ops i ''denied'' (r_store w) = (y, s')"
    by (auto simp: wins_ok_def aq_deny_def)
  show ?case using Deny.prems update_keeps_settled [OF inv up] update_status [OF inv up]
    by (force simp: wins_ok_def)
next
  case (Win w n i "is" s')
  then have inv: "appr_inv (r_store w)" by (simp add: wins_ok_def)
  obtain a where a: "get_approval ops i (r_store w) = Some a" "a_status a = ''approved''"
      "get_approval ops i s' = Some (a\<lparr>a_status := ''consumed''\<rparr>)"
    using consume_won [OF inv Win.hyps(2)] by blast
  then have "i \<notin> snd ` set (r_wins w)" using Win.prems by (auto simp: wins_ok_def)
  with a Win.prems consume_keeps_settled [OF inv Win.hyps(2)] consume [OF inv Win.hyps(2)]
  show ?case by (force simp: wins_ok_def)
next
  case (Lose w n i "is" s')
  then have inv: "appr_inv (r_store w)" by (simp add: wins_ok_def)
  show ?case using Lose.prems consume_keeps_settled [OF inv Lose.hyps(2)] consume [OF inv Lose.hyps(2)]
    by (force simp: wins_ok_def)
qed (simp_all add: wins_ok_def)

lemma race_wins_distinct:
  assumes "appr_inv s" and "(race_step ops)\<^sup>*\<^sup>* (race_start s) w"
  shows "wins_ok ops appr_inv w"
  using assms(2)
proof (induction rule: rtranclp_induct)
  case base
  with assms(1) show ?case by (simp add: wins_ok_def race_start_def)
next
  case (step w w')
  then show ?case by (blast intro: race_step_wins_ok)
qed

text \<open>One worker alone: the call succeeds exactly when there is a grant, and uses one up.\<close>

lemma is_granted_candidates:
  "is_granted ops agent cap scope s \<longleftrightarrow> candidates ops agent cap scope s \<noteq> []"
  by (auto simp: is_granted_def candidates_def filter_empty_conv list_ex_iff)

lemma candidate_grant:
  assumes "appr_inv s" and "i \<in> set (candidates ops agent cap scope s)"
  obtains a where "get_approval ops i s = Some a" "a_status a = ''approved''" "grant_for agent cap scope a"
  using assms list_approvals_iff [OF assms(1)] by (auto simp: candidates_def)

lemma consume_first:
  assumes inv: "appr_inv s" and c: "candidates ops agent cap scope s = i # is"
  shows "\<exists>s'. aq_consume ops agent cap scope s = (Inr True, s') \<and> appr_inv s' \<and>
     (\<forall>j. get_approval ops j s' = (if j = i then map_option (\<lambda>a. a\<lparr>a_status := ''consumed''\<rparr>)
            (get_approval ops i s) else get_approval ops j s))"
proof -
  obtain a where a: "get_approval ops i s = Some a" "a_status a = ''approved''"
    using candidate_grant [OF inv, of i] c by (metis list.set_intros(1))
  obtain r s' where r: "consume_approval ops i s = (r, s')" by (metis surj_pair)
  note con = consume [OF inv r]
  from a con have "r = Inr True" by auto
  with r c have "aq_consume ops agent cap scope s = (Inr True, s')" by (simp add: aq_consume_def)
  moreover from con a have "appr_inv s'"
    and "\<forall>j. get_approval ops j s' = (if j = i then map_option (\<lambda>a. a\<lparr>a_status := ''consumed''\<rparr>)
            (get_approval ops i s) else get_approval ops j s)" by auto
  ultimately show ?thesis by blast
qed

lemma consume_one_shot:
  assumes "appr_inv s"
  shows "case aq_consume ops agent cap scope s of (r, s') \<Rightarrow>
     if is_granted ops agent cap scope s
     then r = Inr True \<and> (\<exists>i a. get_approval ops i s = Some a \<and> a_status a = ''approved''
            \<and> grant_for agent cap scope a
            \<and> (\<forall>j. get_approval ops j s' =
                 (if j = i then Some (a\<lparr>a_status := ''consumed''\<rparr>) else get_approval ops j s)))
     else r = Inr False \<and> s' = s"
proof (cases "candidates ops agent cap scope s")
  case Nil
  then show ?thesis by (simp add: is_granted_candidates aq_consume_def)
next
  case (Cons i "is")
  obtain a where a: "get_approval ops i s = Some a" "a_status a = ''approved''" "grant_for agent cap scope a"
    using candidate_grant [OF assms, of i] Cons by (metis list.set_intros(1))
  with consume_first [OF assms Cons] Cons show ?thesis
    by (auto simp: is_granted_candidates)
qed

end

section \<open>Properties of the approvals\<close>

text \<open>C4: However workers interleave requests, decisions and consumption on a shared SQL store, every
  approval lets at most one call through, and an approval that did is consumed.\<close>

theorem approval_lets_one_call_through:
  assumes "sql_appr_inv s" and "(race_step (sqlite_ops env esize))\<^sup>*\<^sup>* (race_start s) w
      \<or> (race_step (pg_ops env esize))\<^sup>*\<^sup>* (race_start s) w"
  shows "distinct (map snd (r_wins w)) \<and>
    (\<forall>i \<in> snd ` set (r_wins w). \<exists>a. sqlite_get_approval i (r_store w) = Some a \<and> a_status a = ''consumed'')"
  using sqlite.race_wins_distinct [OF assms(1), of env esize w] pg.race_wins_distinct [OF assms(1), of env esize w]
    assms(2)
  by (auto simp: wins_ok_def sqlite_ops_def pg_ops_def)

definition granted_row :: approval where
  "granted_row = \<lparr>a_id = ''r1'', a_agent = ''a'', a_cap = ''pay|s'', a_cost = 5, a_status = ''approved'', a_created = ''now''\<rparr>"

definition granted_db :: db where
  "granted_db = empty_db\<lparr>t_approvals := [(''r1'', granted_row)]\<rparr>"

lemmas granted_eval = granted_db_def granted_row_def empty_db_def empty_tables_def gov_tables.defs sqlite_ops_def
  sqlite_list_approvals_def sqlite_consume_approval_def sqlite_get_approval_def candidates_def grant_for_def
  scoped_capability_def sql_atomic_def

theorem approval_lets_one_call_through_witness:
  "\<exists>w. (race_step (sqlite_ops [] (\<lambda>_. 1)))\<^sup>*\<^sup>* (race_start granted_db) w \<and> r_wins w = [(0, ''r1'')]
    \<and> r_todo w 1 = Some [''r1''] \<and> distinct (map snd (r_wins w))"
proof -
  let ?R = "race_step (sqlite_ops [] (\<lambda>_. 1))" and ?s = granted_db
  let ?s' = "?s\<lparr>t_approvals := [(''r1'', granted_row\<lparr>a_status := ''consumed''\<rparr>)]\<rparr>"
  let ?w1 = "(race_start ?s)\<lparr>r_todo := (\<lambda>_. None)(0 \<mapsto> [''r1''])\<rparr>"
  let ?w2 = "(race_start ?s)\<lparr>r_todo := ((\<lambda>_. None)(0 \<mapsto> [''r1'']))(1 \<mapsto> [''r1''])\<rparr>"
  let ?w3 = "?w2\<lparr>r_store := ?s', r_todo := (r_todo ?w2)(0 := None), r_wins := [(0, ''r1'')]\<rparr>"
  have c: "candidates (sqlite_ops [] (\<lambda>_. 1)) ''a'' ''pay'' (Some ''s'') ?s = [''r1'']"
    by (simp add: granted_eval)
  have "?R (race_start ?s) ?w1"
    using race_step.Begin [of "race_start ?s" 0 "sqlite_ops [] (\<lambda>_. 1)" "''a''" "''pay''" "Some ''s''"] c
    by (simp add: race_start_def)
  moreover have "?R ?w1 ?w2"
    using race_step.Begin [of ?w1 1 "sqlite_ops [] (\<lambda>_. 1)" "''a''" "''pay''" "Some ''s''"] c
    by (simp add: race_start_def)
  moreover have "?R ?w2 ?w3"
    using race_step.Win [of ?w2 0 "''r1''" "[]" "sqlite_ops [] (\<lambda>_. 1)" ?s']
    by (simp add: race_start_def granted_eval)
  ultimately have run: "?R\<^sup>*\<^sup>* (race_start ?s) ?w3" by (meson converse_rtranclp_into_rtranclp rtranclp.rtrancl_refl)
  have "sql_appr_inv ?s" by (simp add: sql_appr_inv_def keyed_approvals_def granted_db_def granted_row_def)
  with approval_lets_one_call_through [of ?s "[]" "\<lambda>_. 1" ?w3] run have "distinct (map snd (r_wins ?w3))" by blast
  with run show ?thesis by (intro exI [of _ ?w3]) simp
qed

text \<open>A call that needs a grant gets through exactly when an approved request of its agent, capability
  and scope is there; it marks one such request consumed and touches no other; without a grant
  nothing changes.\<close>

theorem consume_takes_one_grant:
  assumes "sql_appr_inv s"
  shows "case aq_consume (sqlite_ops env esize) agent cap scope s of (r, s') \<Rightarrow>
     if is_granted (sqlite_ops env esize) agent cap scope s
     then r = Inr True \<and> (\<exists>i a. sqlite_get_approval i s = Some a \<and> a_status a = ''approved'' \<and> grant_for agent cap scope a
            \<and> (\<forall>j. sqlite_get_approval j s' =
                 (if j = i then Some (a\<lparr>a_status := ''consumed''\<rparr>) else sqlite_get_approval j s)))
     else r = Inr False \<and> s' = s"
proof -
  have g: "get_approval (sqlite_ops env esize) = sqlite_get_approval" by (simp add: sqlite_ops_def)
  show ?thesis using sqlite.consume_one_shot [OF assms, of env esize agent cap scope] by (simp only: g)
qed

theorem consume_takes_one_grant_witness:
  "is_granted (sqlite_ops [] (\<lambda>_. 1)) ''a'' ''pay'' (Some ''s'') granted_db
   \<and> fst (aq_consume (sqlite_ops [] (\<lambda>_. 1)) ''a'' ''pay'' (Some ''s'') granted_db) = Inr True"
proof -
  have i: "sql_appr_inv granted_db" by (simp add: sql_appr_inv_def keyed_approvals_def granted_db_def granted_row_def)
  have g: "is_granted (sqlite_ops [] (\<lambda>_. 1)) ''a'' ''pay'' (Some ''s'') granted_db"
    by (simp add: is_granted_def granted_eval)
  from consume_takes_one_grant [OF i, of "[]" "\<lambda>_. 1" "''a''" "''pay''" "Some ''s''"] g show ?thesis
    by (simp split: prod.splits)
qed

text \<open>A grant is for one request: the stored capability of an approval determines both the capability
  and the request scope it was given for, since a scope is a hex digest and has no separator.\<close>

theorem grant_binds_request:
  assumes "CHR ''|'' \<notin> set sc" and "CHR ''|'' \<notin> set sc'"
    and "grant_for agent c (Some sc) a" and "grant_for agent' c' (Some sc') a"
  shows "agent = agent' \<and> c = c' \<and> sc = sc'"
  using assms scoped_capability_inj [OF assms(1,2), of c c'] by (auto simp: grant_for_def)

theorem grant_binds_request_witness:
  "grant_for ''a'' ''pay'' (Some ''s'') granted_row \<and> \<not> grant_for ''a'' ''pay'' (Some ''t'') granted_row"
proof -
  have "grant_for ''a'' ''pay'' (Some ''s'') granted_row"
    by (simp add: grant_for_def granted_row_def scoped_capability_def)
  with grant_binds_request [of "''s''" "''t''" "''a''" "''pay''" granted_row "''a''" "''pay''"] show ?thesis by auto
qed

end
