(* ===== verification/Identity.thy ===== *)
theory Identity
  imports Sql_Store Py_Text
begin

text \<open>
  Who is calling: \<^verbatim>\<open>src/governance/identity.py\<close>, \<^verbatim>\<open>request_auth.py\<close> and \<^verbatim>\<open>durable_replay.py\<close>.

  The Ed25519 primitives of the \<^verbatim>\<open>cryptography\<close> package and SHA-256 are the record \<open>crypto\<close>, a
  parameter; what is assumed of them is the predicate \<open>crypto_ok\<close>: key and digest lengths, and
  that a signature verifies under the public key of its private key.  The clock reading and
  generated keys are arguments.
\<close>

section \<open>Agent identities\<close>

record crypto =
  ed_public :: "string \<Rightarrow> string"
  ed_sign :: "string \<Rightarrow> string \<Rightarrow> string"
  ed_verify :: "string \<Rightarrow> string \<Rightarrow> string \<Rightarrow> bool"
  sha256 :: "string \<Rightarrow> string"

definition crypto_ok :: "crypto \<Rightarrow> bool" where
  "crypto_ok C \<longleftrightarrow>
     (\<forall>k d. length k = 32 \<longrightarrow> length (ed_public C k) = 32 \<and> ed_verify C (ed_public C k) (ed_sign C k d) d)
     \<and> (\<forall>d. length (sha256 C d) = 32)"

record agent_identity =
  ag_id :: string
  ag_pub :: string
  ag_priv :: "string option"

definition sha_hex :: "crypto \<Rightarrow> string \<Rightarrow> string" where
  "sha_hex C b = to_hex (sha256 C b)"

definition did_from_public_hex :: "string \<Rightarrow> string" where
  "did_from_public_hex public_hex = ''did:key:ed25519:'' @ public_hex"

definition ident_generate :: "crypto \<Rightarrow> string \<Rightarrow> string \<Rightarrow> agent_identity" where
  "ident_generate C agent priv = \<lparr>ag_id = agent, ag_pub = to_hex (ed_public C priv), ag_priv = Some priv\<rparr>"

definition from_private_hex :: "crypto \<Rightarrow> string \<Rightarrow> string \<Rightarrow> agent_identity res" where
  "from_private_hex C agent private_hex =
     (case fromhex private_hex of
        None \<Rightarrow> Inl (Exn ValueError ''non-hexadecimal number found in fromhex() arg'')
      | Some priv \<Rightarrow>
          if length priv \<noteq> 32 then Inl (Exn ValueError ''An Ed25519 private key is 32 bytes long'')
          else Inr \<lparr>ag_id = agent, ag_pub = to_hex (ed_public C priv), ag_priv = Some priv\<rparr>)"

definition ident_did :: "agent_identity \<Rightarrow> string" where
  "ident_did i = did_from_public_hex (ag_pub i)"

definition private_key_hex :: "agent_identity \<Rightarrow> string option" where
  "private_key_hex i = map_option to_hex (ag_priv i)"

definition public_only :: "agent_identity \<Rightarrow> agent_identity" where
  "public_only i = i\<lparr>ag_priv := None\<rparr>"

definition ident_sign :: "crypto \<Rightarrow> agent_identity \<Rightarrow> string \<Rightarrow> string res" where
  "ident_sign C i data =
     (case ag_priv i of
        None \<Rightarrow> Inl (Exn ValueError ''This identity has no private key; cannot sign.'')
      | Some priv \<Rightarrow> Inr (ed_sign C priv data))"

definition ident_verify :: "crypto \<Rightarrow> agent_identity \<Rightarrow> string \<Rightarrow> string \<Rightarrow> bool res" where
  "ident_verify C i data signature =
     (case fromhex (ag_pub i) of
        None \<Rightarrow> Inl (Exn ValueError ''non-hexadecimal number found in fromhex() arg'')
      | Some pub \<Rightarrow>
          if length pub \<noteq> 32 then Inl (Exn ValueError ''An Ed25519 public key is 32 bytes long'')
          else Inr (ed_verify C pub signature data))"

section \<open>The registry\<close>

record 's registry =
  rg_store :: 's
  rg_revoked :: "(string \<times> bool) list"
  rg_cache :: "(string \<times> agent_identity) list"

definition on_rg_store :: "('s, 'a) prog \<Rightarrow> ('s registry, 'a) prog" where
  "on_rg_store m g = (case m (rg_store g) of (r, s') \<Rightarrow> (r, g\<lparr>rg_store := s'\<rparr>))"

definition registry_init :: "'s store_ops \<Rightarrow> 's \<Rightarrow> 's registry" where
  "registry_init ops s = foldl (\<lambda>g rec. g\<lparr>
       rg_cache := AList.update (i_agent rec) \<lparr>ag_id = i_agent rec, ag_pub = i_pub rec, ag_priv = None\<rparr> (rg_cache g),
       rg_revoked := AList.update (i_agent rec) (i_revoked rec) (rg_revoked g)\<rparr>)
     \<lparr>rg_store = s, rg_revoked = [], rg_cache = []\<rparr> (list_identities ops s)"

definition register :: "'s store_ops \<Rightarrow> agent_identity \<Rightarrow> ('s registry, unit) prog" where
  "register ops ident =
     bindP (putP (\<lambda>g. g\<lparr>rg_cache := AList.update (ag_id ident) (public_only ident) (rg_cache g)\<rparr>)) (\<lambda>_.
     bindP (putP (\<lambda>g. g\<lparr>rg_revoked := AList.update (ag_id ident) False (rg_revoked g)\<rparr>)) (\<lambda>_.
     on_rg_store (upsert_identity ops (ag_id ident) (ag_pub ident) False)))"

definition register_public_key ::
  "'s store_ops \<Rightarrow> string \<Rightarrow> string \<Rightarrow> ('s registry, agent_identity) prog" where
  "register_public_key ops agent public_hex =
     (let ident = \<lparr>ag_id = agent, ag_pub = public_hex, ag_priv = None\<rparr>
      in bindP (register ops ident) (\<lambda>_. retP ident))"

definition revoke :: "'s store_ops \<Rightarrow> string \<Rightarrow> ('s registry, bool) prog" where
  "revoke ops agent =
     bindP (getP (\<lambda>g. get_identity ops agent (rg_store g))) (\<lambda>rec.
       case rec of
         None \<Rightarrow> retP False
       | Some r \<Rightarrow>
           bindP (putP (\<lambda>g. g\<lparr>rg_revoked := AList.update agent True (rg_revoked g)\<rparr>)) (\<lambda>_.
           bindP (on_rg_store (upsert_identity ops agent (i_pub r) True)) (\<lambda>_. retP True)))"

definition is_revoked :: "'s store_ops \<Rightarrow> string \<Rightarrow> 's registry \<Rightarrow> bool" where
  "is_revoked ops agent g =
     (case get_identity ops agent (rg_store g) of None \<Rightarrow> True | Some r \<Rightarrow> i_revoked r)"

definition rg_get :: "'s store_ops \<Rightarrow> string \<Rightarrow> 's registry \<Rightarrow> agent_identity option" where
  "rg_get ops agent g = map_option (\<lambda>r. \<lparr>ag_id = agent, ag_pub = i_pub r, ag_priv = None\<rparr>)
     (get_identity ops agent (rg_store g))"

definition is_registered :: "'s store_ops \<Rightarrow> string \<Rightarrow> 's registry \<Rightarrow> bool" where
  "is_registered ops agent g =
     (case get_identity ops agent (rg_store g) of None \<Rightarrow> False | Some r \<Rightarrow> \<not> i_revoked r)"

definition verify_signature ::
  "crypto \<Rightarrow> 's store_ops \<Rightarrow> string \<Rightarrow> string \<Rightarrow> string \<Rightarrow> 's registry \<Rightarrow> bool res" where
  "verify_signature C ops agent data signature g =
     (case get_identity ops agent (rg_store g) of
        None \<Rightarrow> Inr False
      | Some r \<Rightarrow>
          if i_revoked r then Inr False
          else ident_verify C \<lparr>ag_id = agent, ag_pub = i_pub r, ag_priv = None\<rparr> data signature)"

definition did_of :: "'s store_ops \<Rightarrow> string \<Rightarrow> 's registry \<Rightarrow> string option" where
  "did_of ops agent g = map_option ident_did (rg_get ops agent g)"

section \<open>Signed requests\<close>

definition canonical_payload :: "crypto \<Rightarrow> string \<Rightarrow> string \<Rightarrow> string \<Rightarrow> string" where
  "canonical_payload C agent nonce body =
     encode (agent @ [CHR 0x0A] @ nonce @ [CHR 0x0A] @ to_hex (sha256 C body))"

definition sign_request :: "crypto \<Rightarrow> agent_identity \<Rightarrow> string \<Rightarrow> string \<Rightarrow> string res" where
  "sign_request C ident nonce body =
     bindE (ident_sign C ident (canonical_payload C (ag_id ident) nonce body)) (\<lambda>sg. Inr (to_hex sg))"

definition check_and_store :: "int \<Rightarrow> rat \<Rightarrow> string \<Rightarrow> ((string \<times> rat) list, bool) prog" where
  "check_and_store ttl now nonce seen =
     (let seen' = filter (\<lambda>(n, t). \<not> fsub now t > of_int ttl) seen
      in if map_of seen' nonce \<noteq> None then (Inr False, seen')
         else (Inr True, AList.update nonce now seen'))"

text \<open>\<^verbatim>\<open>claim_nonce\<close> on an SQL store; on any other store it raises.\<close>

definition claim_nonce :: "int \<Rightarrow> rat \<Rightarrow> string \<Rightarrow> string \<Rightarrow> (db, bool) prog" where
  "claim_nonce ttl now agent nonce s =
     (if length nonce > 256 then (Inr False, s)
      else case split_first CHR '':'' nonce of
        [stamp, rand] \<Rightarrow>
          if length rand < 16 then (Inr False, s)
          else (case float_of_string stamp of
                  Some (Fin timestamp) \<Rightarrow>
                    if \<bar>fsub now timestamp\<bar> > of_int ttl then (Inr False, s)
                    else
                      let cutoff = fsub now (fl (of_int (2 * ttl)));
                          rows = filter (\<lambda>(k, stored). \<not> stored < cutoff) (t_nonces s)
                      in if map_of rows (agent, nonce) \<noteq> None then (Inr False, s\<lparr>t_nonces := rows\<rparr>)
                         else (Inr True, s\<lparr>t_nonces := rows @ [((agent, nonce), now)]\<rparr>)
                | _ \<Rightarrow> (Inr False, s))
      | _ \<Rightarrow> (Inr False, s))"

definition claim_nonce_unsupported :: "int \<Rightarrow> rat \<Rightarrow> string \<Rightarrow> string \<Rightarrow> ('s, bool) prog" where
  "claim_nonce_unsupported ttl now agent nonce =
     raiseP RuntimeError ''production signed requests require a shared durable SQL store''"

record 's authn =
  au_reg :: "'s registry"
  au_seen :: "(string \<times> rat) list"

definition on_au_store :: "('s, 'a) prog \<Rightarrow> ('s authn, 'a) prog" where
  "on_au_store m u = (case on_rg_store m (au_reg u) of (r, g) \<Rightarrow> (r, u\<lparr>au_reg := g\<rparr>))"

definition on_seen :: "((string \<times> rat) list, 'a) prog \<Rightarrow> ('s authn, 'a) prog" where
  "on_seen m u = (case m (au_seen u) of (r, l) \<Rightarrow> (r, u\<lparr>au_seen := l\<rparr>))"

definition authenticate ::
  "crypto \<Rightarrow> 's store_ops \<Rightarrow> (int \<Rightarrow> rat \<Rightarrow> string \<Rightarrow> string \<Rightarrow> ('s, bool) prog) \<Rightarrow> string \<Rightarrow> int \<Rightarrow> rat
     \<Rightarrow> string \<Rightarrow> string \<Rightarrow> string \<Rightarrow> string \<Rightarrow> ('s authn, bool \<times> string) prog" where
  "authenticate C ops claim env ttl now agent nonce body signature_hex =
     bindP (getP au_reg) (\<lambda>g.
       if \<not> is_registered ops agent g then retP (False, ''unknown or revoked identity'')
       else if nonce = [] then retP (False, ''missing nonce'')
       else (case fromhex signature_hex of
               None \<Rightarrow> retP (False, ''malformed signature'')
             | Some sg \<Rightarrow>
                 bindP (liftP (verify_signature C ops agent (canonical_payload C agent nonce body) sg g)) (\<lambda>valid.
                   if \<not> valid then retP (False, ''signature verification failed'')
                   else if is_prod env then
                     bindP (on_au_store (claim ttl now agent nonce)) (\<lambda>fresh.
                       retP (if fresh then (True, ''authenticated'')
                             else (False, ''nonce replay detected or nonce timestamp invalid'')))
                   else
                     bindP (on_seen (check_and_store ttl now nonce)) (\<lambda>fresh.
                       retP (if fresh then (True, ''authenticated'') else (False, ''nonce replay detected''))))))"

section \<open>What a signature covers\<close>

lemma canonical_payload_inj:
  assumes "\<And>d. length (sha256 C d) = 32"
    and "canonical_payload C agent nonce body = canonical_payload C agent nonce' body'"
  shows "nonce = nonce' \<and> to_hex (sha256 C body) = to_hex (sha256 C body')"
proof -
  have "length (to_hex b) = 2 * length b" for b by (induction b) (simp_all add: Let_def)
  then have "length (to_hex (sha256 C body)) = length (to_hex (sha256 C body'))" by (simp add: assms(1))
  moreover from assms(2) have "nonce @ [CHR 0x0A] @ to_hex (sha256 C body) = nonce' @ [CHR 0x0A] @ to_hex (sha256 C body')"
    unfolding canonical_payload_def encode_inj by simp
  ultimately show ?thesis by simp
qed

text \<open>Acceptance means: registered, not revoked, and signed by the registered key.\<close>

lemma authenticate_accepts:
  assumes "authenticate C ops claim env ttl now agent nonce body sg_hex u = (Inr (True, msg), u')"
  shows "\<exists>r sg pub. get_identity ops agent (rg_store (au_reg u)) = Some r \<and> \<not> i_revoked r
    \<and> nonce \<noteq> [] \<and> fromhex sg_hex = Some sg \<and> fromhex (i_pub r) = Some pub \<and> length pub = 32
    \<and> ed_verify C pub sg (canonical_payload C agent nonce body)
    \<and> (if is_prod env then \<exists>s'. claim ttl now agent nonce (rg_store (au_reg u)) = (Inr True, s')
         \<and> rg_store (au_reg u') = s'
       else fst (check_and_store ttl now nonce (au_seen u)) = Inr True)"
  using assms
  by (auto simp: authenticate_def prog_simps is_registered_def verify_signature_def ident_verify_def
      on_au_store_def on_rg_store_def on_seen_def split: if_splits option.splits prod.splits)

lemma authenticate_rejects_store:
  assumes "authenticate C ops claim env ttl now agent nonce body sg_hex u = (r, u')"
    and "\<And>m. r \<noteq> Inr (True, m)"
  shows "rg_store (au_reg u') = rg_store (au_reg u) \<or>
    (\<exists>x. claim ttl now agent nonce (rg_store (au_reg u)) = (x, rg_store (au_reg u')) \<and> x \<noteq> Inr True)"
  using assms
  by (cases r) (auto simp: authenticate_def prog_simps on_au_store_def on_rg_store_def on_seen_def
      split: if_splits option.splits prod.splits)

section \<open>No replay\<close>

text \<open>
  Clock readings between 2004 and 2038: every binary64 value in this range is a multiple of
  \<open>2 ^ -22\<close>.
\<close>

definition clock_ok :: "rat \<Rightarrow> bool" where
  "clock_ok t \<longleftrightarrow> power_int 2 30 \<le> t \<and> t < power_int 2 31 \<and> multiple_of_unit (-22) t"

lemma multiple_of_unit_finer:
  assumes "multiple_of_unit k x" and "j \<le> k" shows "multiple_of_unit j x"
proof -
  from assms(1) obtain m where "x = of_int m * power_int 2 k" by (auto simp: multiple_of_unit_iff)
  also have "power_int 2 k = (power_int 2 (k - j) * power_int 2 j :: rat)"
    by (simp add: power_int_add [symmetric])
  also have "power_int 2 (k - j) = (of_int (2 ^ nat (k - j)) :: rat)"
    using assms(2) by (simp add: power_int_def)
  finally have "x = of_int (m * 2 ^ nat (k - j)) * power_int 2 j" by (simp add: mult.assoc)
  then show ?thesis unfolding multiple_of_unit_iff by blast
qed

lemma multiple_of_unit_int: "k \<le> 0 \<Longrightarrow> multiple_of_unit k (of_int n)"
  using multiple_of_unit_finer [of 0 "of_int n" k] by (simp add: multiple_of_unit_def)

lemma stamp_window:
  assumes now: "clock_ok now" and ttl: "ttl < 2 ^ 29"
    and near: "\<bar>fsub now (fl q)\<bar> \<le> of_int ttl"
  shows "\<bar>now - fl q\<bar> \<le> of_int ttl"
proof -
  let ?x = "fl q"
  have lt: "(of_int ttl :: rat) < power_int 2 29"
    using ttl by (metis of_int_less_iff of_int_numeral of_int_power power_int_numeral)
  have d: "\<bar>now - ?x\<bar> < power_int 2 29"
  proof (rule ccontr)
    assume "\<not> ?thesis"
    then have "power_int 2 29 \<le> \<bar>fl (now - ?x)\<bar>" by (intro fl_far) auto
    with near lt show False by (simp add: fsub_def)
  qed
  with now have big: "power_int 2 29 < \<bar>?x\<bar>" by (auto simp: clock_ok_def)
  have "power_int 2 29 \<le> \<bar>q\<bar>"
  proof (rule ccontr)
    assume "\<not> ?thesis"
    then have "\<bar>?x\<bar> \<le> power_int 2 29" by (intro fl_le_pow) auto
    with big show False by simp
  qed
  then have "multiple_of_unit (-23) ?x" using fl_multiple [of 29 q] by simp
  moreover have "multiple_of_unit (-23) now"
    using now by (auto simp: clock_ok_def intro: multiple_of_unit_finer)
  ultimately have "on_grid (-23) (now - ?x)" using d by (intro on_gridI) auto
  then have "fsub now ?x = now - ?x" by (rule fsub_grid)
  with near show ?thesis by simp
qed

lemma cutoff_exact:
  assumes now: "clock_ok now" and ttl: "0 \<le> ttl" "ttl < 2 ^ 29"
  shows "fsub now (fl (of_int (2 * ttl))) = now - of_int (2 * ttl)"
proof -
  have b: "(of_int (2 * ttl) :: rat) \<le> power_int 2 30"
  proof -
    have "(of_int (2 * ttl) :: rat) \<le> of_int (2 ^ 30)" using ttl by (intro of_int_le_iff [THEN iffD2]) simp
    then show ?thesis by (simp add: power_int_def)
  qed
  then have e: "fl (of_int (2 * ttl)) = (of_int (2 * ttl) :: rat)"
    using fl_exact [of "2 * ttl" 0] ttl by simp
  have "multiple_of_unit (-22) (now - of_int (2 * ttl))"
    using now multiple_of_unit_int [of "-22" "2 * ttl"] by (auto simp: clock_ok_def)
  moreover have "\<bar>now - of_int (2 * ttl)\<bar> < power_int 2 31"
    using now b ttl(1) by (auto simp: clock_ok_def)
  ultimately have "on_grid (-22) (now - of_int (2 * ttl))" by (intro on_gridI) auto
  then show ?thesis unfolding e by (rule fsub_grid)
qed

text \<open>
  Any number of workers over one database.  Each worker has its own registry caches and nonce
  cache; a step is one call of one worker.
\<close>

type_synonym worker = "(string \<times> bool) list \<times> (string \<times> agent_identity) list \<times> (string \<times> rat) list"

datatype auth_event =
    Attempt (ev_worker: nat) (ev_now: rat) (ev_agent: string) (ev_nonce: string) (ev_body: string) (ev_sig: string)
  | Register nat agent_identity
  | Revoke nat string

definition to_authn :: "db \<Rightarrow> worker \<Rightarrow> db authn" where
  "to_authn s w = (case w of (rv, ca, se) \<Rightarrow>
     \<lparr>au_reg = \<lparr>rg_store = s, rg_revoked = rv, rg_cache = ca\<rparr>, au_seen = se\<rparr>)"

definition of_registry :: "db registry \<Rightarrow> (string \<times> rat) list \<Rightarrow> worker" where
  "of_registry g seen = (rg_revoked g, rg_cache g, seen)"

definition accepted :: "(bool \<times> string) res \<Rightarrow> bool" where
  "accepted r = (case r of Inl _ \<Rightarrow> False | Inr (ok, _) \<Rightarrow> ok)"

fun cluster_step ::
  "crypto \<Rightarrow> db store_ops \<Rightarrow> string \<Rightarrow> int \<Rightarrow> auth_event \<Rightarrow> db \<times> (nat \<Rightarrow> worker)
     \<Rightarrow> (string \<times> string) list \<times> db \<times> (nat \<Rightarrow> worker)" where
  "cluster_step C ops env ttl (Attempt w now agent nonce body sg) (s, W) =
     (case authenticate C ops claim_nonce env ttl now agent nonce body sg (to_authn s (W w)) of (r, u) \<Rightarrow>
        (if accepted r then [(agent, nonce)] else [],
         rg_store (au_reg u), W(w := of_registry (au_reg u) (au_seen u))))"
| "cluster_step C ops env ttl (Register w ident) (s, W) =
     (case register ops ident (au_reg (to_authn s (W w))) of (r, g) \<Rightarrow>
        ([], rg_store g, W(w := of_registry g (snd (snd (W w))))))"
| "cluster_step C ops env ttl (Revoke w agent) (s, W) =
     (case revoke ops agent (au_reg (to_authn s (W w))) of (r, g) \<Rightarrow>
        ([], rg_store g, W(w := of_registry g (snd (snd (W w))))))"

fun cluster_run ::
  "crypto \<Rightarrow> db store_ops \<Rightarrow> string \<Rightarrow> int \<Rightarrow> auth_event list \<Rightarrow> db \<times> (nat \<Rightarrow> worker) \<Rightarrow> (string \<times> string) list" where
  "cluster_run C ops env ttl [] c = []"
| "cluster_run C ops env ttl (e # es) c =
     (case cluster_step C ops env ttl e c of (acc, c') \<Rightarrow> acc @ cluster_run C ops env ttl es c')"

fun event_clock :: "auth_event \<Rightarrow> rat option" where
  "event_clock (Attempt w now agent nonce body sg) = Some now"
| "event_clock (Register w ident) = None"
| "event_clock (Revoke w agent) = None"

definition clocks :: "auth_event list \<Rightarrow> rat list" where
  "clocks es = List.map_filter event_clock es"

text \<open>
  What the table remembers of an accepted nonce \<open>p\<close> at time \<open>T\<close>: its row, or its time stamp is
  out of the acceptance window for good.
\<close>

definition nonce_stamp :: "string \<Rightarrow> rat option" where
  "nonce_stamp nonce = (case split_first CHR '':'' nonce of
      [stamp, rand] \<Rightarrow> (case float_of_string stamp of Some (Fin x) \<Rightarrow> Some x | _ \<Rightarrow> None)
    | _ \<Rightarrow> None)"

definition spent_nonce :: "int \<Rightarrow> rat \<Rightarrow> db \<Rightarrow> string \<times> string \<Rightarrow> bool" where
  "spent_nonce ttl T s p \<longleftrightarrow> (\<exists>x t. nonce_stamp (snd p) = Some x \<and> \<bar>t - x\<bar> \<le> of_int ttl \<and>
     (map_of (t_nonces s) p = Some t \<or> t < T - of_int (2 * ttl)))"

definition nonces_inv :: "int \<Rightarrow> rat \<Rightarrow> db \<Rightarrow> (string \<times> string) set \<Rightarrow> bool" where
  "nonces_inv ttl T s A \<longleftrightarrow> distinct (map fst (t_nonces s)) \<and> (\<forall>p \<in> A. spent_nonce ttl T s p)"

lemma claim_nonce_cases:
  assumes "claim_nonce ttl now agent nonce s = (r, s')"
  obtains (Same) "r = Inr False" "s' = s"
    | (Row) x rows where "nonce_stamp nonce = Some x" "\<bar>fsub now x\<bar> \<le> of_int ttl" "\<exists>q. x = fl q"
        "rows = filter (\<lambda>(k, stored). \<not> stored < fsub now (fl (of_int (2 * ttl)))) (t_nonces s)"
        "if map_of rows (agent, nonce) \<noteq> None then r = Inr False \<and> s' = s\<lparr>t_nonces := rows\<rparr>
         else r = Inr True \<and> s' = s\<lparr>t_nonces := rows @ [((agent, nonce), now)]\<rparr>"
proof -
  consider "r = Inr False \<and> s' = s"
    | stamp rand x where "split_first CHR '':'' nonce = [stamp, rand]" "float_of_string stamp = Some (Fin x)"
        "\<bar>fsub now x\<bar> \<le> of_int ttl"
        "let rows = filter (\<lambda>(k, stored). \<not> stored < fsub now (fl (of_int (2 * ttl)))) (t_nonces s)
         in if map_of rows (agent, nonce) \<noteq> None then r = Inr False \<and> s' = s\<lparr>t_nonces := rows\<rparr>
            else r = Inr True \<and> s' = s\<lparr>t_nonces := rows @ [((agent, nonce), now)]\<rparr>"
    using assms by (auto simp: claim_nonce_def Let_def split: if_splits list.splits option.splits pyfloat.splits)
  then show thesis
  proof cases
    case 1
    then show ?thesis using Same by simp
  next
    case 2
    then have "nonce_stamp nonce = Some x" by (simp add: nonce_stamp_def)
    with 2 float_of_string_fl [OF 2(2)] show ?thesis using Row [of x] by (simp add: Let_def)
  qed
qed

lemma map_of_filter_value:
  assumes "distinct (map fst xs)"
  shows "map_of (filter (\<lambda>(k, v). P v) xs) p = (case map_of xs p of Some v \<Rightarrow> if P v then Some v else None | None \<Rightarrow> None)"
  using assms
proof (induction xs)
  case (Cons y ys)
  obtain k v where y: "y = (k, v)" by (cases y)
  have "map_of ys k = None" using Cons.prems y by (auto simp: map_of_None_keys)
  with Cons y show ?case by (auto split: option.splits)
qed simp

lemma distinct_filter_keys: "distinct (map fst xs) \<Longrightarrow> distinct (map fst (filter P xs))"
  by (induction xs) auto

lemma spent_nonce_later:
  assumes "spent_nonce ttl T s p" and "T \<le> T'" and "distinct (map fst (t_nonces s))"
    and "\<And>t. map_of (t_nonces s) p = Some t \<Longrightarrow> map_of (t_nonces s') p = Some t \<or> t < T' - of_int (2 * ttl)"
  shows "spent_nonce ttl T' s' p"
proof -
  from assms(1) obtain x t where x: "nonce_stamp (snd p) = Some x" "\<bar>t - x\<bar> \<le> of_int ttl"
    and "map_of (t_nonces s) p = Some t \<or> t < T - of_int (2 * ttl)" by (auto simp: spent_nonce_def)
  then have "map_of (t_nonces s') p = Some t \<or> t < T' - of_int (2 * ttl)"
    using assms(2,4) by fastforce
  with x show ?thesis by (auto simp: spent_nonce_def)
qed

text \<open>One claim: it keeps what the table remembers, accepts only a new pair and remembers it.\<close>

lemma claim_nonce_inv:
  assumes inv: "nonces_inv ttl T s A" and T: "T \<le> now" and now: "clock_ok now"
    and ttl: "0 \<le> ttl" "ttl < 2 ^ 29" and c: "claim_nonce ttl now agent nonce s = (r, s')"
  shows "if r = Inr True then (agent, nonce) \<notin> A \<and> nonces_inv ttl now s' (insert (agent, nonce) A)
         else nonces_inv ttl now s' A"
  using c
proof (cases rule: claim_nonce_cases)
  case Same
  have "spent_nonce ttl now s p" if "p \<in> A" for p
    using inv that T by (auto simp: nonces_inv_def intro: spent_nonce_later)
  with Same inv show ?thesis by (auto simp: nonces_inv_def)
next
  case (Row x rows)
  have dist: "distinct (map fst (t_nonces s))" using inv by (simp add: nonces_inv_def)
  note cut = cutoff_exact [OF now ttl]
  have rows: "map_of rows p = (case map_of (t_nonces s) p of
      Some v \<Rightarrow> if \<not> v < now - of_int (2 * ttl) then Some v else None | None \<Rightarrow> None)" for p
    unfolding Row(4) cut by (rule map_of_filter_value [OF dist])
  have drows: "distinct (map fst rows)" unfolding Row(4) by (rule distinct_filter_keys [OF dist])
  have win: "\<bar>now - x\<bar> \<le> of_int ttl" using stamp_window [OF now ttl(2)] Row(2,3) by auto
  have keep: "spent_nonce ttl now s2 p"
    if "p \<in> A" "\<And>t. map_of rows p = Some t \<Longrightarrow> map_of (t_nonces s2) p = Some t" for p s2
  proof (rule spent_nonce_later [OF _ T dist])
    show "spent_nonce ttl T s p" using inv that(1) by (simp add: nonces_inv_def)
    show "map_of (t_nonces s2) p = Some t \<or> t < now - of_int (2 * ttl)"
      if "map_of (t_nonces s) p = Some t" for t
      using that \<open>\<And>t. map_of rows p = Some t \<Longrightarrow> map_of (t_nonces s2) p = Some t\<close> [of t] rows [of p]
      by (cases "t < now - of_int (2 * ttl)") auto
  qed
  show ?thesis
  proof (cases "map_of rows (agent, nonce)")
    case (Some t)
    with Row(5) drows keep show ?thesis by (auto simp: nonces_inv_def)
  next
    case None
    with Row(5) have r: "r = Inr True" and s': "s' = s\<lparr>t_nonces := rows @ [((agent, nonce), now)]\<rparr>" by auto
    have fresh: "(agent, nonce) \<notin> A"
    proof
      assume "(agent, nonce) \<in> A"
      then have "spent_nonce ttl T s (agent, nonce)" using inv by (simp add: nonces_inv_def)
      then obtain t where t: "\<bar>t - x\<bar> \<le> of_int ttl"
        and "map_of (t_nonces s) (agent, nonce) = Some t \<or> t < T - of_int (2 * ttl)"
        using Row(1) by (auto simp: spent_nonce_def)
      then have "t < now - of_int (2 * ttl)" using None T rows [of "(agent, nonce)"] by (auto split: if_splits)
      with t win show False by (auto simp: abs_le_iff)
    qed
    have "spent_nonce ttl now s' (agent, nonce)"
      using Row(1) win None by (auto simp: spent_nonce_def s' map_add_def intro!: exI [of _ now])
    moreover have "spent_nonce ttl now s' p" if "p \<in> A" for p
      using that by (intro keep) (auto simp: s' map_add_def split: option.splits if_splits)
    moreover have "distinct (map fst (t_nonces s'))" using drows None by (simp add: s' map_of_None_keys)
    ultimately show ?thesis using r fresh by (simp add: nonces_inv_def)
  qed
qed

text \<open>What a registry relies on: identity writes leave the nonce table alone.\<close>

locale nonce_store =
  fixes ops :: "db store_ops"
  assumes upsert_keeps_nonces: "t_nonces (snd (upsert_identity ops a k r s)) = t_nonces s"
begin

lemma register_keeps: "t_nonces (rg_store (snd (register ops ident g))) = t_nonces (rg_store g)"
  using upsert_keeps_nonces
  by (simp add: register_def on_rg_store_def bindP_def split: prod.splits) (metis snd_conv)

lemma revoke_keeps: "t_nonces (rg_store (snd (revoke ops agent g))) = t_nonces (rg_store g)"
  using upsert_keeps_nonces
  by (simp add: revoke_def on_rg_store_def bindP_def split: prod.splits option.splits sum.splits) (metis snd_conv)

lemma nonces_inv_cong: "t_nonces s' = t_nonces s \<Longrightarrow> nonces_inv ttl T s A \<Longrightarrow> nonces_inv ttl T s' A"
  unfolding nonces_inv_def spent_nonce_def by metis

lemma nonces_inv_later: "nonces_inv ttl T s A \<Longrightarrow> T \<le> T' \<Longrightarrow> nonces_inv ttl T' s A"
  by (auto simp: nonces_inv_def intro: spent_nonce_later)

lemma attempt_inv:
  assumes inv: "nonces_inv ttl T s A" and T: "T \<le> now" and now: "clock_ok now"
    and ttl: "0 \<le> ttl" "ttl < 2 ^ 29" and env: "is_prod env"
    and st: "cluster_step C ops env ttl (Attempt w now agent nonce body sg) (s, W) = (acc, s', W')"
  shows "set acc \<inter> A = {} \<and> distinct acc \<and> nonces_inv ttl now s' (A \<union> set acc)"
proof -
  obtain r u where a: "authenticate C ops claim_nonce env ttl now agent nonce body sg (to_authn s (W w)) = (r, u)"
    by (metis surj_pair)
  from st a have acc: "acc = (if accepted r then [(agent, nonce)] else [])" and s': "s' = rg_store (au_reg u)"
    by auto
  have s: "rg_store (au_reg (to_authn s (W w))) = s" by (simp add: to_authn_def split: prod.splits)
  show ?thesis
  proof (cases "accepted r")
    case True
    then obtain m where "r = Inr (True, m)" by (auto simp: accepted_def split: sum.splits prod.splits)
    with a authenticate_accepts [of C ops claim_nonce env ttl now agent nonce body sg "to_authn s (W w)"] env s
    have "claim_nonce ttl now agent nonce s = (Inr True, s')" by (auto simp: s')
    from claim_nonce_inv [OF inv T now ttl this] True acc show ?thesis by simp
  next
    case False
    then have "r \<noteq> Inr (True, m)" for m by (auto simp: accepted_def)
    from authenticate_rejects_store [OF a this] s
    consider "s' = s" | x where "claim_nonce ttl now agent nonce s = (x, s')" "x \<noteq> Inr True"
      by (auto simp: s')
    then have "nonces_inv ttl now s' A"
      using claim_nonce_inv [OF inv T now ttl] nonces_inv_later [OF inv T] by cases auto
    with False acc show ?thesis by simp
  qed
qed

lemma run_no_replay:
  assumes "nonces_inv ttl T s A" and "sorted (T # clocks es)" and "\<forall>t \<in> set (clocks es). clock_ok t"
    and "0 \<le> ttl" "ttl < 2 ^ 29" and "is_prod env"
  shows "distinct (cluster_run C ops env ttl es (s, W)) \<and> set (cluster_run C ops env ttl es (s, W)) \<inter> A = {}"
  using assms(1-3)
proof (induction es arbitrary: T s A W)
  case Nil
  then show ?case by simp
next
  case (Cons e es)
  obtain acc s' W' where st: "cluster_step C ops env ttl e (s, W) = (acc, s', W')" by (metis surj_pair)
  have "\<exists>T'. set acc \<inter> A = {} \<and> distinct acc \<and> nonces_inv ttl T' s' (A \<union> set acc)
      \<and> sorted (T' # clocks es) \<and> (\<forall>t \<in> set (clocks es). clock_ok t)"
  proof (cases e)
    case (Attempt w now agent nonce body sg)
    with Cons.prems have "T \<le> now" "clock_ok now" "sorted (now # clocks es)" "\<forall>t \<in> set (clocks es). clock_ok t"
      by (simp_all add: clocks_def List.map_filter_simps)
    with attempt_inv [OF Cons.prems(1) _ _ assms(4-6)] st Attempt show ?thesis by blast
  next
    case (Register w ident)
    with st have "acc = []" "t_nonces s' = t_nonces s"
      using register_keeps [of ident "au_reg (to_authn s (W w))"]
      by (auto simp: to_authn_def split: prod.splits)
    with Cons.prems Register nonces_inv_cong [of s' s ttl T A] show ?thesis
      by (intro exI [of _ T]) (simp add: clocks_def List.map_filter_simps)
  next
    case (Revoke w agent)
    with st have "acc = []" "t_nonces s' = t_nonces s"
      using revoke_keeps [of agent "au_reg (to_authn s (W w))"]
      by (auto simp: to_authn_def split: prod.splits)
    with Cons.prems Revoke nonces_inv_cong [of s' s ttl T A] show ?thesis
      by (intro exI [of _ T]) (simp add: clocks_def List.map_filter_simps)
  qed
  then obtain T' where a: "set acc \<inter> A = {}" "distinct acc" and n: "nonces_inv ttl T' s' (A \<union> set acc)"
    and c: "sorted (T' # clocks es)" "\<forall>t \<in> set (clocks es). clock_ok t" by blast
  from Cons.IH [OF n c, of W'] a show ?case by (auto simp: st)
qed

end

interpretation sqlite: nonce_store "sqlite_ops env esize" for env esize
  by unfold_locales (simp add: sqlite_defs sql_atomic_def)

interpretation pg: nonce_store "pg_ops env esize" for env esize
  by unfold_locales (simp add: pg_defs)

section \<open>Properties of the signed requests\<close>

text \<open>What \<^const>\<open>authenticate\<close> does with a request its registered identity signed.\<close>

lemma authenticate_signed:
  assumes ok: "crypto_ok C" and key: "length priv = 32"
    and sg: "sign_request C (ident_generate C agent priv) nonce body = Inr sg"
    and reg: "get_identity ops agent (rg_store (au_reg u)) = Some r" "i_pub r = ag_pub (ident_generate C agent priv)"
      "\<not> i_revoked r"
    and n: "nonce \<noteq> []" and prod: "is_prod env"
    and claim: "claim ttl now agent nonce (rg_store (au_reg u)) = (Inr fresh, s')"
  shows "authenticate C ops claim env ttl now agent nonce body sg u =
    (Inr (if fresh then (True, ''authenticated'') else (False, ''nonce replay detected or nonce timestamp invalid'')),
     u\<lparr>au_reg := (au_reg u)\<lparr>rg_store := s'\<rparr>\<rparr>)"
proof -
  let ?p = "canonical_payload C agent nonce body"
  have "sg = to_hex (ed_sign C priv ?p)"
    using sg by (simp add: sign_request_def ident_sign_def ident_generate_def bindE_def)
  moreover have "length (ed_public C priv) = 32" "ed_verify C (ed_public C priv) (ed_sign C priv ?p) ?p"
    using ok key by (simp_all add: crypto_ok_def)
  ultimately show ?thesis
    using reg n prod claim
    by (simp add: authenticate_def is_registered_def verify_signature_def ident_verify_def ident_generate_def
        on_au_store_def on_rg_store_def bindP_def)
qed

text \<open>A toy signature scheme, for concrete runs: the signature is the key and the data.\<close>

definition toy_crypto :: crypto where
  "toy_crypto = \<lparr>ed_public = (\<lambda>k. k), ed_sign = (\<lambda>k d. k @ d), ed_verify = (\<lambda>p sg d. sg = p @ d),
     sha256 = (\<lambda>d. take 32 (d @ replicate 32 CHR ''x''))\<rparr>"

lemma toy_crypto_ok: "crypto_ok toy_crypto"
  by (auto simp: crypto_ok_def toy_crypto_def)


definition demo_priv :: string where
  "demo_priv = replicate 32 CHR ''k''"

definition demo_nonce :: string where
  "demo_nonce = ''1700000000:abcdefghijklmnop''"

definition demo_sig :: string where
  "demo_sig = to_hex (demo_priv @ canonical_payload toy_crypto ''a'' demo_nonce ''b'')"

definition demo_events :: "auth_event list" where
  "demo_events = [Register 0 (ident_generate toy_crypto ''a'' demo_priv),
     Attempt 0 1700000001 ''a'' demo_nonce ''b'' demo_sig,
     Attempt 1 1700000002 ''a'' demo_nonce ''b'' demo_sig]"

lemma demo_stamp:
  "split_first CHR '':'' demo_nonce = [''1700000000'', ''abcdefghijklmnop'']" "length demo_nonce \<le> 256"
  by code_simp+

lemma demo_float: "float_of_string ''1700000000'' = Some (Fin 1700000000)"
proof -
  have "(1700000000 :: rat) < float_max" by (simp add: float_max_def)
  then show ?thesis
    by (simp add: float_of_string_def py_strip_def py_space_def split_sign_def parse_decimal_def parse_exponent_def
        is_digit_def digits_val_def py_lower_def lower_char_def Let_def)
qed

lemma demo_claims:
  "t_nonces s = [] \<Longrightarrow> claim_nonce 300 1700000001 ''a'' demo_nonce s
     = (Inr True, s\<lparr>t_nonces := [((''a'', demo_nonce), 1700000001)]\<rparr>)"
  "t_nonces s = [((''a'', demo_nonce), 1700000001)] \<Longrightarrow> claim_nonce 300 1700000002 ''a'' demo_nonce s = (Inr False, s)"
  using demo_stamp demo_float by (simp_all add: claim_nonce_def fsub_def Let_def)

lemma demo_signed:
  "sign_request toy_crypto (ident_generate toy_crypto ''a'' demo_priv) demo_nonce ''b'' = Inr demo_sig"
  by (simp add: sign_request_def ident_sign_def ident_generate_def demo_sig_def toy_crypto_def canonical_payload_def)

definition demo_db :: db where
  "demo_db = empty_db\<lparr>t_identities := [(''a'', \<lparr>i_agent = ''a'', i_pub = to_hex demo_priv, i_revoked = False\<rparr>)]\<rparr>"

lemma demo_attempt:
  assumes "t_identities s = t_identities demo_db" and "claim_nonce 300 now ''a'' demo_nonce s = (Inr fresh, s')"
  shows "cluster_step toy_crypto (sqlite_ops [] (\<lambda>_. 1)) ''prod'' 300 (Attempt w now ''a'' demo_nonce ''b'' demo_sig) (s, W)
    = (if fresh then [(''a'', demo_nonce)] else [], s', W(w := W w))"
proof -
  obtain rv ca se where w: "W w = (rv, ca, se)" by (metis surj_pair)
  have "is_prod ''prod''" "length demo_priv = 32" "demo_nonce \<noteq> []"
    by (simp_all add: is_prod_def py_lower_def lower_char_def demo_priv_def demo_nonce_def)
  with authenticate_signed [OF toy_crypto_ok _ demo_signed, of "sqlite_ops [] (\<lambda>_. 1)" "to_authn s (W w)" _ "''prod''"
      claim_nonce 300 now fresh s'] assms
  show ?thesis
    by (simp add: w to_authn_def of_registry_def accepted_def sqlite_ops_def sqlite_get_identity_def demo_db_def
        ident_generate_def toy_crypto_def)
qed

lemma demo_accepted:
  "cluster_run toy_crypto (sqlite_ops [] (\<lambda>_. 1)) ''prod'' 300 demo_events (empty_db, \<lambda>_. ([], [], []))
     = [(''a'', demo_nonce)]"
proof -
  let ?o = "sqlite_ops [] (\<lambda>_. 1)" and ?s2 = "demo_db\<lparr>t_nonces := [((''a'', demo_nonce), 1700000001)]\<rparr>"
  have "\<exists>W. cluster_step toy_crypto ?o ''prod'' 300 (Register 0 (ident_generate toy_crypto ''a'' demo_priv))
      (empty_db, \<lambda>_. ([], [], [])) = ([], demo_db, W)"
    by (simp add: register_def on_rg_store_def to_authn_def ident_generate_def toy_crypto_def sqlite_ops_def
        sqlite_upsert_identity_def sql_atomic_def bindP_def demo_db_def empty_db_def empty_tables_def gov_tables.defs sql_tables.defs)
  then obtain W where r: "cluster_step toy_crypto ?o ''prod'' 300 (Register 0 (ident_generate toy_crypto ''a'' demo_priv))
      (empty_db, \<lambda>_. ([], [], [])) = ([], demo_db, W)" by blast
  have n: "t_nonces demo_db = []" by (simp add: demo_db_def empty_db_def empty_tables_def gov_tables.defs sql_tables.defs)
  show ?thesis
    using r demo_attempt [OF refl demo_claims(1) [OF n], of 0 W]
      demo_attempt [of ?s2 1700000002 False ?s2 1 "W(0 := W 0)"] demo_claims(2) [of ?s2]
    by (simp add: demo_events_def)
qed




text \<open>A signature covers the request: if two requests of an agent have the same signed payload, they have
  the same nonce and bodies with the same digest.\<close>

theorem signature_covers_request:
  assumes "crypto_ok C" and "canonical_payload C agent nonce body = canonical_payload C agent nonce' body'"
  shows "nonce = nonce' \<and> sha256 C body = sha256 C body'"
proof -
  have "\<And>d. length (sha256 C d) = 32" using assms(1) by (simp add: crypto_ok_def)
  from canonical_payload_inj [OF this assms(2)] have "nonce = nonce'"
    and "to_hex (sha256 C body) = to_hex (sha256 C body')" by simp_all
  then show ?thesis by (metis fromhex_to_hex option.inject)
qed

theorem signature_covers_request_witness:
  "canonical_payload toy_crypto ''a'' ''n'' ''b'' \<noteq> canonical_payload toy_crypto ''a'' ''n'' ''c''"
  using signature_covers_request [OF toy_crypto_ok, of "''a''" "''n''" "''b''" "''n''" "''c''"]
  by (auto simp: toy_crypto_def)

end
