(* ===== verification/Budget.thy ===== *)
theory Budget
  imports Sql_Store
begin

text \<open>
  \<^verbatim>\<open>src/governance/budget.py\<close>: the in-memory \<^verbatim>\<open>Budget\<close> (record \<open>budget\<close>, operations \<open>b_\<dots>\<close>) and the
  store-backed \<^verbatim>\<open>BudgetManager\<close> (operations \<open>bm_\<dots>\<close>, generic in the store).  The clock reading
  \<open>now\<close> and the fresh token \<open>tok\<close> (\<^verbatim>\<open>uuid4().hex\<close>) are arguments; amounts are finite floats,
  added with \<^const>\<open>fadd\<close>.

  The manager's operations are mutators of the persisted document, run by \<open>mutate_budget\<close>
  of a backend.  The lemmas inside the locale \<open>budget_store\<close> hold for every backend.
\<close>

section \<open>Checked cost\<close>

definition checked_cost :: "pynum \<Rightarrow> rat res" where
  "checked_cost c =
     (case c of
        NumBool _ \<Rightarrow> Inl (Exn ValueError ''cost must be a finite, nonnegative number'')
      | _ \<Rightarrow>
          (case to_float c of
             Some (Fin x) \<Rightarrow>
               if x < 0 then Inl (Exn ValueError ''cost must be a finite, nonnegative number'')
               else Inr x
           | _ \<Rightarrow> Inl (Exn ValueError ''cost must be a finite, nonnegative number'')))"

lemma checked_cost_nonneg: "checked_cost c = Inr x \<Longrightarrow> 0 \<le> x"
  by (auto simp: checked_cost_def split: pynum.splits option.splits pyfloat.splits if_splits)

section \<open>The Budget class\<close>

record budget =
  spend_limit :: rat
  rate_limit :: int
  window_seconds :: rat
  spent :: rat
  calls :: "rat list"
  reserved :: "(string \<times> rat) list"

definition default_budget :: budget where
  "default_budget = \<lparr>spend_limit = 100, rate_limit = 1000, window_seconds = 3600,
                     spent = 0, calls = [], reserved = []\<rparr>"

definition spend_cap_msg :: "rat \<Rightarrow> rat \<Rightarrow> rat \<Rightarrow> rat \<Rightarrow> text_line" where
  "spend_cap_msg sp r c l = [Txt ''spend cap exceeded ('', NumP sp, Txt ''+'', NumP r, Txt ''+'', NumP c,
                             Txt '' > '', NumP l, Txt '')'']"

definition rate_cap_msg :: "int \<Rightarrow> text_line" where
  "rate_cap_msg n = [Txt ''rate cap exceeded (>= '', IntP n, Txt '' in window)'']"

definition b_prune :: "rat \<Rightarrow> budget \<Rightarrow> budget" where
  "b_prune now b = b\<lparr>calls := dropWhile (\<lambda>t. t \<le> fsub now (window_seconds b)) (calls b)\<rparr>"

definition b_reserved :: "budget \<Rightarrow> rat" where
  "b_reserved b = fsum (map snd (reserved b))"

definition b_remaining :: "budget \<Rightarrow> rat" where
  "b_remaining b = fsub (fsub (spend_limit b) (spent b)) (b_reserved b)"

definition b_can_afford :: "pynum \<Rightarrow> rat \<Rightarrow> (budget, bool \<times> text_line) prog" where
  "b_can_afford c now =
     bindP (liftP (checked_cost c)) (\<lambda>cost.
     bindP (putP (b_prune now)) (\<lambda>_.
     getP (\<lambda>b.
       if fadd (fadd (spent b) (b_reserved b)) cost > spend_limit b
       then (False, spend_cap_msg (spent b) (b_reserved b) cost (spend_limit b))
       else if int (length (calls b) + length (reserved b)) \<ge> rate_limit b
       then (False, rate_cap_msg (rate_limit b))
       else (True, [Txt ''ok'']))))"

definition b_reserve :: "pynum \<Rightarrow> rat \<Rightarrow> string \<Rightarrow> (budget, string option \<times> text_line) prog" where
  "b_reserve c now tok =
     bindP (liftP (checked_cost c)) (\<lambda>cost.
     bindP (b_can_afford (NumFloat (Fin cost)) now) (\<lambda>(ok, why).
       if \<not> ok then retP (None, why)
       else bindP (putP (\<lambda>b. b\<lparr>reserved := AList.update tok cost (reserved b)\<rparr>)) (\<lambda>_.
            retP (Some tok, [Txt ''reserved'']))))"

definition b_commit :: "string \<Rightarrow> rat \<Rightarrow> (budget, bool) prog" where
  "b_commit tok now b =
     (case map_of (reserved b) tok of
        None \<Rightarrow> (Inr False, b)
      | Some cost \<Rightarrow>
          (Inr True, b\<lparr>reserved := AList.delete tok (reserved b),
                       spent := fadd (spent b) cost, calls := calls b @ [now]\<rparr>))"

definition b_release :: "string \<Rightarrow> (budget, bool) prog" where
  "b_release tok b =
     (Inr (map_of (reserved b) tok \<noteq> None), b\<lparr>reserved := AList.delete tok (reserved b)\<rparr>)"

definition b_charge :: "pynum \<Rightarrow> rat \<Rightarrow> (budget, unit) prog" where
  "b_charge c now =
     bindP (liftP (checked_cost c)) (\<lambda>cost.
     putP (\<lambda>b. b\<lparr>spent := fadd (spent b) cost, calls := calls b @ [now]\<rparr>))"

definition b_state :: "budget \<Rightarrow> budget_dict" where
  "b_state b = \<lparr>d_spend_limit = Some (spend_limit b), d_rate_limit = Some (rate_limit b),
                d_window = Some (window_seconds b), d_spent = Some (spent b),
                d_calls = Some (calls b), d_reserved = Some (reserved b)\<rparr>"

definition b_from_state :: "budget_dict \<Rightarrow> budget res" where
  "b_from_state d =
     (case (d_spend_limit d, d_rate_limit d, d_window d) of
        (Some l, Some n, Some w) \<Rightarrow>
          Inr \<lparr>spend_limit = l, rate_limit = n, window_seconds = w,
               spent = (case d_spent d of None \<Rightarrow> 0 | Some x \<Rightarrow> x),
               calls = (case d_calls d of None \<Rightarrow> [] | Some x \<Rightarrow> x),
               reserved = (case d_reserved d of None \<Rightarrow> [] | Some x \<Rightarrow> x)\<rparr>
      | (None, _, _) \<Rightarrow> Inl (Exn KeyError ''spend_limit'')
      | (_, None, _) \<Rightarrow> Inl (Exn KeyError ''rate_limit'')
      | (_, _, None) \<Rightarrow> Inl (Exn KeyError ''window_seconds''))"

section \<open>The budget manager\<close>

text \<open>The manager's state is the store and the cache of budgets; \<open>dflt\<close> is what its factory makes.\<close>

type_synonym bcache = "(string \<times> budget) list"

type_synonym 's bm_state = "'s \<times> bcache"

definition spent_of :: "budget_dict \<Rightarrow> rat" where
  "spent_of d = (case d_spent d of None \<Rightarrow> 0 | Some x \<Rightarrow> x)"

definition calls_of :: "budget_dict \<Rightarrow> rat list" where
  "calls_of d = (case d_calls d of None \<Rightarrow> [] | Some x \<Rightarrow> x)"

definition reserved_of :: "budget_dict \<Rightarrow> (string \<times> rat) list" where
  "reserved_of d = (case d_reserved d of None \<Rightarrow> [] | Some x \<Rightarrow> x)"

definition seed :: "budget \<Rightarrow> bcache \<Rightarrow> string \<Rightarrow> budget_dict \<Rightarrow> budget_dict" where
  "seed dflt cache agent d =
     (let d1 = (if d = empty_dict
                then (case map_of cache agent of Some b \<Rightarrow> b_state b | None \<Rightarrow> b_state dflt)
                else d)
      in d1\<lparr>d_spent := Some (spent_of d1), d_calls := Some (calls_of d1),
            d_reserved := Some (reserved_of d1)\<rparr>)"

definition d_prune :: "rat \<Rightarrow> (budget_dict, unit) prog" where
  "d_prune now d =
     (case d_window d of
        None \<Rightarrow> (Inl (Exn KeyError ''window_seconds''), d)
      | Some w \<Rightarrow> (Inr (), d\<lparr>d_calls := Some (filter (\<lambda>t. t > fsub now w) (calls_of d))\<rparr>))"

definition reserved_sum :: "budget_dict \<Rightarrow> rat" where
  "reserved_sum d = fsum (map snd (reserved_of d))"

definition keyP :: "('s \<Rightarrow> 'v option) \<Rightarrow> string \<Rightarrow> ('s, 'v) prog" where
  "keyP f k s = (case f s of None \<Rightarrow> (Inl (Exn KeyError k), s) | Some v \<Rightarrow> (Inr v, s))"

text \<open>The cap test shared by the mutators of \<open>can_afford\<close> and \<open>reserve\<close>: \<open>None\<close> when both caps hold.\<close>

definition cap_test :: "rat \<Rightarrow> (budget_dict, text_line option) prog" where
  "cap_test cost =
     bindP (getP (\<lambda>d. d)) (\<lambda>d.
     bindP (keyP d_spend_limit ''spend_limit'') (\<lambda>limit.
       if fadd (fadd (spent_of d) (reserved_sum d)) cost > limit
       then retP (Some (spend_cap_msg (spent_of d) (reserved_sum d) cost limit))
       else bindP (keyP d_rate_limit ''rate_limit'') (\<lambda>rate.
            if int (length (calls_of d) + length (reserved_of d)) \<ge> rate
            then retP (Some (rate_cap_msg rate)) else retP None)))"

definition can_afford_mut ::
  "budget \<Rightarrow> bcache \<Rightarrow> string \<Rightarrow> rat \<Rightarrow> rat \<Rightarrow> (budget_dict, budget_reply) prog" where
  "can_afford_mut dflt cache agent cost now =
     bindP (putP (seed dflt cache agent)) (\<lambda>_.
     bindP (d_prune now) (\<lambda>_.
     bindP (cap_test cost) (\<lambda>why.
       case why of Some msg \<Rightarrow> retP (Affordable False msg)
       | None \<Rightarrow> retP (Affordable True [Txt ''ok'']))))"

definition reserve_mut ::
  "budget \<Rightarrow> bcache \<Rightarrow> string \<Rightarrow> rat \<Rightarrow> rat \<Rightarrow> string \<Rightarrow> (budget_dict, budget_reply) prog" where
  "reserve_mut dflt cache agent cost now tok =
     bindP (putP (seed dflt cache agent)) (\<lambda>_.
     bindP (d_prune now) (\<lambda>_.
     bindP (cap_test cost) (\<lambda>why.
       case why of Some msg \<Rightarrow> retP (ReserveReply None msg)
       | None \<Rightarrow>
           bindP (putP (\<lambda>d. d\<lparr>d_reserved := Some (AList.update tok cost (reserved_of d))\<rparr>)) (\<lambda>_.
           retP (ReserveReply (Some tok) [Txt ''reserved''])))))"

definition commit_mut ::
  "budget \<Rightarrow> bcache \<Rightarrow> string \<Rightarrow> string \<Rightarrow> rat \<Rightarrow> (budget_dict, budget_reply) prog" where
  "commit_mut dflt cache agent tok now =
     bindP (putP (seed dflt cache agent)) (\<lambda>_.
     bindP (getP (\<lambda>d. map_of (reserved_of d) tok)) (\<lambda>r.
       case r of
         None \<Rightarrow> retP (Changed False)
       | Some cost \<Rightarrow>
           bindP (putP (\<lambda>d. d\<lparr>d_reserved := Some (AList.delete tok (reserved_of d)),
                              d_spent := Some (fadd (spent_of d) cost),
                              d_calls := Some (calls_of d @ [now])\<rparr>)) (\<lambda>_.
           retP (Changed True))))"

definition release_mut ::
  "budget \<Rightarrow> bcache \<Rightarrow> string \<Rightarrow> string \<Rightarrow> (budget_dict, budget_reply) prog" where
  "release_mut dflt cache agent tok =
     bindP (putP (seed dflt cache agent)) (\<lambda>_.
     bindP (getP (\<lambda>d. map_of (reserved_of d) tok)) (\<lambda>r.
     bindP (putP (\<lambda>d. d\<lparr>d_reserved := Some (AList.delete tok (reserved_of d))\<rparr>)) (\<lambda>_.
     retP (Changed (r \<noteq> None)))))"

text \<open>Running a program on the store half of the manager's state, and dropping a cached budget.\<close>

definition on_store :: "('s, 'a) prog \<Rightarrow> ('s bm_state, 'a) prog" where
  "on_store m = (\<lambda>(s, c). case m s of (r, s') \<Rightarrow> (r, (s', c)))"

definition invalidate :: "string \<Rightarrow> ('s bm_state, unit) prog" where
  "invalidate agent = putP (\<lambda>(s, c). (s, AList.delete agent c))"

definition bm_set_budget :: "'s store_ops \<Rightarrow> string \<Rightarrow> budget \<Rightarrow> ('s bm_state, unit) prog" where
  "bm_set_budget ops agent b =
     bindP (putP (\<lambda>(s, c). (s, AList.update agent b c))) (\<lambda>_.
     on_store (upsert_budget ops agent (b_state b)))"

definition bm_get :: "'s store_ops \<Rightarrow> budget \<Rightarrow> string \<Rightarrow> ('s bm_state, budget) prog" where
  "bm_get ops dflt agent =
     bindP (getP (\<lambda>(s, c). (get_budget ops agent s, map_of c agent))) (\<lambda>(rec, cached).
     bindP (case rec of
              Some d \<Rightarrow> liftP (b_from_state d)
            | None \<Rightarrow> retP (case cached of Some b \<Rightarrow> b | None \<Rightarrow> dflt)) (\<lambda>b.
     bindP (putP (\<lambda>(s, c). (s, AList.update agent b c))) (\<lambda>_.
     retP b)))"

definition bm_persist :: "'s store_ops \<Rightarrow> string \<Rightarrow> ('s bm_state, unit) prog" where
  "bm_persist ops agent =
     bindP (getP (\<lambda>(s, c). map_of c agent)) (\<lambda>cached.
       case cached of None \<Rightarrow> retP ()
       | Some b \<Rightarrow> on_store (upsert_budget ops agent (b_state b)))"

definition bm_can_afford ::
  "'s store_ops \<Rightarrow> budget \<Rightarrow> string \<Rightarrow> pynum \<Rightarrow> rat \<Rightarrow> ('s bm_state, budget_reply) prog" where
  "bm_can_afford ops dflt agent c now =
     bindP (liftP (checked_cost c)) (\<lambda>cost.
     bindP (getP snd) (\<lambda>cache.
     on_store (mutate_budget ops agent (can_afford_mut dflt cache agent cost now))))"

definition bm_reserve ::
  "'s store_ops \<Rightarrow> budget \<Rightarrow> string \<Rightarrow> pynum \<Rightarrow> rat \<Rightarrow> string \<Rightarrow> ('s bm_state, budget_reply) prog" where
  "bm_reserve ops dflt agent c now tok =
     bindP (liftP (checked_cost c)) (\<lambda>cost.
     bindP (getP snd) (\<lambda>cache.
     bindP (on_store (mutate_budget ops agent (reserve_mut dflt cache agent cost now tok))) (\<lambda>result.
     bindP (invalidate agent) (\<lambda>_.
     retP result))))"

definition bm_commit ::
  "'s store_ops \<Rightarrow> budget \<Rightarrow> string \<Rightarrow> string \<Rightarrow> rat \<Rightarrow> ('s bm_state, budget_reply) prog" where
  "bm_commit ops dflt agent tok now =
     bindP (getP snd) (\<lambda>cache.
     bindP (on_store (mutate_budget ops agent (commit_mut dflt cache agent tok now))) (\<lambda>result.
     bindP (invalidate agent) (\<lambda>_.
     retP result)))"

definition bm_release ::
  "'s store_ops \<Rightarrow> budget \<Rightarrow> string \<Rightarrow> string \<Rightarrow> ('s bm_state, budget_reply) prog" where
  "bm_release ops dflt agent tok =
     bindP (getP snd) (\<lambda>cache.
     bindP (on_store (mutate_budget ops agent (release_mut dflt cache agent tok))) (\<lambda>result.
     bindP (invalidate agent) (\<lambda>_.
     retP result)))"


section \<open>The mutators on a complete document\<close>

text \<open>
  On a document written by \<^const>\<open>b_state\<close> the mutators are these functions of the budget it
  holds; \<open>f_prune\<close> is the pruning of the persisted call list.
\<close>

definition f_prune :: "rat \<Rightarrow> budget \<Rightarrow> budget" where
  "f_prune now b = b\<lparr>calls := filter (\<lambda>t. t > fsub now (window_seconds b)) (calls b)\<rparr>"

definition cap_verdict :: "rat \<Rightarrow> budget \<Rightarrow> text_line option" where
  "cap_verdict cost b =
     (if fadd (fadd (spent b) (b_reserved b)) cost > spend_limit b
      then Some (spend_cap_msg (spent b) (b_reserved b) cost (spend_limit b))
      else if int (length (calls b) + length (reserved b)) \<ge> rate_limit b
      then Some (rate_cap_msg (rate_limit b)) else None)"

definition add_reservation :: "string \<Rightarrow> rat \<Rightarrow> budget \<Rightarrow> budget" where
  "add_reservation tok cost b = b\<lparr>reserved := AList.update tok cost (reserved b)\<rparr>"

lemma b_state_simps [simp]:
  "d_spend_limit (b_state b) = Some (spend_limit b)" "d_rate_limit (b_state b) = Some (rate_limit b)"
  "d_window (b_state b) = Some (window_seconds b)" "spent_of (b_state b) = spent b"
  "calls_of (b_state b) = calls b" "reserved_of (b_state b) = reserved b"
  "b_state b \<noteq> empty_dict" "reserved_sum (b_state b) = b_reserved b"
  by (simp_all add: b_state_def spent_of_def calls_of_def reserved_of_def empty_dict_def
      reserved_sum_def b_reserved_def)

lemma b_state_update [simp]:
  "(b_state b)\<lparr>d_calls := Some cs\<rparr> = b_state (b\<lparr>calls := cs\<rparr>)"
  "(b_state b)\<lparr>d_reserved := Some rs\<rparr> = b_state (b\<lparr>reserved := rs\<rparr>)"
  "(b_state b)\<lparr>d_spent := Some x\<rparr> = b_state (b\<lparr>spent := x\<rparr>)"
  by (simp_all add: b_state_def)

lemma b_state_inject [simp]: "b_state b = b_state b' \<longleftrightarrow> b = b'"
  by (auto simp: b_state_def)

lemma b_from_state_roundtrip [simp]: "b_from_state (b_state b) = Inr b"
  by (simp add: b_from_state_def b_state_def)

lemma seed_complete [simp]: "seed dflt cache agent (b_state b) = b_state b"
  by (simp add: seed_def Let_def)

lemma seed_empty: "seed dflt cache agent empty_dict =
    b_state (case map_of cache agent of None \<Rightarrow> dflt | Some b \<Rightarrow> b)"
  by (simp add: seed_def Let_def split: option.splits)

lemma d_prune_complete [simp]: "d_prune now (b_state b) = (Inr (), b_state (f_prune now b))"
  by (simp add: d_prune_def f_prune_def)

lemma cap_test_complete [simp]: "cap_test cost (b_state b) = (Inr (cap_verdict cost b), b_state b)"
  by (simp add: cap_test_def cap_verdict_def keyP_def bindP_def)

lemma can_afford_mut_complete:
  "can_afford_mut dflt cache agent cost now (b_state b) =
     (Inr (case cap_verdict cost (f_prune now b) of
             Some msg \<Rightarrow> Affordable False msg | None \<Rightarrow> Affordable True [Txt ''ok'']),
      b_state (f_prune now b))"
  by (simp add: can_afford_mut_def split: option.splits)

lemma reserve_mut_complete:
  "reserve_mut dflt cache agent cost now tok (b_state b) =
     (case cap_verdict cost (f_prune now b) of
        Some msg \<Rightarrow> (Inr (ReserveReply None msg), b_state (f_prune now b))
      | None \<Rightarrow> (Inr (ReserveReply (Some tok) [Txt ''reserved'']),
                 b_state (add_reservation tok cost (f_prune now b))))"
  by (simp add: reserve_mut_def add_reservation_def split: option.splits)

lemma commit_mut_complete:
  "commit_mut dflt cache agent tok now (b_state b) =
     (case b_commit tok now b of (Inr c, b') \<Rightarrow> (Inr (Changed c), b_state b') | (Inl e, b') \<Rightarrow> (Inl e, b_state b'))"
  by (simp add: commit_mut_def b_commit_def split: option.splits)

lemma release_mut_complete:
  "release_mut dflt cache agent tok (b_state b) =
     (case b_release tok b of (Inr c, b') \<Rightarrow> (Inr (Changed c), b_state b') | (Inl e, b') \<Rightarrow> (Inl e, b_state b'))"
  by (simp add: release_mut_def b_release_def)

lemma seed_start:
  assumes "d = empty_dict \<or> (\<exists>b. d = b_state b)"
  obtains b where "seed dflt cache agent d = b_state b"
    and "d = b_state b \<or> d = empty_dict \<and> b = (case map_of cache agent of None \<Rightarrow> dflt | Some b \<Rightarrow> b)"
  using assms seed_empty [of dflt cache agent] seed_complete by fastforce

text \<open>The mutators look at the document only through \<^const>\<open>seed\<close>.\<close>

lemma mut_seed:
  assumes "seed dflt cache agent d = b_state b"
  shows "can_afford_mut dflt cache agent cost now d = can_afford_mut dflt cache agent cost now (b_state b)"
    and "reserve_mut dflt cache agent cost now tok d = reserve_mut dflt cache agent cost now tok (b_state b)"
    and "commit_mut dflt cache agent tok now d = commit_mut dflt cache agent tok now (b_state b)"
    and "release_mut dflt cache agent tok d = release_mut dflt cache agent tok (b_state b)"
  using assms
  by (simp_all add: can_afford_mut_def reserve_mut_def commit_mut_def release_mut_def)

section \<open>Exposure\<close>

text \<open>
  \<open>exposure\<close> is what has been spent plus what is reserved, in exact arithmetic.  A budget is
  \<open>budget_safe k\<close> when its amounts are nonnegative multiples of \<open>2 ^ k\<close>, its exposure is within
  the spend limit (itself below \<open>2 ^ (k + 52)\<close>, so that every float sum below is exact), and
  recorded calls and reservations together are within the rate limit.
\<close>

definition exposure :: "budget \<Rightarrow> rat" where
  "exposure b = spent b + sum_list (map snd (reserved b))"

definition unit_amount :: "int \<Rightarrow> rat \<Rightarrow> bool" where
  "unit_amount k x \<longleftrightarrow> multiple_of_unit k x \<and> 0 \<le> x"

definition budget_safe :: "int \<Rightarrow> budget \<Rightarrow> bool" where
  "budget_safe k b \<longleftrightarrow>
     -1074 \<le> k \<and> distinct (map fst (reserved b)) \<and> unit_amount k (spent b)
     \<and> (\<forall>(t, c) \<in> set (reserved b). unit_amount k c)
     \<and> exposure b \<le> spend_limit b \<and> spend_limit b < power_int 2 (k + 52)
     \<and> int (length (calls b) + length (reserved b)) \<le> rate_limit b"

lemma sum_update_le:
  assumes "distinct (map fst xs)" and "\<forall>(t, c) \<in> set xs. (0::rat) \<le> c"
  shows "sum_list (map snd (AList.update tok cost xs)) \<le> sum_list (map snd xs) + cost"
  using assms
proof (induction xs)
  case Nil
  then show ?case by simp
next
  case (Cons p xs)
  obtain t c where p: "p = (t, c)" by (cases p)
  show ?case
  proof (cases "t = tok")
    case True
    with Cons.prems p show ?thesis by simp
  next
    case False
    with Cons p show ?thesis by simp
  qed
qed

lemma set_update_subset: "set (AList.update k v xs) \<subseteq> insert (k, v) (set xs)"
  by (induction xs) auto

lemma set_delete_subset: "set (AList.delete k xs) \<subseteq> set xs"
  by (auto simp: AList.delete_eq)

lemma length_update_le: "length (AList.update k v xs) \<le> Suc (length xs)"
  by (induction xs) auto

lemma power_int_53: "power_int 2 (k + 53) = (2::rat) * power_int 2 (k + 52)"
  using power_int_add_1 [of "2::rat" "k + 52"] by (simp add: ac_simps)

text \<open>In a safe budget every sum the cap test computes is exact.\<close>

lemma reserved_nonneg:
  "budget_safe k b \<Longrightarrow> 0 \<le> sum_list (map snd (reserved b))"
  by (rule sum_list_nonneg) (auto simp: budget_safe_def unit_amount_def)

lemma reserved_units:
  "budget_safe k b \<Longrightarrow> multiple_of_unit k (sum_list (map snd (reserved b)))"
  by (rule multiple_of_unit_sum_list) (auto simp: budget_safe_def unit_amount_def)

lemma b_reserved_exact:
  assumes "budget_safe k b"
  shows "b_reserved b = sum_list (map snd (reserved b))"
  unfolding b_reserved_def
proof (rule fsum_grid)
  from assms show "-1074 \<le> k" by (simp add: budget_safe_def)
  show "\<And>x. x \<in> set (map snd (reserved b)) \<Longrightarrow> multiple_of_unit k x \<and> 0 \<le> x"
    using assms by (auto simp: budget_safe_def unit_amount_def)
  have "sum_list (map snd (reserved b)) \<le> exposure b"
    using assms by (simp add: exposure_def budget_safe_def unit_amount_def)
  also have "\<dots> < power_int 2 (k + 52)" using assms by (simp add: budget_safe_def)
  also have "\<dots> \<le> power_int 2 (k + 53)" unfolding power_int_53 by simp
  finally show "sum_list (map snd (reserved b)) < power_int 2 (k + 53)" .
qed

lemma exposure_grid:
  assumes "budget_safe k b" and "unit_amount k cost" and "cost < power_int 2 (k + 52)"
  shows "on_grid k (exposure b)" and "on_grid k (exposure b + cost)"
proof -
  have k: "-1074 \<le> k" and lim: "exposure b < power_int 2 (k + 52)"
    using assms(1) by (auto simp: budget_safe_def)
  have u: "multiple_of_unit k (exposure b)"
    using assms(1) reserved_units [OF assms(1)]
    by (auto simp: exposure_def budget_safe_def unit_amount_def)
  have n: "0 \<le> exposure b"
    using assms(1) reserved_nonneg [OF assms(1)] by (simp add: exposure_def budget_safe_def unit_amount_def)
  have "exposure b < power_int 2 (k + 53)" using lim power_int_53 [of k] n by linarith
  with k u n show "on_grid k (exposure b)" by (intro on_gridI) auto
  have "exposure b + cost < power_int 2 (k + 53)"
    using lim assms(3) power_int_53 [of k] by linarith
  with k u n assms(2) show "on_grid k (exposure b + cost)"
    by (intro on_gridI) (auto simp: unit_amount_def)
qed

lemma cap_sum_exact:
  assumes "budget_safe k b" and "unit_amount k cost" and "cost < power_int 2 (k + 52)"
  shows "fadd (fadd (spent b) (b_reserved b)) cost = exposure b + cost"
proof -
  note g = exposure_grid [OF assms]
  have "fadd (spent b) (b_reserved b) = exposure b"
    using g(1) fadd_grid [of k "spent b" "sum_list (map snd (reserved b))"]
    by (simp add: exposure_def b_reserved_exact [OF assms(1)])
  with g(2) show ?thesis by (simp add: fadd_grid)
qed

section \<open>Every operation keeps a budget safe\<close>

lemma f_prune_safe:
  assumes "budget_safe k b"
  shows "budget_safe k (f_prune now b)"
proof -
  have "length (calls (f_prune now b)) \<le> length (calls b)" by (simp add: f_prune_def)
  then have "int (length (calls (f_prune now b)) + length (reserved b)) \<le> rate_limit b"
    using assms by (simp add: budget_safe_def)
  with assms show ?thesis by (auto simp: budget_safe_def f_prune_def exposure_def)
qed

lemma add_reservation_safe:
  assumes safe: "budget_safe k b" and cost: "unit_amount k cost" "cost < power_int 2 (k + 52)"
    and ok: "cap_verdict cost b = None"
  shows "budget_safe k (add_reservation tok cost b)"
proof -
  have "exposure b + cost \<le> spend_limit b"
    and len: "int (length (calls b) + length (reserved b)) < rate_limit b"
    using ok cap_sum_exact [OF safe cost] by (auto simp: cap_verdict_def split: if_splits)
  moreover have "sum_list (map snd (AList.update tok cost (reserved b))) \<le>
      sum_list (map snd (reserved b)) + cost"
    using safe by (intro sum_update_le) (auto simp: budget_safe_def unit_amount_def)
  ultimately have "exposure (add_reservation tok cost b) \<le> spend_limit b"
    by (simp add: exposure_def add_reservation_def)
  with safe cost len set_update_subset [of tok cost "reserved b"]
    length_update_le [of tok cost "reserved b"]
  show ?thesis by (auto simp: budget_safe_def add_reservation_def)
qed

lemma sum_snd_delete:
  assumes "distinct (map fst xs)" and "map_of xs k = Some (v::rat)"
  shows "sum_list (map snd xs) = v + sum_list (map snd (AList.delete k xs))"
  using sum_list_delete [OF assms, of "\<lambda>x. x"] by (simp add: comp_def)

lemma sum_delete_le:
  assumes "distinct (map fst xs)" and "\<forall>(t, c) \<in> set xs. (0::rat) \<le> c"
  shows "sum_list (map snd (AList.delete k xs)) \<le> sum_list (map snd xs)"
proof (cases "map_of xs k")
  case None
  then show ?thesis by (simp add: delete_absent)
next
  case (Some v)
  with assms(2) have "0 \<le> v" by (auto dest: map_of_SomeD)
  with sum_snd_delete [OF assms(1) Some] show ?thesis by simp
qed

text \<open>A commit moves an amount from reserved to spent; a release gives it back.\<close>

lemma b_commit_effect:
  assumes safe: "budget_safe k b" and tok: "map_of (reserved b) tok = Some cost"
  shows "b_commit tok now b = (Inr True, b\<lparr>reserved := AList.delete tok (reserved b),
           spent := spent b + cost, calls := calls b @ [now]\<rparr>)"
    and "exposure (snd (b_commit tok now b)) = exposure b"
    and "budget_safe k (snd (b_commit tok now b))"
proof -
  have d: "distinct (map fst (reserved b))" and u: "unit_amount k cost"
    using safe tok by (auto simp: budget_safe_def dest: map_of_SomeD)
  have sum: "sum_list (map snd (reserved b)) = cost + sum_list (map snd (AList.delete tok (reserved b)))"
    by (rule sum_snd_delete [OF d tok])
  have del: "\<forall>(t, c) \<in> set (AList.delete tok (reserved b)). unit_amount k c"
    using safe set_delete_subset [of tok "reserved b"] unfolding budget_safe_def by blast
  then have rest: "0 \<le> sum_list (map snd (AList.delete tok (reserved b)))"
    by (intro sum_list_nonneg) (auto simp: unit_amount_def)
  have "spent b + cost \<le> exposure b" using sum rest by (simp add: exposure_def)
  moreover have "exposure b < power_int 2 (k + 52)" "0 \<le> spent b"
    using safe by (auto simp: budget_safe_def unit_amount_def)
  ultimately have "\<bar>spent b + cost\<bar> < power_int 2 (k + 53)"
    using power_int_53 [of k] u by (auto simp: unit_amount_def)
  then have f: "fadd (spent b) cost = spent b + cost"
    using safe u by (intro fadd_grid [of k] on_gridI) (auto simp: budget_safe_def unit_amount_def)
  show c: "b_commit tok now b = (Inr True, b\<lparr>reserved := AList.delete tok (reserved b),
           spent := spent b + cost, calls := calls b @ [now]\<rparr>)"
    by (simp add: b_commit_def tok f)
  show e: "exposure (snd (b_commit tok now b)) = exposure b"
    using sum by (simp add: c exposure_def)
  have "length (AList.delete tok (reserved b)) + 1 = length (reserved b)"
    by (rule length_delete_present [OF d tok])
  with safe u e set_delete_subset [of tok "reserved b"] show "budget_safe k (snd (b_commit tok now b))"
    by (auto simp: budget_safe_def c unit_amount_def distinct_delete)
qed

lemma b_commit_safe: "budget_safe k b \<Longrightarrow> budget_safe k (snd (b_commit tok now b))"
  using b_commit_effect(3) [of k b tok]
  by (cases "map_of (reserved b) tok") (auto simp: b_commit_def)

lemma b_release_safe:
  assumes "budget_safe k b"
  shows "budget_safe k (snd (b_release tok b))"
proof -
  have d: "distinct (map fst (reserved b))" and n: "\<forall>(t, c) \<in> set (reserved b). 0 \<le> c"
    using assms by (auto simp: budget_safe_def unit_amount_def)
  have "length (AList.delete tok (reserved b)) \<le> length (reserved b)" by (rule length_delete_le)
  with assms sum_delete_le [OF d n, of tok] set_delete_subset [of tok "reserved b"] d
  show ?thesis by (auto simp: budget_safe_def b_release_def exposure_def distinct_delete)
qed


section \<open>Runs of the manager\<close>

text \<open>
  Workers call the manager concurrently; \<open>mutate_budget\<close> serialises them, so a run is a list of
  calls in the order of their transactions, in any interleaving.
\<close>

datatype bm_call =
    CallCanAfford string pynum rat
  | CallReserve string pynum rat string
  | CallCommit string string rat
  | CallRelease string string

fun bm_exec :: "'s store_ops \<Rightarrow> budget \<Rightarrow> bm_call \<Rightarrow> ('s bm_state, budget_reply) prog" where
  "bm_exec ops dflt (CallCanAfford a c now) = bm_can_afford ops dflt a c now"
| "bm_exec ops dflt (CallReserve a c now tok) = bm_reserve ops dflt a c now tok"
| "bm_exec ops dflt (CallCommit a tok now) = bm_commit ops dflt a tok now"
| "bm_exec ops dflt (CallRelease a tok) = bm_release ops dflt a tok"

fun bm_run :: "'s store_ops \<Rightarrow> budget \<Rightarrow> bm_call list \<Rightarrow> 's bm_state \<Rightarrow> 's bm_state" where
  "bm_run ops dflt [] st = st"
| "bm_run ops dflt (c # cs) st = bm_run ops dflt cs (snd (bm_exec ops dflt c st))"

text \<open>Costs of a run that are amounts of the grid.\<close>

fun call_on_grid :: "int \<Rightarrow> bm_call \<Rightarrow> bool" where
  "call_on_grid k (CallReserve a c now tok) =
     (case checked_cost c of Inl e \<Rightarrow> True
      | Inr x \<Rightarrow> unit_amount k x \<and> x < power_int 2 (k + 52))"
| "call_on_grid k _ = True"

text \<open>Every persisted and every cached budget is safe.\<close>

definition all_safe :: "'s store_ops \<Rightarrow> int \<Rightarrow> 's bm_state \<Rightarrow> bool" where
  "all_safe ops k st \<longleftrightarrow>
     (\<forall>a d. get_budget ops a (fst st) = Some d \<longrightarrow> (\<exists>b. d = b_state b \<and> budget_safe k b))
     \<and> (\<forall>(a, b) \<in> set (snd st). budget_safe k b)"

context budget_store
begin

lemma start_document:
  assumes "all_safe ops k (s, cache)" and "budget_safe k dflt"
  obtains b where "seed dflt cache agent (dict_or_empty (get_budget ops agent s)) = b_state b"
    and "budget_safe k b"
proof (cases "get_budget ops agent s")
  case None
  let ?b = "case map_of cache agent of None \<Rightarrow> dflt | Some b \<Rightarrow> b"
  from assms have "budget_safe k ?b"
    by (auto simp: all_safe_def split: option.splits dest: map_of_SomeD)
  then show ?thesis using None that [of ?b] by (simp add: dict_or_empty_def seed_empty)
next
  case (Some d)
  with assms(1) obtain b where "d = b_state b" "budget_safe k b"
    by (auto simp: all_safe_def)
  with Some that [of b] show ?thesis by (simp add: dict_or_empty_def)
qed

lemma mutate_all_safe:
  assumes safe: "all_safe ops k (s, cache)"
    and m: "m (dict_or_empty (get_budget ops agent s)) = (Inr r, b_state b')" and "budget_safe k b'"
  shows "all_safe ops k (snd (mutate_budget ops agent m s), cache)"
  using safe get_mutate(2) [of m agent s r "b_state b'"] m assms(3)
  by (auto simp: all_safe_def split: if_splits)

lemma invalidate_all_safe:
  "all_safe ops k st \<Longrightarrow> all_safe ops k (snd (invalidate agent st))"
  using set_delete_subset [of agent "snd st"]
  by (cases st) (auto simp: all_safe_def invalidate_def)

text \<open>A mutator that keeps complete documents complete and safe, run by the manager.\<close>

lemma on_store_all_safe:
  assumes "all_safe ops k st" and "budget_safe k dflt"
    and "\<And>d b. seed dflt (snd st) agent d = b_state b \<Longrightarrow> budget_safe k b \<Longrightarrow>
           \<exists>r b'. m d = (Inr r, b_state b') \<and> budget_safe k b'"
  shows "all_safe ops k (snd (on_store (mutate_budget ops agent m) st))"
proof -
  obtain s cache where st: "st = (s, cache)" by (cases st)
  let ?d = "dict_or_empty (get_budget ops agent s)"
  obtain b where b: "seed dflt cache agent ?d = b_state b" "budget_safe k b"
    by (rule start_document [OF assms(1) [unfolded st] assms(2)])
  obtain r b' where m: "m ?d = (Inr r, b_state b')" and b': "budget_safe k b'"
    using assms(3) [of ?d b] b st by auto
  have "all_safe ops k (snd (mutate_budget ops agent m s), cache)"
    by (rule mutate_all_safe [of k s cache m agent r b']) (use assms(1) st m b' in simp_all)
  then show ?thesis by (cases "mutate_budget ops agent m s") (simp add: on_store_def st)
qed

lemma can_afford_all_safe:
  assumes "all_safe ops k st" and "budget_safe k dflt"
  shows "all_safe ops k (snd (bm_can_afford ops dflt agent c now st))"
proof (cases "checked_cost c")
  case (Inl e)
  with assms show ?thesis by (simp add: bm_can_afford_def)
next
  case (Inr x)
  have "all_safe ops k (snd (on_store (mutate_budget ops agent
          (can_afford_mut dflt (snd st) agent x now)) st))"
    by (rule on_store_all_safe [OF assms])
       (auto simp: mut_seed(1) can_afford_mut_complete intro: f_prune_safe)
  with Inr show ?thesis by (simp add: bm_can_afford_def)
qed

text \<open>The three operations that drop the cached budget afterwards.\<close>

lemma then_invalidate_all_safe:
  assumes "all_safe ops k (snd (m st))" and "all_safe ops k st"
  shows "all_safe ops k (snd (bindP m (\<lambda>r. bindP (invalidate agent) (\<lambda>_. retP r)) st))"
proof -
  obtain r st' where m: "m st = (r, st')" by (metis surj_pair)
  show ?thesis
  proof (cases r)
    case (Inl e)
    with m assms show ?thesis by simp
  next
    case (Inr a)
    obtain u st'' where i: "invalidate agent st' = (Inr u, st'')"
      by (cases st') (simp add: invalidate_def)
    with invalidate_all_safe [of k st' agent] m Inr assms(1) show ?thesis by simp
  qed
qed

lemma reserve_all_safe:
  assumes "all_safe ops k st" and "budget_safe k dflt" and "call_on_grid k (CallReserve agent c now tok)"
  shows "all_safe ops k (snd (bm_reserve ops dflt agent c now tok st))"
proof (cases "checked_cost c")
  case (Inl e)
  with assms show ?thesis by (simp add: bm_reserve_def)
next
  case (Inr x)
  with assms(3) have x: "unit_amount k x" "x < power_int 2 (k + 52)" by auto
  have "all_safe ops k (snd (on_store (mutate_budget ops agent
          (reserve_mut dflt (snd st) agent x now tok)) st))"
    by (rule on_store_all_safe [OF assms(1,2)])
       (auto simp: mut_seed(2) reserve_mut_complete intro: f_prune_safe add_reservation_safe x
        split: option.splits)
  then show ?thesis
    using Inr then_invalidate_all_safe [where m = "on_store (mutate_budget ops agent
          (reserve_mut dflt (snd st) agent x now tok))" and st = st and agent = agent and k = k] assms(1)
    by (simp add: bm_reserve_def)
qed

lemma commit_all_safe:
  assumes "all_safe ops k st" and "budget_safe k dflt"
  shows "all_safe ops k (snd (bm_commit ops dflt agent tok now st))"
proof -
  have step: "\<exists>r b'. commit_mut dflt (snd st) agent tok now d = (Inr r, b_state b') \<and> budget_safe k b'"
    if "seed dflt (snd st) agent d = b_state b" "budget_safe k b" for d b
    using b_commit_safe [OF that(2), of tok now] mut_seed(3) [OF that(1)]
    by (cases "map_of (reserved b) tok") (auto simp: commit_mut_complete b_commit_def)
  have "all_safe ops k (snd (on_store (mutate_budget ops agent
          (commit_mut dflt (snd st) agent tok now)) st))"
    by (rule on_store_all_safe [OF assms step])
  then show ?thesis
    using then_invalidate_all_safe [where m = "on_store (mutate_budget ops agent
          (commit_mut dflt (snd st) agent tok now))" and st = st and agent = agent and k = k] assms(1)
    by (simp add: bm_commit_def)
qed

lemma release_all_safe:
  assumes "all_safe ops k st" and "budget_safe k dflt"
  shows "all_safe ops k (snd (bm_release ops dflt agent tok st))"
proof -
  have step: "\<exists>r b'. release_mut dflt (snd st) agent tok d = (Inr r, b_state b') \<and> budget_safe k b'"
    if "seed dflt (snd st) agent d = b_state b" "budget_safe k b" for d b
    using b_release_safe [OF that(2), of tok] mut_seed(4) [OF that(1)]
    by (auto simp: release_mut_complete b_release_def)
  have "all_safe ops k (snd (on_store (mutate_budget ops agent
          (release_mut dflt (snd st) agent tok)) st))"
    by (rule on_store_all_safe [OF assms step])
  then show ?thesis
    using then_invalidate_all_safe [where m = "on_store (mutate_budget ops agent
          (release_mut dflt (snd st) agent tok))" and st = st and agent = agent and k = k] assms(1)
    by (simp add: bm_release_def)
qed

lemma run_all_safe:
  assumes "all_safe ops k st" and "budget_safe k dflt" and "list_all (call_on_grid k) cs"
  shows "all_safe ops k (bm_run ops dflt cs st)"
  using assms
proof (induction cs arbitrary: st)
  case Nil
  then show ?case by simp
next
  case (Cons c cs)
  have "all_safe ops k (snd (bm_exec ops dflt c st))"
    using Cons.prems
    by (cases c) (simp_all add: can_afford_all_safe reserve_all_safe commit_all_safe release_all_safe)
  with Cons show ?case by simp
qed

end


section \<open>The in-memory class and the persisted document agree\<close>

text \<open>
  The class drops expired calls from the left of a deque, the persisted document is filtered.
  On call times in nondecreasing order both keep the same calls.
\<close>

lemma dropWhile_sorted:
  "sorted (xs :: rat list) \<Longrightarrow> dropWhile (\<lambda>t. t \<le> c) xs = filter (\<lambda>t. t > c) xs"
proof (induction xs)
  case Nil
  then show ?case by simp
next
  case (Cons x xs)
  show ?case
  proof (cases "x \<le> c")
    case True
    with Cons show ?thesis by simp
  next
    case False
    with Cons.prems have "\<forall>t \<in> set (x # xs). t > c" by auto
    then have "filter (\<lambda>t. t > c) (x # xs) = x # xs" by (rule filter_True)
    with False show ?thesis by simp
  qed
qed

lemma b_prune_f_prune: "sorted (calls b) \<Longrightarrow> b_prune now b = f_prune now b"
  by (simp add: b_prune_def f_prune_def dropWhile_sorted)

lemma b_reserve_verdict:
  assumes "checked_cost c = Inr x"
  shows "b_reserve c now tok b =
     (case cap_verdict x (b_prune now b) of
        Some msg \<Rightarrow> (Inr (None, msg), b_prune now b)
      | None \<Rightarrow> (Inr (Some tok, [Txt ''reserved'']), add_reservation tok x (b_prune now b)))"
proof -
  have "checked_cost (NumFloat (Fin x)) = Inr x"
    using checked_cost_nonneg [OF assms] by (simp add: checked_cost_def)
  then show ?thesis
    by (simp add: b_reserve_def assms b_can_afford_def cap_verdict_def add_reservation_def bindP_def)
qed

section \<open>Tokens\<close>

text \<open>A token settles a reservation at most once: afterwards it is no key of the document.\<close>

lemma commit_removes: "map_of (reserved (snd (b_commit tok now b))) tok = None"
  by (auto simp: b_commit_def split: option.splits)

lemma release_removes: "map_of (reserved (snd (b_release tok b))) tok = None"
  by (simp add: b_release_def)

section \<open>Evaluation of concrete budgets\<close>

lemma checked_cost_int: "0 \<le> n \<Longrightarrow> n < 9007199254740992 \<Longrightarrow> checked_cost (NumInt n) = Inr (of_int n)"
  using to_float_int [of n] by (simp add: checked_cost_def)

lemma checked_cost_again: "checked_cost c = Inr x \<Longrightarrow> checked_cost (NumFloat (Fin x)) = Inr x"
  using checked_cost_nonneg [of c x] by (simp add: checked_cost_def)

lemma checked_cost_numeral [simp]: "checked_cost (NumFloat (Fin (numeral n))) = Inr (numeral n)"
  by (simp add: checked_cost_def)

lemmas budget_eval = bm_reserve_def bm_commit_def bm_release_def bm_can_afford_def on_store_def reserve_mut_def
  commit_mut_def release_mut_def can_afford_mut_def seed_def default_budget_def b_state_def empty_dict_def dict_or_empty_def
  Let_def d_prune_def cap_test_def spent_of_def calls_of_def reserved_of_def reserved_sum_def fsum_def fadd_def
  fsub_def keyP_def bindP_def invalidate_def

section \<open>Properties of the budgets\<close>


definition demo_calls :: "bm_call list" where
  "demo_calls = [CallReserve ''a'' (NumInt 60) 1 ''t1'', CallReserve ''a'' (NumInt 60) 2 ''t2'',
     CallCommit ''a'' ''t1'' 3]"

lemma demo_run:
  "get_budget (sqlite_ops [] (\<lambda>_. 1)) ''a'' (fst (bm_run (sqlite_ops [] (\<lambda>_. 1)) default_budget demo_calls (empty_db, [])))
    = Some (b_state (default_budget\<lparr>spent := 60, calls := [3]\<rparr>))"
  by (simp add: demo_calls_def budget_eval checked_cost_int sqlite_ops_def sqlite_mutate_budget_def
      sqlite_get_budget_def sql_atomic_def empty_db_def empty_tables_def gov_tables.defs)


definition absorbed :: budget where
  "absorbed = default_budget\<lparr>spend_limit := 9007199254740992, spent := 9007199254740992\<rparr>"




text \<open>A reservation is settled at most once: after a commit or a release of a token, neither a commit
  nor a release of that token finds it again, and neither changes the budget.\<close>

theorem settled_once:
  "b' \<in> {snd (b_commit tok now b), snd (b_release tok b)} \<longrightarrow>
     b_commit tok later b' = (Inr False, b') \<and> b_release tok b' = (Inr False, b')"
proof
  assume "b' \<in> {snd (b_commit tok now b), snd (b_release tok b)}"
  then have n: "map_of (reserved b') tok = None" by (auto simp: commit_removes release_removes)
  then show "b_commit tok later b' = (Inr False, b') \<and> b_release tok b' = (Inr False, b')"
    by (simp add: b_commit_def b_release_def delete_absent)
qed

theorem settled_once_witness:
  "b_commit ''t'' 9 (default_budget\<lparr>spent := 7, calls := [8]\<rparr>) = (Inr False, default_budget\<lparr>spent := 7, calls := [8]\<rparr>)"
proof -
  have "snd (b_commit ''t'' 8 (default_budget\<lparr>reserved := [(''t'', 7)]\<rparr>)) = default_budget\<lparr>spent := 7, calls := [8]\<rparr>"
    by (simp add: b_commit_def budget_eval)
  with settled_once [of _ "''t''" 8 "default_budget\<lparr>reserved := [(''t'', 7)]\<rparr>" 9] show ?thesis by simp
qed

end
