(* ===== verification/Policy.thy ===== *)
theory Policy
  imports Policy_Rules Approvals Identity Budget
begin

text \<open>
  \<^verbatim>\<open>PolicyEngine\<close> of \<^verbatim>\<open>src/governance/policy.py\<close>, in the single-tenant configuration (no enrolled
  authority), over one store.

  The engine's configuration is the record \<open>policy_conf\<close>.  Whether a capability is sensitive and
  which rules apply are functions of the database, so that the in-memory and the durable forms
  of both are covered.  The parsed value of the allowlist variable is \<open>None\<close> when it is not JSON.
\<close>

section \<open>Configuration and decisions\<close>

record decision =
  dec_allowed :: bool
  dec_reason :: text_line
  dec_needs_approval :: bool
  dec_approval_required :: bool

definition deny :: "text_line \<Rightarrow> decision" where
  "deny why = \<lparr>dec_allowed = False, dec_reason = why, dec_needs_approval = False, dec_approval_required = False\<rparr>"

definition ask :: "text_line \<Rightarrow> decision" where
  "ask why = \<lparr>dec_allowed = False, dec_reason = why, dec_needs_approval = True, dec_approval_required = False\<rparr>"

record policy_conf =
  pc_env :: string
  pc_mode :: string
  pc_crypto :: crypto
  pc_require_verified :: bool
  pc_approvals :: bool
  pc_sensitive :: "string \<Rightarrow> db \<Rightarrow> bool"
  pc_rules :: "db \<Rightarrow> rule list res option"
  pc_allow :: "(string \<times> string list) list"
  pc_allowlist :: "json option"
  pc_default :: budget

definition quoted :: "string \<Rightarrow> string" where
  "quoted s = [CHR 0x27] @ s @ [CHR 0x27]"

definition authority_mode :: "string \<Rightarrow> string res" where
  "authority_mode mode =
     (if mode \<notin> {''legacy_single_tenant'', ''multi_tenant''}
      then Inl (Exn ConfigError ''unknown authority mode; explicit supported mode required'') else Inr mode)"

definition require_legacy_authority :: "string \<Rightarrow> unit res" where
  "require_legacy_authority mode = bindE (authority_mode mode) (\<lambda>m.
     if m \<noteq> ''legacy_single_tenant''
     then Inl (Exn ConfigError ''legacy entry point cannot serve multi_tenant authority; use the enrolled tenant facade'')
     else Inr ())"

definition allow_capability :: "string \<Rightarrow> string \<Rightarrow> (string \<times> string list) list \<Rightarrow> (string \<times> string list) list" where
  "allow_capability agent capability allow =
     (let caps = (case map_of allow agent of None \<Rightarrow> [] | Some cs \<Rightarrow> cs)
      in AList.update agent (if capability \<in> set caps then caps else caps @ [capability]) allow)"

text \<open>The registry's queries read the store only.\<close>

definition reg_of :: "db \<Rightarrow> db registry" where
  "reg_of s = \<lparr>rg_store = s, rg_revoked = [], rg_cache = []\<rparr>"

section \<open>The gate\<close>

fun is_jstr :: "json \<Rightarrow> bool" where
  "is_jstr (JStr s) = True" | "is_jstr _ = False"

definition prod_allowlist :: "json option \<Rightarrow> string \<Rightarrow> string \<Rightarrow> decision option" where
  "prod_allowlist allowlists agent capability =
     (case allowlists of
        Some (JObj d) \<Rightarrow>
          (case jget d agent of
             JArr xs \<Rightarrow>
               if \<not> list_all is_jstr xs then Some (deny [Txt ''production capability allowlist missing or invalid''])
               else if JStr capability \<notin> set xs
               then Some (deny [Txt (''capability '' @ quoted capability @ '' not permitted for '' @ quoted agent)])
               else None
           | _ \<Rightarrow> Some (deny [Txt ''production capability allowlist missing or invalid'']))
      | _ \<Rightarrow> Some (deny [Txt ''production capability allowlist invalid'']))"

definition dev_allowlist :: "(string \<times> string list) list \<Rightarrow> string \<Rightarrow> string \<Rightarrow> decision option" where
  "dev_allowlist allow agent capability =
     (case map_of allow agent of
        None \<Rightarrow> None
      | Some cs \<Rightarrow>
          if capability \<notin> set cs
          then Some (deny [Txt (''capability '' @ quoted capability @ '' not permitted for '' @ quoted agent)])
          else None)"

definition capability_verdict :: "policy_conf \<Rightarrow> string \<Rightarrow> string \<Rightarrow> decision option" where
  "capability_verdict pc agent capability =
     (if is_prod (pc_env pc) then prod_allowlist (pc_allowlist pc) agent capability
      else dev_allowlist (pc_allow pc) agent capability)"

definition current_identity_policy ::
  "db store_ops \<Rightarrow> policy_conf \<Rightarrow> string \<Rightarrow> string \<Rightarrow> (string \<times> string) option \<Rightarrow> db \<Rightarrow> decision option res" where
  "current_identity_policy ops pc agent capability signed s =
     bindE (require_legacy_authority (pc_mode pc)) (\<lambda>_.
       if pc_require_verified pc \<and> \<not> is_registered ops agent (reg_of s)
       then Inr (Some (deny [Txt (''unknown or revoked identity '' @ quoted agent)]))
       else bindE (case signed of
                     None \<Rightarrow> Inr True
                   | Some (data, sg) \<Rightarrow> verify_signature (pc_crypto pc) ops agent data sg (reg_of s)) (\<lambda>valid.
            Inr (if \<not> valid then Some (deny [Txt ''signature verification failed''])
                 else capability_verdict pc agent capability)))"

definition current_rule ::
  "policy_conf \<Rightarrow> int \<times> int \<Rightarrow> policy_context \<Rightarrow> db \<Rightarrow> rule_result option res" where
  "current_rule pc clock ctx s =
     (case pc_rules pc s of
        None \<Rightarrow> Inr None
      | Some rs \<Rightarrow> bindE rs (\<lambda>rules. Inr (Some (policy_evaluate clock rules ctx))))"

definition approval_gate ::
  "db store_ops \<Rightarrow> policy_conf \<Rightarrow> string \<Rightarrow> string \<Rightarrow> string option \<Rightarrow> db \<Rightarrow> decision option \<times> bool" where
  "approval_gate ops pc agent capability scope s =
     (if pc_approvals pc \<and> pc_sensitive pc capability s
      then (if \<not> is_granted ops agent capability scope s
            then (Some (ask [Txt (''approval required for '' @ quoted capability)]), True)
            else (None, True))
      else (None, False))"

definition rule_gate ::
  "db store_ops \<Rightarrow> policy_conf \<Rightarrow> string \<Rightarrow> string \<Rightarrow> string option \<Rightarrow> rule_result option \<Rightarrow> db
     \<Rightarrow> decision option \<times> bool" where
  "rule_gate ops pc agent capability scope rule s =
     (case rule of
        None \<Rightarrow> (None, False)
      | Some r \<Rightarrow>
          if \<not> rr_allowed r then (Some (deny (rr_reason r)), False)
          else if rr_needs_approval r
          then (if \<not> (pc_approvals pc \<and> is_granted ops agent capability scope s)
                then (Some (ask (rr_reason r)), True) else (None, True))
          else (None, False))"

definition authorize ::
  "db store_ops \<Rightarrow> policy_conf \<Rightarrow> int \<times> int \<Rightarrow> rat \<Rightarrow> string \<Rightarrow> string \<Rightarrow> rat \<Rightarrow> (string \<times> string) option
     \<Rightarrow> string option \<Rightarrow> string option \<Rightarrow> string option \<Rightarrow> (db bm_state, decision) prog" where
  "authorize ops pc clock now agent capability cost signed src dst scope =
     bindP (\<lambda>st. (current_identity_policy ops pc agent capability signed (fst st), st)) (\<lambda>denial.
       case denial of
         Some d \<Rightarrow> retP d
       | None \<Rightarrow>
           bindP (getP (\<lambda>st. approval_gate ops pc agent capability scope (fst st))) (\<lambda>(refusal, required).
           case refusal of
             Some d \<Rightarrow> retP d
           | None \<Rightarrow>
               bindP (\<lambda>st. (current_rule pc clock
                        \<lparr>c_agent = agent, c_capability = capability, c_cost = cost, c_src = src, c_dst = dst, c_now = None\<rparr>
                        (fst st), st)) (\<lambda>rule.
               bindP (getP (\<lambda>st. rule_gate ops pc agent capability scope rule (fst st))) (\<lambda>(refusal, asked).
               case refusal of
                 Some d \<Rightarrow> retP d
               | None \<Rightarrow>
                   bindP (bm_can_afford ops (pc_default pc) agent (NumFloat (Fin cost)) now) (\<lambda>reply.
                   retP (case reply of
                           Affordable True why \<Rightarrow>
                             \<lparr>dec_allowed = True, dec_reason = [Txt ''authorized''], dec_needs_approval = False,
                              dec_approval_required = required \<or> asked\<rparr>
                         | Affordable False why \<Rightarrow> deny why
                         | _ \<Rightarrow> deny []))))))"

definition current_dispatch_policy ::
  "db store_ops \<Rightarrow> policy_conf \<Rightarrow> int \<times> int \<Rightarrow> string \<Rightarrow> string \<Rightarrow> rat \<Rightarrow> string option \<Rightarrow> string option \<Rightarrow> db
     \<Rightarrow> decision res" where
  "current_dispatch_policy ops pc clock agent capability cost src dst s =
     bindE (current_identity_policy ops pc agent capability None s) (\<lambda>denial.
       case denial of
         Some d \<Rightarrow> Inr d
       | None \<Rightarrow>
           bindE (current_rule pc clock
                    \<lparr>c_agent = agent, c_capability = capability, c_cost = cost, c_src = src, c_dst = dst, c_now = None\<rparr> s) (\<lambda>rule.
             let required = pc_approvals pc \<and> pc_sensitive pc capability s
             in case rule of
                  None \<Rightarrow> Inr \<lparr>dec_allowed = True, dec_reason = [Txt ''current dispatch policy allowed''],
                               dec_needs_approval = False, dec_approval_required = required\<rparr>
                | Some r \<Rightarrow>
                    if \<not> rr_allowed r then Inr (deny (rr_reason r))
                    else Inr \<lparr>dec_allowed = True, dec_reason = [Txt ''current dispatch policy allowed''],
                              dec_needs_approval = False, dec_approval_required = required \<or> rr_needs_approval r\<rparr>))"

section \<open>What is allowed\<close>

text \<open>The four things a call must have, stated without the order in which they are tested.\<close>

definition identity_clear ::
  "db store_ops \<Rightarrow> policy_conf \<Rightarrow> string \<Rightarrow> string \<Rightarrow> (string \<times> string) option \<Rightarrow> db \<Rightarrow> bool" where
  "identity_clear ops pc agent capability signed s \<longleftrightarrow>
     pc_mode pc = ''legacy_single_tenant'' \<and>
     (pc_require_verified pc \<longrightarrow> is_registered ops agent (reg_of s)) \<and>
     (case signed of None \<Rightarrow> True
      | Some (data, sg) \<Rightarrow> verify_signature (pc_crypto pc) ops agent data sg (reg_of s) = Inr True) \<and>
     capability_verdict pc agent capability = None"

definition rules_of :: "policy_conf \<Rightarrow> db \<Rightarrow> rule list res" where
  "rules_of pc s = (case pc_rules pc s of None \<Rightarrow> Inr [] | Some r \<Rightarrow> r)"

definition approval_wanted :: "policy_conf \<Rightarrow> int \<times> int \<Rightarrow> policy_context \<Rightarrow> db \<Rightarrow> bool" where
  "approval_wanted pc clock ctx s \<longleftrightarrow>
     (pc_approvals pc \<and> pc_sensitive pc (c_capability ctx) s)
     \<or> (\<exists>rules. rules_of pc s = Inr rules \<and> list_ex (rule_asks clock ctx) rules)"

lemma require_legacy_iff: "require_legacy_authority m = Inr () \<longleftrightarrow> m = ''legacy_single_tenant''"
  by (auto simp: require_legacy_authority_def authority_mode_def)

lemma identity_policy_clear_iff:
  "current_identity_policy ops pc agent capability signed s = Inr None \<longleftrightarrow>
     identity_clear ops pc agent capability signed s"
proof (cases "pc_mode pc = ''legacy_single_tenant''")
  case True
  then have "require_legacy_authority (pc_mode pc) = Inr ()" by (simp add: require_legacy_iff)
  with True show ?thesis
    by (auto simp: current_identity_policy_def identity_clear_def bindE_def split: if_splits option.splits sum.splits)
next
  case False
  then have "require_legacy_authority (pc_mode pc) \<noteq> Inr u" for u using require_legacy_iff by auto
  with False show ?thesis
    by (auto simp: current_identity_policy_def identity_clear_def bindE_def split: sum.splits)
qed

definition call_ctx :: "string \<Rightarrow> string \<Rightarrow> rat \<Rightarrow> string option \<Rightarrow> string option \<Rightarrow> policy_context" where
  "call_ctx agent capability cost src dst =
     \<lparr>c_agent = agent, c_capability = capability, c_cost = cost, c_src = src, c_dst = dst, c_now = None\<rparr>"

lemma policy_evaluate_denies:
  "rr_allowed (policy_evaluate clock rules ctx) \<longleftrightarrow> (\<forall>r \<in> set rules. \<not> rule_denies clock ctx r)"
  using policy_loop_spec [of clock ctx False "[Txt []]" rules]
  by (auto simp: policy_evaluate_def rule_denies_def find_None_iff find_Some_iff split: option.splits)

lemma policy_evaluate_asks:
  "rr_allowed (policy_evaluate clock rules ctx) \<Longrightarrow>
     rr_needs_approval (policy_evaluate clock rules ctx) \<longleftrightarrow> list_ex (rule_asks clock ctx) rules"
  using policy_loop_spec [of clock ctx False "[Txt []]" rules]
  by (auto simp: policy_evaluate_def rule_denies_def find_None_iff find_Some_iff split: option.splits)

text \<open>The two approval gates together.\<close>

definition gates_clear ::
  "db store_ops \<Rightarrow> policy_conf \<Rightarrow> int \<times> int \<Rightarrow> policy_context \<Rightarrow> string option \<Rightarrow> db \<Rightarrow> bool" where
  "gates_clear ops pc clock ctx scope s \<longleftrightarrow>
     (\<exists>rules. rules_of pc s = Inr rules \<and> (\<forall>r \<in> set rules. \<not> rule_denies clock ctx r)) \<and>
     (approval_wanted pc clock ctx s \<longrightarrow>
        pc_approvals pc \<and> is_granted ops (c_agent ctx) (c_capability ctx) scope s)"

lemma gates_iff:
  fixes agent capability cost src dst
  defines "ctx \<equiv> call_ctx agent capability cost src dst"
  shows "(\<exists>req rule asked. approval_gate ops pc agent capability scope s = (None, req) \<and>
            current_rule pc clock ctx s = Inr rule \<and> rule_gate ops pc agent capability scope rule s = (None, asked)
            \<and> required = (req \<or> asked))
     \<longleftrightarrow> gates_clear ops pc clock ctx scope s \<and> required = approval_wanted pc clock ctx s"
proof -
  have ag: "approval_gate ops pc agent capability scope s = (None, req) \<longleftrightarrow>
      (req = (pc_approvals pc \<and> pc_sensitive pc capability s)) \<and> (req \<longrightarrow> is_granted ops agent capability scope s)"
    for req by (auto simp: approval_gate_def)
  have rg: "(\<exists>rule. current_rule pc clock ctx s = Inr rule \<and> rule_gate ops pc agent capability scope rule s = (None, asked))
      \<longleftrightarrow> (\<exists>rules. rules_of pc s = Inr rules \<and> (\<forall>r \<in> set rules. \<not> rule_denies clock ctx r)
            \<and> asked = list_ex (rule_asks clock ctx) rules
            \<and> (asked \<longrightarrow> pc_approvals pc \<and> is_granted ops agent capability scope s))" for asked
  proof (cases "pc_rules pc s")
    case None
    then show ?thesis by (auto simp: current_rule_def rules_of_def rule_gate_def)
  next
    case (Some rs)
    show ?thesis
    proof (cases rs)
      case (Inl e)
      with Some show ?thesis by (simp add: current_rule_def rules_of_def)
    next
      case (Inr rules)
      let ?r = "policy_evaluate clock rules ctx"
      have "rule_gate ops pc agent capability scope (Some ?r) s = (None, asked) \<longleftrightarrow>
          rr_allowed ?r \<and> asked = rr_needs_approval ?r
          \<and> (asked \<longrightarrow> pc_approvals pc \<and> is_granted ops agent capability scope s)"
        by (auto simp: rule_gate_def)
      with Some Inr policy_evaluate_denies [of clock rules ctx] policy_evaluate_asks [of clock rules ctx]
      show ?thesis by (auto simp: current_rule_def rules_of_def)
    qed
  qed
  have c: "c_agent ctx = agent" "c_capability ctx = capability" by (simp_all add: ctx_def call_ctx_def)
  have "(\<exists>req rule asked. approval_gate ops pc agent capability scope s = (None, req) \<and>
            current_rule pc clock ctx s = Inr rule \<and> rule_gate ops pc agent capability scope rule s = (None, asked)
            \<and> required = (req \<or> asked))
     \<longleftrightarrow> (\<exists>req asked. approval_gate ops pc agent capability scope s = (None, req) \<and>
           (\<exists>rule. current_rule pc clock ctx s = Inr rule \<and> rule_gate ops pc agent capability scope rule s = (None, asked))
            \<and> required = (req \<or> asked))" by blast
  also have "\<dots> \<longleftrightarrow> gates_clear ops pc clock ctx scope s \<and> required = approval_wanted pc clock ctx s"
    unfolding ag rg gates_clear_def approval_wanted_def c by auto
  finally show ?thesis .
qed

lemma denials_deny [simp]: "\<not> dec_allowed (deny why)" "\<not> dec_allowed (ask why)"
  by (simp_all add: deny_def ask_def)

lemma capability_verdict_denies: "capability_verdict pc agent capability = Some d \<Longrightarrow> \<not> dec_allowed d"
  by (auto simp: capability_verdict_def prod_allowlist_def dev_allowlist_def
      split: if_splits option.splits json.splits)

lemma identity_policy_denies:
  "current_identity_policy ops pc agent capability signed s = Inr (Some d) \<Longrightarrow> \<not> dec_allowed d"
  by (auto simp: current_identity_policy_def bindE_Inr_iff capability_verdict_denies split: if_splits)

lemma gates_deny:
  "approval_gate ops pc agent capability scope s = (Some d, req) \<Longrightarrow> \<not> dec_allowed d"
  "rule_gate ops pc agent capability scope rule s = (Some d, req) \<Longrightarrow> \<not> dec_allowed d"
  by (auto simp: approval_gate_def rule_gate_def split: if_splits option.splits)

lemma authorize_allowed_iff:
  "(\<exists>d. authorize ops pc clock now agent capability cost signed src dst scope (s, c) = (Inr d, st') \<and>
        dec_allowed d \<and> dec_approval_required d = required) \<longleftrightarrow>
     identity_clear ops pc agent capability signed s \<and>
     gates_clear ops pc clock (call_ctx agent capability cost src dst) scope s \<and>
     required = approval_wanted pc clock (call_ctx agent capability cost src dst) s \<and>
     (\<exists>why. bm_can_afford ops (pc_default pc) agent (NumFloat (Fin cost)) now (s, c) = (Inr (Affordable True why), st'))"
  (is "?L \<longleftrightarrow> ?R")
proof -
  let ?ctx = "call_ctx agent capability cost src dst"
  have "?L \<longleftrightarrow> current_identity_policy ops pc agent capability signed s = Inr None \<and>
      (\<exists>req rule asked. approval_gate ops pc agent capability scope s = (None, req) \<and>
            current_rule pc clock ?ctx s = Inr rule \<and> rule_gate ops pc agent capability scope rule s = (None, asked)
            \<and> required = (req \<or> asked)) \<and>
      (\<exists>why. bm_can_afford ops (pc_default pc) agent (NumFloat (Fin cost)) now (s, c) = (Inr (Affordable True why), st'))"
    (is "_ \<longleftrightarrow> ?I \<and> ?G \<and> ?B")
  proof
    assume ?L
    then obtain d where run: "authorize ops pc clock now agent capability cost signed src dst scope (s, c) = (Inr d, st')"
      and d: "dec_allowed d" "dec_approval_required d = required" by blast
    obtain denial where i: "current_identity_policy ops pc agent capability signed s = Inr denial"
      using run by (auto simp: authorize_def prog_simps)
    with run d(1) identity_policy_denies have I: ?I by (cases denial) (auto simp: authorize_def bindP_def)
    obtain refusal req where a: "approval_gate ops pc agent capability scope s = (refusal, req)" by (metis surj_pair)
    with run I d(1) gates_deny(1) have A: "refusal = None" by (cases refusal) (auto simp: authorize_def bindP_def)
    obtain rule where r: "current_rule pc clock ?ctx s = Inr rule"
      using run I a A by (cases "current_rule pc clock ?ctx s") (auto simp: authorize_def bindP_def call_ctx_def)
    obtain refusal2 asked where g: "rule_gate ops pc agent capability scope rule s = (refusal2, asked)" by (metis surj_pair)
    with run I a A r d(1) gates_deny(2) have G: "refusal2 = None"
      by (cases refusal2) (auto simp: authorize_def bindP_def call_ctx_def)
    from run I a A r g G obtain reply where b: "bm_can_afford ops (pc_default pc) agent (NumFloat (Fin cost)) now (s, c) = (Inr reply, st')"
      and dd: "d = (case reply of Affordable True why \<Rightarrow> \<lparr>dec_allowed = True, dec_reason = [Txt ''authorized''],
            dec_needs_approval = False, dec_approval_required = req \<or> asked\<rparr>
          | Affordable False why \<Rightarrow> deny why | _ \<Rightarrow> deny [])"
      by (auto simp: authorize_def bindP_def call_ctx_def split: prod.splits sum.splits)
    obtain why where "reply = Affordable True why"
      using d(1) dd by (cases reply rule: budget_reply.exhaust) (auto split: bool.splits if_splits)
    with d(2) b dd have "?B \<and> required = (req \<or> asked)" by auto
    with I a A r g G show "?I \<and> ?G \<and> ?B" by blast
  next
    assume "?I \<and> ?G \<and> ?B"
    then show ?L by (auto simp: authorize_def call_ctx_def)
  qed
  then show ?thesis unfolding identity_policy_clear_iff gates_iff by blast
qed

section \<open>Properties of the policy engine\<close>

text \<open>C7: A call is authorised exactly when the identity checks pass, no rule denies it, every approval it
  needs is granted, and the budget can afford it; the decision says whether an approval has to
  be consumed.\<close>

theorem authorize_exactly:
  "(\<exists>d. authorize (sqlite_ops env esize) pc clock now agent capability cost signed src dst scope (s, c) = (Inr d, st') \<and>
        dec_allowed d \<and> dec_approval_required d = required) \<longleftrightarrow>
     identity_clear (sqlite_ops env esize) pc agent capability signed s \<and>
     gates_clear (sqlite_ops env esize) pc clock (call_ctx agent capability cost src dst) scope s \<and>
     required = approval_wanted pc clock (call_ctx agent capability cost src dst) s \<and>
     (\<exists>why. bm_can_afford (sqlite_ops env esize) (pc_default pc) agent (NumFloat (Fin cost)) now (s, c)
              = (Inr (Affordable True why), st'))"
  by (rule authorize_allowed_iff)


definition demo_policy :: policy_conf where
  "demo_policy = \<lparr>pc_env = [], pc_mode = ''legacy_single_tenant'', pc_crypto = toy_crypto, pc_require_verified = True,
     pc_approvals = True, pc_sensitive = (\<lambda>_ _. False), pc_rules = (\<lambda>_. None), pc_allow = [], pc_allowlist = None,
     pc_default = default_budget\<rparr>"


end
