(* ===== verification/Operation_Ledger.thy ===== *)
theory Operation_Ledger
  imports Budget Py_Json
begin

text \<open>
  \<^verbatim>\<open>src/governance/operation_ledger.py\<close> and \<^verbatim>\<open>src/governance/owned_settlement.py\<close>: the durable
  claim of an operation before its effect, and the settlement of the budget reservation it owns.

  The two databases run the same statements under the same serialisation, so one definition
  models both.  \<open>tenant\<close> is the store's \<^verbatim>\<open>tenant_id\<close>, \<open>None\<close> for a store without tenants; \<open>stamp\<close>
  is the clock reading.  The state of a settlement is that of a budget manager: the database
  and the manager's cache.
\<close>

section \<open>The ledger\<close>

definition valid_text :: "string \<Rightarrow> bool" where
  "valid_text x \<longleftrightarrow> x \<noteq> [] \<and> length x \<le> 256"

text \<open>Insertion into a table with a primary key.\<close>

definition insert_key :: "'k \<Rightarrow> 'v \<Rightarrow> ('k \<times> 'v) list \<Rightarrow> ('k \<times> 'v) list option" where
  "insert_key k v rows = (if map_of rows k = None then Some (rows @ [(k, v)]) else None)"

definition insert_reservation :: "string \<Rightarrow> string \<Rightarrow> string \<Rightarrow> (db, unit) prog" where
  "insert_reservation agent opid tok s =
     (case insert_key (agent, opid) tok (t_reservations s) of
        None \<Rightarrow> (Inl (Exn IntegrityError ''operation_reservations''), s)
      | Some rows \<Rightarrow> (Inr (), s\<lparr>t_reservations := rows\<rparr>))"

definition insert_authority :: "string \<Rightarrow> string \<Rightarrow> json \<Rightarrow> (db, unit) prog" where
  "insert_authority agent opid b s =
     (case insert_key (agent, opid) b (t_op_authority s) of
        None \<Rightarrow> (Inl (Exn IntegrityError ''operation_authority''), s)
      | Some rows \<Rightarrow> (Inr (), s\<lparr>t_op_authority := rows\<rparr>))"

definition binding_matches :: "string option \<Rightarrow> string \<Rightarrow> json \<Rightarrow> bool" where
  "binding_matches tenant agent b = (case b of
      JObj d \<Rightarrow> jget d ''tenant_id'' = (case tenant of None \<Rightarrow> JNull | Some t \<Rightarrow> JStr t)
                \<and> jget d ''agent_id'' = JStr agent
    | _ \<Rightarrow> False)"

definition ledger_claim ::
  "string option \<Rightarrow> string \<Rightarrow> string \<Rightarrow> string \<Rightarrow> string option \<Rightarrow> json option \<Rightarrow> (db, unit) prog option \<Rightarrow> rat
     \<Rightarrow> (db, unit) prog" where
  "ledger_claim tenant agent opid fingerprint token binding before_insert stamp =
     bindP (checkP (valid_text agent \<and> valid_text opid \<and> valid_text fingerprint) ValueError
              ''invalid operation claim'') (\<lambda>_.
     bindP (checkP (token \<noteq> Some []) ValueError ''reservation_token must be nonempty'') (\<lambda>_.
     bindP (checkP (case binding of None \<Rightarrow> True | Some b \<Rightarrow> binding_matches tenant agent b) ValueError
              ''operation authority does not match the bound tenant/agent'') (\<lambda>_.
     sql_atomic (
       bindP (getP (\<lambda>s. map_of (t_operations s) (agent, opid))) (\<lambda>row.
         case row of
           Some r \<Rightarrow>
             if op_fingerprint r \<noteq> fingerprint
             then raiseP OperationConflict ''idempotency key reused for different request''
             else raiseP OperationConflict (''existing operation is '' @ op_state r @ ''; no automatic replay'')
         | None \<Rightarrow>
             bindP (case before_insert of None \<Rightarrow> retP () | Some hook \<Rightarrow> hook) (\<lambda>_.
             bindP (\<lambda>s. case insert_key (agent, opid)
                          \<lparr>op_fingerprint = fingerprint, op_state = ''unknown'', op_updated = stamp\<rparr> (t_operations s) of
                        None \<Rightarrow> (Inl (Exn IntegrityError ''agent_operations''), s)
                      | Some rows \<Rightarrow> (Inr (), s\<lparr>t_operations := rows\<rparr>)) (\<lambda>_.
             bindP (case token of None \<Rightarrow> retP () | Some tok \<Rightarrow> insert_reservation agent opid tok) (\<lambda>_.
             case binding of None \<Rightarrow> retP () | Some b \<Rightarrow> insert_authority agent opid b))))))))"

definition attach_reservation :: "string \<Rightarrow> string \<Rightarrow> string \<Rightarrow> (db, unit) prog" where
  "attach_reservation agent opid token =
     bindP (checkP (valid_text agent \<and> valid_text opid \<and> valid_text token) ValueError
              ''invalid reservation binding'') (\<lambda>_.
     sql_atomic (
       bindP (getP id) (\<lambda>s.
       bindP (checkP (case map_of (t_operations s) (agent, opid) of None \<Rightarrow> False | Some r \<Rightarrow> op_state r = ''unknown'')
                OperationConflict ''reservation requires an unresolved owned operation'') (\<lambda>_.
       bindP (checkP (map_of (t_reservations s) (agent, opid) = None) OperationConflict
                ''operation already has a reservation binding'') (\<lambda>_.
       bindP (checkP (token \<in> fst ` set (reserved_of (dict_or_empty (map_of (t_budgets s) agent)))) OperationConflict
                ''reservation is not pending for this agent'') (\<lambda>_.
       bindP (checkP (\<not> (\<exists>((a, i), tok) \<in> set (t_reservations s). a = agent \<and> tok = token)) OperationConflict
                ''reservation is already attached to an operation'') (\<lambda>_.
       insert_reservation agent opid token)))))))"

definition authority_binding :: "string option \<Rightarrow> string \<Rightarrow> string \<Rightarrow> db \<Rightarrow> json option" where
  "authority_binding tenant agent opid s =
     (if tenant = None then None else map_of (t_op_authority s) (agent, opid))"

definition ledger_finish :: "string \<Rightarrow> string \<Rightarrow> string \<Rightarrow> rat \<Rightarrow> (db, unit) prog" where
  "ledger_finish agent opid state stamp =
     bindP (checkP (state \<in> {''succeeded'', ''failed'', ''unknown''}) ValueError
              ''invalid terminal operation state'') (\<lambda>_. \<lambda>s.
       case map_of (t_operations s) (agent, opid) of
         None \<Rightarrow> (Inl (Exn OperationConflict ''operation missing''), s)
       | Some r \<Rightarrow> (Inr (), s\<lparr>t_operations :=
           AList.update (agent, opid) (r\<lparr>op_state := state, op_updated := stamp\<rparr>) (t_operations s)\<rparr>))"

definition ledger_get :: "string \<Rightarrow> string \<Rightarrow> db \<Rightarrow> op_row option" where
  "ledger_get agent opid s = map_of (t_operations s) (agent, opid)"

section \<open>Settlement of an owned reservation\<close>

definition lock_unknown_operation :: "string \<Rightarrow> string \<Rightarrow> (db, op_row) prog" where
  "lock_unknown_operation agent opid s =
     (case map_of (t_operations s) (agent, opid) of
        None \<Rightarrow> (Inl (Exn OperationConflict
                   ''operation missing or already settled; inspect its durable outcome''), s)
      | Some r \<Rightarrow>
          if op_state r \<noteq> ''unknown''
          then (Inl (Exn OperationConflict
                  ''operation missing or already settled; inspect its durable outcome''), s)
          else (Inr r, s))"

text \<open>The amount of the reservation that the operation owns, with the checks that guard it.\<close>

definition owned_amount :: "db store_ops \<Rightarrow> string \<Rightarrow> string \<Rightarrow> string \<Rightarrow> db \<Rightarrow> rat res" where
  "owned_amount ops agent opid token s =
     (if map_of (t_reservations s) (agent, opid) \<noteq> Some token
      then Inl (Exn OperationConflict ''exact owned operation reservation required'')
      else (case (case get_budget ops agent s of None \<Rightarrow> None | Some d \<Rightarrow> map_of (reserved_of d) token) of
              None \<Rightarrow> Inl (Exn OperationConflict ''budget reservation missing; reconcile outcome'')
            | Some x \<Rightarrow> bindE (checked_cost (NumFloat (Fin x))) (\<lambda>_. Inr x)))"

definition settle_owned_reservation ::
  "db store_ops \<Rightarrow> budget \<Rightarrow> string \<Rightarrow> string \<Rightarrow> string \<Rightarrow> string \<Rightarrow> rat option \<Rightarrow> rat \<Rightarrow> (db bm_state, rat) prog" where
  "settle_owned_reservation ops dflt agent opid token outcome expected now =
     bindP (checkP (outcome = ''succeeded'' \<or> outcome = ''failed'') ValueError
              ''same-store concrete settlement participants required'') (\<lambda>_.
     bindP (\<lambda>st. (owned_amount ops agent opid token (fst st), st)) (\<lambda>amount.
     bindP (checkP (case expected of None \<Rightarrow> True | Some e \<Rightarrow> amount = e) OperationConflict
              ''owned reservation amount does not match admission'') (\<lambda>_.
     bindP (if outcome = ''succeeded'' then bm_commit ops dflt agent token now
            else bm_release ops dflt agent token) (\<lambda>changed.
     bindP (checkP (changed = Changed True) OperationConflict
              ''budget reservation missing; reconcile outcome'') (\<lambda>_.
     bindP (on_store (ledger_finish agent opid outcome now)) (\<lambda>_.
     retP amount))))))"

section \<open>The life of an operation\<close>

text \<open>
  Once claimed, an operation stays in the ledger under its fingerprint.  It is \<open>unknown\<close> until
  it is settled; \<open>op_later\<close> is what can happen to a row.
\<close>

definition op_later :: "op_row \<Rightarrow> op_row \<Rightarrow> bool" where
  "op_later r r' \<longleftrightarrow> op_fingerprint r' = op_fingerprint r"

definition ops_kept :: "db \<Rightarrow> db \<Rightarrow> bool" where
  "ops_kept s s' \<longleftrightarrow> (\<forall>k r. map_of (t_operations s) k = Some r \<longrightarrow>
     (\<exists>r'. map_of (t_operations s') k = Some r' \<and> op_later r r'))"

lemma ops_kept_refl [simp]: "ops_kept s s"
  by (simp add: ops_kept_def op_later_def)

lemma ops_kept_trans: "ops_kept s t \<Longrightarrow> ops_kept t u \<Longrightarrow> ops_kept s u"
  unfolding ops_kept_def op_later_def by metis

lemma insert_key_Some:
  "insert_key k v rows = Some rows' \<Longrightarrow> map_of rows k = None \<and> map_of rows' = (map_of rows)(k \<mapsto> v)"
  by (auto simp: insert_key_def map_add_def fun_eq_iff split: if_splits option.splits)

text \<open>A claim of an operation that is already there is refused and changes nothing.\<close>

lemma claim_present:
  assumes "map_of (t_operations s) (agent, opid) = Some r"
  shows "\<exists>e. ledger_claim tenant agent opid fp token binding hook stamp s = (Inl e, s)"
  using assms by (auto simp: ledger_claim_def bindP_def sql_atomic_def split: if_splits)

lemma claim_exn: "ledger_claim tenant agent opid fp token binding hook stamp s = (Inl e, s') \<Longrightarrow> s' = s"
  by (auto simp: ledger_claim_def prog_simps split: if_splits)

lemma insert_reservation_ok:
  "insert_reservation agent opid tok s = (Inr u, s') \<Longrightarrow>
     map_of (t_reservations s) (agent, opid) = None \<and>
     s' = s\<lparr>t_reservations := t_reservations s @ [((agent, opid), tok)]\<rparr>"
  by (auto simp: insert_reservation_def insert_key_def split: if_splits)

lemma insert_authority_ok:
  "insert_authority agent opid b s = (Inr u, s') \<Longrightarrow>
     s' = s\<lparr>t_op_authority := t_op_authority s @ [((agent, opid), b)]\<rparr>"
  by (auto simp: insert_authority_def insert_key_def split: if_splits)

lemma claim_ok:
  assumes "ledger_claim tenant agent opid fp token binding hook stamp s = (Inr u, s')"
  shows "map_of (t_operations s) (agent, opid) = None \<and>
    map_of (t_operations s') (agent, opid) =
      Some \<lparr>op_fingerprint = fp, op_state = ''unknown'', op_updated = stamp\<rparr>"
proof -
  let ?row = "\<lparr>op_fingerprint = fp, op_state = ''unknown'', op_updated = stamp\<rparr>"
  from assms obtain s1 s2 s3 rows where none: "map_of (t_operations s) (agent, opid) = None"
    and ins: "insert_key (agent, opid) ?row (t_operations s1) = Some rows" and s2: "s2 = s1\<lparr>t_operations := rows\<rparr>"
    and t: "(case token of None \<Rightarrow> retP () | Some tok \<Rightarrow> insert_reservation agent opid tok) s2 = (Inr (), s3)"
    and b: "(case binding of None \<Rightarrow> retP () | Some b \<Rightarrow> insert_authority agent opid b) s3 = (Inr u, s')"
    by (auto simp: ledger_claim_def prog_simps split: if_splits option.splits)
  have "t_operations s3 = t_operations s2"
    using t by (auto split: option.splits dest!: insert_reservation_ok)
  moreover have "t_operations s' = t_operations s3"
    using b by (auto split: option.splits dest!: insert_authority_ok)
  ultimately show ?thesis using none insert_key_Some [OF ins] by (simp add: s2)
qed

lemma finish_ok:
  assumes "ledger_finish agent opid state stamp s = (Inr u, s')"
  shows "\<exists>r. map_of (t_operations s) (agent, opid) = Some r \<and>
    s' = s\<lparr>t_operations := AList.update (agent, opid) (r\<lparr>op_state := state, op_updated := stamp\<rparr>) (t_operations s)\<rparr>
    \<and> state \<in> {''succeeded'', ''failed'', ''unknown''}"
  using assms by (auto simp: ledger_finish_def prog_simps split: if_splits option.splits)

lemma finish_exn: "ledger_finish agent opid state stamp s = (Inl e, s') \<Longrightarrow> s' = s"
  by (auto simp: ledger_finish_def prog_simps split: if_splits option.splits)

lemma attach_exn: "attach_reservation agent opid token s = (Inl e, s') \<Longrightarrow> s' = s"
  by (auto simp: attach_reservation_def prog_simps split: if_splits)

lemma attach_ok:
  assumes "attach_reservation agent opid token s = (Inr u, s')"
  shows "(\<exists>r. map_of (t_operations s) (agent, opid) = Some r \<and> op_state r = ''unknown'')
    \<and> map_of (t_reservations s) (agent, opid) = None
    \<and> token \<in> fst ` set (reserved_of (dict_or_empty (map_of (t_budgets s) agent)))
    \<and> (\<forall>i. ((agent, i), token) \<notin> set (t_reservations s))
    \<and> s' = s\<lparr>t_reservations := t_reservations s @ [((agent, opid), token)]\<rparr>"
  using assms
  by (auto simp: attach_reservation_def prog_simps split: if_splits option.splits dest!: insert_reservation_ok)

lemma on_store_iff: "on_store m (s, c) = (r, (s', c')) \<longleftrightarrow> m s = (r, s') \<and> c' = c"
  by (auto simp: on_store_def split: prod.splits)

section \<open>What the gateway's components need of an SQL store\<close>

text \<open>
  The store contract, and the table each operation writes: what one component changes is none
  of another component's tables.
\<close>

locale sql_store = governance_store ops sql_appr_inv sql_audit_inv for ops :: "db store_ops" +
  assumes get_budget_table: "get_budget ops a s = map_of (t_budgets s) a"
    and mutate_writes: "\<exists>rows. snd (mutate_budget ops a m s) = s\<lparr>t_budgets := rows\<rparr>"
    and upsert_identity_writes: "\<exists>rows. snd (upsert_identity ops a k v s) = s\<lparr>t_identities := rows\<rparr>"
    and append_writes: "\<exists>rows cap. snd (append_audit_chained ops b s) = s\<lparr>t_audit := rows, t_capacity := cap\<rparr>"
    and insert_approval_writes: "\<exists>rows. snd (insert_approval ops p s) = s\<lparr>t_approvals := rows\<rparr>"
    and consume_writes: "\<exists>rows. snd (consume_approval ops i s) = s\<lparr>t_approvals := rows\<rparr>"
    and update_writes: "\<exists>rows. snd (update_approval_status ops i st s) = s\<lparr>t_approvals := rows\<rparr>"
begin

lemma bm_writes:
  "\<exists>rows. fst (snd (bm_commit ops dflt agent tok now (s, c))) = s\<lparr>t_budgets := rows\<rparr>"
  "\<exists>rows. fst (snd (bm_release ops dflt agent tok (s, c))) = s\<lparr>t_budgets := rows\<rparr>"
  "\<exists>rows. fst (snd (bm_reserve ops dflt agent cost now tok (s, c))) = s\<lparr>t_budgets := rows\<rparr>"
  "\<exists>rows. fst (snd (bm_can_afford ops dflt agent cost now (s, c))) = s\<lparr>t_budgets := rows\<rparr>"
proof -
  note w = mutate_writes [of agent "commit_mut dflt c agent tok now" s]
    mutate_writes [of agent "release_mut dflt c agent tok" s]
  have triv: "\<exists>rows. s = s\<lparr>t_budgets := rows\<rparr>" by (rule exI [of _ "t_budgets s"]) simp
  show "\<exists>rows. fst (snd (bm_commit ops dflt agent tok now (s, c))) = s\<lparr>t_budgets := rows\<rparr>"
    using w(1) by (cases "fst (mutate_budget ops agent (commit_mut dflt c agent tok now) s)")
      (auto simp: bm_commit_def bindP_def on_store_def invalidate_def split: prod.splits)
  show "\<exists>rows. fst (snd (bm_release ops dflt agent tok (s, c))) = s\<lparr>t_budgets := rows\<rparr>"
    using w(2) by (cases "fst (mutate_budget ops agent (release_mut dflt c agent tok) s)")
      (auto simp: bm_release_def bindP_def on_store_def invalidate_def split: prod.splits)
  show "\<exists>rows. fst (snd (bm_reserve ops dflt agent cost now tok (s, c))) = s\<lparr>t_budgets := rows\<rparr>"
  proof (cases "checked_cost cost")
    case (Inr x)
    with mutate_writes [of agent "reserve_mut dflt c agent x now tok" s] show ?thesis
      by (cases "fst (mutate_budget ops agent (reserve_mut dflt c agent x now tok) s)")
        (auto simp: bm_reserve_def bindP_def on_store_def invalidate_def split: prod.splits)
  qed (simp add: bm_reserve_def triv)
  show "\<exists>rows. fst (snd (bm_can_afford ops dflt agent cost now (s, c))) = s\<lparr>t_budgets := rows\<rparr>"
  proof (cases "checked_cost cost")
    case (Inr x)
    with mutate_writes [of agent "can_afford_mut dflt c agent x now" s] show ?thesis
      by (auto simp: bm_can_afford_def bindP_def on_store_def split: prod.splits)
  qed (simp add: bm_can_afford_def triv)
qed

lemma bm_mutate_doc:
  assumes doc: "map_of (t_budgets s) agent = Some (b_state b)"
    and m: "m (b_state b) = (Inr v, b_state b')"
  shows "\<exists>s'. bindP (on_store (mutate_budget ops agent m)) (\<lambda>result.
             bindP (invalidate agent) (\<lambda>_. retP result)) (s, c) = (Inr v, (s', AList.delete agent c))
      \<and> (\<exists>rows. s' = s\<lparr>t_budgets := rows\<rparr>)
      \<and> map_of (t_budgets s') = (map_of (t_budgets s))(agent \<mapsto> b_state b')"
proof -
  have st: "m (dict_or_empty (get_budget ops agent s)) = (Inr v, b_state b')"
    using doc m by (simp add: get_budget_table dict_or_empty_def)
  obtain s' where f: "mutate_budget ops agent m s = (Inr v, s')"
    using get_mutate(1) [of m agent s v "b_state b'"] st by (metis prod.collapse)
  have "map_of (t_budgets s') j = ((map_of (t_budgets s))(agent \<mapsto> b_state b')) j" for j
    using get_mutate(2) [of m agent s v "b_state b'" j] st by (simp add: get_budget_table f)
  then have g: "map_of (t_budgets s') = (map_of (t_budgets s))(agent \<mapsto> b_state b')" by (rule ext)
  have "bindP (on_store (mutate_budget ops agent m)) (\<lambda>result. bindP (invalidate agent) (\<lambda>_. retP result)) (s, c)
      = (Inr v, (s', AList.delete agent c))"
    by (simp add: bindP_def on_store_def invalidate_def f)
  with g mutate_writes [of agent m s] f show ?thesis by auto
qed

text \<open>What a settlement does to a budget that is stored complete.\<close>

lemma settle_ok:
  assumes run: "settle_owned_reservation ops dflt agent opid token outcome expected now (s, c) = (Inr x, (s', c'))"
    and doc: "map_of (t_budgets s) agent = Some (b_state b)"
  shows "outcome \<in> {''succeeded'', ''failed''}" and "map_of (t_reservations s) (agent, opid) = Some token"
    and "map_of (reserved b) token = Some x" and "case expected of None \<Rightarrow> True | Some e \<Rightarrow> x = e"
    and "map_of (t_budgets s') = (map_of (t_budgets s))(agent \<mapsto> b_state
           (if outcome = ''succeeded'' then snd (b_commit token now b) else snd (b_release token b)))"
    and "\<exists>r. map_of (t_operations s) (agent, opid) = Some r \<and> t_operations s' =
           AList.update (agent, opid) (r\<lparr>op_state := outcome, op_updated := now\<rparr>) (t_operations s)"
    and "\<exists>bs os. s' = s\<lparr>t_budgets := bs, t_operations := os\<rparr>"
proof -
  let ?m = "if outcome = ''succeeded'' then commit_mut dflt c agent token now else release_mut dflt c agent token"
  let ?b = "if outcome = ''succeeded'' then snd (b_commit token now b) else snd (b_release token b)"
  have gd: "get_budget ops agent s = Some (b_state b)" using doc by (simp add: get_budget_table)
  from run obtain ch s1 c1 where out: "outcome \<in> {''succeeded'', ''failed''}"
    and own: "owned_amount ops agent opid token s = Inr x" and exp: "case expected of None \<Rightarrow> True | Some e \<Rightarrow> x = e"
    and bm: "(if outcome = ''succeeded'' then bm_commit ops dflt agent token now
              else bm_release ops dflt agent token) (s, c) = (Inr ch, (s1, c1))"
    and fin: "ledger_finish agent opid outcome now s1 = (Inr (), s')"
    unfolding settle_owned_reservation_def
    by (elim bindP_okE) (auto simp: checkP_ok_iff on_store_iff simp del: checkP_apply)
  from own have res: "map_of (t_reservations s) (agent, opid) = Some token"
    and amt: "map_of (reserved b) token = Some x"
    by (auto simp: owned_amount_def gd bindE_def split: if_splits option.splits sum.splits)
  have "?m (b_state b) = (Inr (Changed True), b_state ?b)"
    using amt by (simp add: commit_mut_complete release_mut_complete b_commit_def b_release_def)
  from bm_mutate_doc [of s agent b ?m, OF doc this, of c] bm
  have s1: "\<exists>rows. s1 = s\<lparr>t_budgets := rows\<rparr>"
    and t1: "map_of (t_budgets s1) = (map_of (t_budgets s))(agent \<mapsto> b_state ?b)"
    by (auto simp: bm_commit_def bm_release_def split: if_splits)
  from finish_ok [OF fin] obtain r where r: "map_of (t_operations s1) (agent, opid) = Some r"
    and s': "s' = s1\<lparr>t_operations := AList.update (agent, opid) (r\<lparr>op_state := outcome, op_updated := now\<rparr>) (t_operations s1)\<rparr>"
    by blast
  from s1 have o1: "t_operations s1 = t_operations s" by auto
  show "outcome \<in> {''succeeded'', ''failed''}" "map_of (t_reservations s) (agent, opid) = Some token"
    "map_of (reserved b) token = Some x" "case expected of None \<Rightarrow> True | Some e \<Rightarrow> x = e" by fact+
  show "map_of (t_budgets s') = (map_of (t_budgets s))(agent \<mapsto> b_state ?b)" using t1 by (simp add: s')
  show "\<exists>r. map_of (t_operations s) (agent, opid) = Some r \<and> t_operations s' =
           AList.update (agent, opid) (r\<lparr>op_state := outcome, op_updated := now\<rparr>) (t_operations s)"
    using r o1 by (auto simp: s')
  show "\<exists>bs os. s' = s\<lparr>t_budgets := bs, t_operations := os\<rparr>" using s1 s' by auto
qed

end

lemma same_budgets: "\<exists>rows. (s :: db) = s\<lparr>t_budgets := rows\<rparr>"
  by (rule exI [of _ "t_budgets s"]) simp

lemma same_approvals: "\<exists>rows. (s :: db) = s\<lparr>t_approvals := rows\<rparr>"
  by (rule exI [of _ "t_approvals s"]) simp

lemma same_audit: "\<exists>rows cap. (s :: db) = s\<lparr>t_audit := rows, t_capacity := cap\<rparr>"
  by (rule exI [of _ "t_audit s"], rule exI [of _ "t_capacity s"]) simp

lemma sqlite_mutate_writes: "\<exists>rows. snd (sqlite_mutate_budget a m s) = s\<lparr>t_budgets := rows\<rparr>"
  using same_budgets by (auto simp: sqlite_mutate_budget_def sql_atomic_def Let_def split: prod.splits sum.splits)

lemma sqlite_consume_writes: "\<exists>rows. snd (sqlite_consume_approval i s) = s\<lparr>t_approvals := rows\<rparr>"
  using same_approvals by (auto simp: sqlite_consume_approval_def sql_atomic_def split: option.splits)

lemma sqlite_update_writes: "\<exists>rows. snd (sqlite_update_approval_status i st s) = s\<lparr>t_approvals := rows\<rparr>"
  using same_approvals by (auto simp: sqlite_update_approval_status_def sql_atomic_def split: option.splits)

text \<open>A chained append writes the audit table and its counters, whichever row insert it uses.\<close>

lemma chained_writes:
  assumes "\<And>e u t. ins e s = (Inr u, t) \<Longrightarrow> \<exists>rows p. t = s\<lparr>t_audit := rows, t_capacity := p\<rparr>"
  shows "\<exists>rows cap. snd (sql_atomic (bindP (getP sqlite_load_audit_head) (\<lambda>row.
       let (seq, prev_hash) = (case row of None \<Rightarrow> (0, GENESIS) | Some l \<Rightarrow> (e_seq l + 1, e_hash l));
           entry = b seq prev_hash
       in bindP (ins entry) (\<lambda>_. retP entry))) s) = s\<lparr>t_audit := rows, t_capacity := cap\<rparr>"
proof -
  obtain seq ph where row: "(case sqlite_load_audit_head s of None \<Rightarrow> (0, GENESIS)
      | Some l \<Rightarrow> (e_seq l + 1, e_hash l)) = (seq, ph)" by (metis surj_pair)
  obtain r t where i: "ins (b seq ph) s = (r, t)" by (metis surj_pair)
  show ?thesis
  proof (cases r)
    case (Inl e)
    with row i same_audit show ?thesis by (simp add: sql_atomic_def bindP_def Let_def)
  next
    case (Inr u)
    with row i assms show ?thesis by (auto simp: sql_atomic_def bindP_def Let_def)
  qed
qed

interpretation sqlite: sql_store "sqlite_ops env esize" for env esize
proof
  show "\<exists>rows. snd (upsert_identity (sqlite_ops env esize) a k v s) = s\<lparr>t_identities := rows\<rparr>" for a k v s
    by (auto simp: sqlite_defs sql_atomic_def)
  show "\<exists>rows. snd (insert_approval (sqlite_ops env esize) p s) = s\<lparr>t_approvals := rows\<rparr>" for p s
    using same_approvals by (auto simp: sqlite_defs sql_atomic_def)
  show "\<exists>rows cap. snd (append_audit_chained (sqlite_ops env esize) b s) = s\<lparr>t_audit := rows, t_capacity := cap\<rparr>"
    for b s
    using chained_writes [of "sqlite_audit_insert esize" s b] sqlite_insert_contract
    by (simp add: sqlite_ops_def sqlite_append_audit_chained_def) blast
qed (auto simp: sqlite_ops_def sqlite_get_budget_def sqlite_mutate_writes sqlite_consume_writes
    sqlite_update_writes)

interpretation pg: sql_store "pg_ops env esize" for env esize
proof
  show "\<exists>rows. snd (upsert_identity (pg_ops env esize) a k v s) = s\<lparr>t_identities := rows\<rparr>" for a k v s
    by (auto simp: pg_defs)
  show "\<exists>rows. snd (insert_approval (pg_ops env esize) p s) = s\<lparr>t_approvals := rows\<rparr>" for p s
    using same_approvals by (auto simp: pg_defs)
  show "\<exists>rows cap. snd (append_audit_chained (pg_ops env esize) b s) = s\<lparr>t_audit := rows, t_capacity := cap\<rparr>"
    for b s
    using chained_writes [of "pg_audit_insert esize" s b] pg_insert_contract
    by (simp add: pg_ops_def pg_append_audit_chained_def) blast
qed (auto simp: pg_ops_def sqlite_get_budget_def sqlite_mutate_writes sqlite_consume_writes
    sqlite_update_writes)

section \<open>Properties of the ledger\<close>

text \<open>An operation is claimed at most once: a claim succeeds only if the operation is not in the ledger, and
  leaves it there as unresolved under its fingerprint; a claim of an operation that is there,
  whatever its state or fingerprint, is refused and changes nothing.\<close>

theorem claim_is_exclusive:
  "case ledger_claim tenant agent opid fp token binding hook stamp s of
     (Inr u, s') \<Rightarrow> map_of (t_operations s) (agent, opid) = None
        \<and> map_of (t_operations s') (agent, opid) = Some \<lparr>op_fingerprint = fp, op_state = ''unknown'', op_updated = stamp\<rparr>
        \<and> (\<exists>e. ledger_claim tenant' agent opid fp' token' binding' hook' stamp' s' = (Inl e, s'))
   | (Inl e, s') \<Rightarrow> s' = s"
proof -
  obtain r s' where r: "ledger_claim tenant agent opid fp token binding hook stamp s = (r, s')" by (metis surj_pair)
  show ?thesis
  proof (cases r)
    case (Inl e)
    with r claim_exn show ?thesis by fastforce
  next
    case (Inr u)
    with r have ok: "ledger_claim tenant agent opid fp token binding hook stamp s = (Inr u, s')" by simp
    from claim_ok [OF ok] claim_present [of s' agent opid _ tenant' fp' token' binding' hook' stamp'] show ?thesis
      by (simp add: ok)
  qed
qed


definition owned_db :: db where
  "owned_db = empty_db\<lparr>t_budgets := [(''a'', b_state (default_budget\<lparr>reserved := [(''t'', 7)]\<rparr>))],
     t_operations := [((''a'', ''op''), \<lparr>op_fingerprint = ''f'', op_state = ''unknown'', op_updated = 1\<rparr>)],
     t_reservations := [((''a'', ''op''), ''t'')]\<rparr>"


end
