(* ===== verification/Audit_Log.thy ===== *)
theory Audit_Log
  imports Identity
begin

text \<open>
  \<^verbatim>\<open>src/governance/audit.py\<close>: the hash-linked audit log over a governance store.

  \<open>H e\<close> is SHA-256 of the canonical JSON of an entry without its own hash, a parameter; where
  tamper evidence is claimed the only assumption on it is that the entries compared do not
  collide.  \<open>is_mem\<close> says whether the store is an \<^verbatim>\<open>InMemoryStore\<close>, in which case the log keeps
  its own list of entries; the legal-hold flag is local to the process.
\<close>

section \<open>Entries and the log\<close>

record audit_fields =
  f_actor :: string
  f_action :: string
  f_source :: string
  f_target :: string
  f_capability :: string
  f_decision :: string
  f_reason :: text_line
  f_cost :: rat

definition compute_hash :: "(audit_entry \<Rightarrow> string) \<Rightarrow> audit_entry \<Rightarrow> string" where
  "compute_hash H e = H (e\<lparr>e_hash := []\<rparr>)"

definition build_entry ::
  "(audit_entry \<Rightarrow> string) \<Rightarrow> audit_fields \<Rightarrow> string \<Rightarrow> int \<Rightarrow> string \<Rightarrow> audit_entry" where
  "build_entry H f now seq prev_hash =
     (let entry = \<lparr>e_seq = seq, e_timestamp = now, e_actor = f_actor f, e_action = f_action f,
        e_source = f_source f, e_target = f_target f, e_capability = f_capability f,
        e_decision = f_decision f, e_reason = f_reason f, e_cost = f_cost f,
        e_prev = prev_hash, e_hash = []\<rparr>
      in entry\<lparr>e_hash := compute_hash H entry\<rparr>)"

record 's audit_log =
  al_store :: 's
  al_hold :: bool
  al_entries :: "audit_entry list"

definition audit_log_init :: "'s store_ops \<Rightarrow> bool \<Rightarrow> 's \<Rightarrow> 's audit_log" where
  "audit_log_init ops is_mem s =
     \<lparr>al_store = s, al_hold = False, al_entries = (if is_mem then load_audit ops s else [])\<rparr>"

definition on_log_store :: "('s, 'a) prog \<Rightarrow> ('s audit_log, 'a) prog" where
  "on_log_store m l = (case m (al_store l) of (r, s') \<Rightarrow> (r, l\<lparr>al_store := s'\<rparr>))"

definition audit_record ::
  "'s store_ops \<Rightarrow> bool \<Rightarrow> (audit_entry \<Rightarrow> string) \<Rightarrow> string \<Rightarrow> audit_fields \<Rightarrow> ('s audit_log, audit_entry) prog" where
  "audit_record ops is_mem H now f =
     bindP (on_log_store (append_audit_chained ops (build_entry H f now))) (\<lambda>entry.
     bindP (putP (\<lambda>l. if is_mem then l\<lparr>al_entries := al_entries l @ [entry]\<rparr> else l)) (\<lambda>_.
     retP entry))"

definition audit_entries :: "'s store_ops \<Rightarrow> bool \<Rightarrow> 's audit_log \<Rightarrow> audit_entry list" where
  "audit_entries ops is_mem l = (if is_mem then al_entries l else load_audit ops (al_store l))"

definition log_count :: "'s store_ops \<Rightarrow> 's audit_log \<Rightarrow> int" where
  "log_count ops l = audit_count ops (al_store l)"

section \<open>Verification\<close>

definition starts_at_genesis :: "audit_entry list \<Rightarrow> bool" where
  "starts_at_genesis records \<longleftrightarrow> records = [] \<or> Min (e_seq ` set records) = 0"

fun verify_loop :: "(audit_entry \<Rightarrow> string) \<Rightarrow> string \<Rightarrow> int \<Rightarrow> audit_entry list \<Rightarrow> bool" where
  "verify_loop H prev_hash prev_seq [] \<longleftrightarrow> True"
| "verify_loop H prev_hash prev_seq (rec # recs) \<longleftrightarrow>
     (if e_seq rec \<noteq> prev_seq + 1 \<or> e_prev rec \<noteq> prev_hash then False
      else if compute_hash H rec \<noteq> e_hash rec then False
      else verify_loop H (e_hash rec) (e_seq rec) recs)"

definition verify_chain :: "(audit_entry \<Rightarrow> string) \<Rightarrow> audit_entry list \<Rightarrow> bool \<Rightarrow> bool" where
  "verify_chain H records require_genesis \<longleftrightarrow>
     (let ordered = sort_key e_seq records in
      if ordered = [] then True
      else if require_genesis \<and> (e_seq (hd ordered) \<noteq> 0 \<or> e_prev (hd ordered) \<noteq> GENESIS) then False
      else verify_loop H (e_prev (hd ordered)) (e_seq (hd ordered) - 1) ordered)"

definition verify_durable ::
  "'s store_ops \<Rightarrow> string \<Rightarrow> (audit_entry \<Rightarrow> string) \<Rightarrow> 's audit_log \<Rightarrow> bool" where
  "verify_durable ops env H l =
     (let records = load_audit ops (al_store l) in
      if is_prod env then verify_chain H records True
      else verify_chain H records (starts_at_genesis records))"

definition verify_integrity ::
  "'s store_ops \<Rightarrow> bool \<Rightarrow> string \<Rightarrow> (audit_entry \<Rightarrow> string) \<Rightarrow> 's audit_log \<Rightarrow> bool" where
  "verify_integrity ops is_mem env H l =
     (if \<not> is_mem then verify_durable ops env H l
      else verify_chain H (al_entries l) (starts_at_genesis (al_entries l)))"

section \<open>Checkpoints\<close>

definition head_hash :: "'s store_ops \<Rightarrow> 's audit_log \<Rightarrow> string" where
  "head_hash ops l = (case load_audit_head ops (al_store l) of None \<Rightarrow> GENESIS | Some h \<Rightarrow> e_hash h)"

definition checkpoint_payload :: "int \<Rightarrow> string \<Rightarrow> string" where
  "checkpoint_payload seq head =
     encode (''agentbridge-audit-checkpoint:'' @ int_text seq @ '':'' @ head)"

record checkpoint =
  ck_seq :: "int option"
  ck_head :: "string option"
  ck_public :: "string option"
  ck_signature :: "string option"

definition make_checkpoint ::
  "'s store_ops \<Rightarrow> (string \<Rightarrow> string res) \<Rightarrow> string \<Rightarrow> 's audit_log \<Rightarrow> checkpoint res" where
  "make_checkpoint ops sign public_hex l =
     (let record = load_audit_head ops (al_store l);
          seq = (case record of None \<Rightarrow> 0 | Some h \<Rightarrow> e_seq h + 1);
          head = (case record of None \<Rightarrow> GENESIS | Some h \<Rightarrow> e_hash h)
      in bindE (sign (checkpoint_payload seq head)) (\<lambda>sg.
           Inr \<lparr>ck_seq = Some seq, ck_head = Some head, ck_public = Some public_hex,
                ck_signature = Some (to_hex sg)\<rparr>))"

definition verify_checkpoint :: "crypto \<Rightarrow> checkpoint \<Rightarrow> bool" where
  "verify_checkpoint C ck =
     (case (ck_public ck, ck_seq ck, ck_head ck, ck_signature ck) of
        (Some public_hex, Some seq, Some head, Some signature_hex) \<Rightarrow>
          (case (fromhex public_hex, fromhex signature_hex) of
             (Some pub, Some sg) \<Rightarrow> length pub = 32 \<and> ed_verify C pub sg (checkpoint_payload seq head)
           | _ \<Rightarrow> False)
      | _ \<Rightarrow> False)"

section \<open>Retention\<close>

definition set_legal_hold :: "bool \<Rightarrow> ('s audit_log, unit) prog" where
  "set_legal_hold on = putP (\<lambda>l. l\<lparr>al_hold := on\<rparr>)"

definition truncate_before :: "'s store_ops \<Rightarrow> string \<Rightarrow> int \<Rightarrow> ('s audit_log, int) prog" where
  "truncate_before ops env seq =
     (if is_prod env
      then raiseP PermissionError ''production audit deletion requires durable legal holds and trusted checkpoints''
      else if seq \<le> 0 then retP 0
      else bindP (getP al_hold) (\<lambda>hold.
        if hold then retP 0
        else bindP (on_log_store (truncate_audit_before ops seq)) (\<lambda>removed.
             bindP (putP (\<lambda>l. if removed > 0 then l\<lparr>al_entries := filter (\<lambda>e. e_seq e \<ge> seq) (al_entries l)\<rparr> else l)) (\<lambda>_.
             retP removed))))"

section \<open>Chains\<close>

text \<open>A retained history is intact: it verifies from its own first entry on.\<close>

definition chain_ok :: "(audit_entry \<Rightarrow> string) \<Rightarrow> audit_entry list \<Rightarrow> bool" where
  "chain_ok H es \<longleftrightarrow> (case es of [] \<Rightarrow> True | e # _ \<Rightarrow> verify_loop H (e_prev e) (e_seq e - 1) es)"

definition from_genesis :: "audit_entry list \<Rightarrow> bool" where
  "from_genesis es \<longleftrightarrow> (case es of [] \<Rightarrow> True | e # _ \<Rightarrow> e_seq e = 0 \<and> e_prev e = GENESIS)"

lemma verify_loop_append:
  "verify_loop H p n (xs @ ys) \<longleftrightarrow> verify_loop H p n xs \<and>
     (if xs = [] then verify_loop H p n ys else verify_loop H (e_hash (last xs)) (e_seq (last xs)) ys)"
  by (induction xs arbitrary: p n) auto

lemma verify_loop_seq:
  "verify_loop H p n es \<Longrightarrow> i < length es \<Longrightarrow> e_seq (es ! i) = n + 1 + int i"
proof (induction es arbitrary: p n i)
  case (Cons e es)
  then show ?case by (cases i) (auto split: if_splits)
qed simp

lemma verify_loop_sorted: "verify_loop H p n es \<Longrightarrow> sorted (map e_seq es)"
  by (auto simp: sorted_iff_nth_mono verify_loop_seq)

lemma chain_ok_ascending: "chain_ok H es \<Longrightarrow> sorted (map e_seq es)"
  by (cases es) (auto simp: chain_ok_def simp del: verify_loop.simps list.map(2) dest: verify_loop_sorted)

lemma chain_ok_sorted: "chain_ok H es \<Longrightarrow> sort_key e_seq es = es"
  by (intro sort_key_id_if_sorted chain_ok_ascending)

lemma chain_ok_Min: "chain_ok H es \<Longrightarrow> es \<noteq> [] \<Longrightarrow> Min (e_seq ` set es) = e_seq (hd es)"
proof -
  assume c: "chain_ok H es" and ne: "es \<noteq> []"
  then have "sorted (map e_seq es)" by (intro chain_ok_ascending)
  with ne have "\<forall>e \<in> set es. e_seq (hd es) \<le> e_seq e" by (cases es) auto
  with ne show ?thesis by (intro Min_eqI) auto
qed

lemma verify_chain_iff:
  assumes "sorted (map e_seq es)"
  shows "verify_chain H es g \<longleftrightarrow> chain_ok H es \<and> (g \<longrightarrow> from_genesis es)"
proof -
  from assms have "sort_key e_seq es = es" by (rule sort_key_id_if_sorted)
  then show ?thesis
    by (cases es) (auto simp: verify_chain_def Let_def chain_ok_def from_genesis_def)
qed

text \<open>Extending an intact history by the entry a chained append builds.\<close>

lemma chain_ok_snoc:
  assumes "chain_ok H es" and "e = build_entry H f now (next_seq es) (head_hash_of es)"
  shows "chain_ok H (es @ [e])"
proof -
  have e: "e_seq e = next_seq es" "e_prev e = head_hash_of es" "compute_hash H e = e_hash e"
    using assms(2) by (simp_all add: build_entry_def Let_def compute_hash_def)
  show ?thesis
  proof (cases es)
    case Nil
    with e show ?thesis by (simp add: chain_ok_def)
  next
    case (Cons d ds)
    with assms(1) have "verify_loop H (e_prev d) (e_seq d - 1) es" by (simp add: chain_ok_def)
    moreover have "verify_loop H (e_hash (last es)) (e_seq (last es)) [e]"
      using e Cons by (simp add: next_seq_def head_hash_of_def)
    ultimately have "verify_loop H (e_prev d) (e_seq d - 1) (es @ [e])"
      using Cons unfolding verify_loop_append by simp
    with Cons show ?thesis by (simp add: chain_ok_def)
  qed
qed

lemma from_genesis_snoc:
  "from_genesis es \<Longrightarrow> e = build_entry H f now (next_seq es) (head_hash_of es) \<Longrightarrow> from_genesis (es @ [e])"
  by (cases es) (auto simp: from_genesis_def build_entry_def Let_def next_seq_def head_hash_of_def)

text \<open>Dropping the entries below a sequence number keeps a suffix, and a suffix is intact.\<close>

lemma chain_ok_suffix: "chain_ok H (xs @ ys) \<Longrightarrow> chain_ok H ys"
proof (cases ys)
  case (Cons y ys')
  assume "chain_ok H (xs @ ys)"
  then obtain p n where v: "verify_loop H p n (xs @ ys)"
    by (cases xs) (auto simp: chain_ok_def Cons simp del: verify_loop.simps)
  then obtain q m where "verify_loop H q m (y # ys')"
    unfolding verify_loop_append Cons by (auto simp del: verify_loop.simps split: if_splits)
  then show ?thesis by (auto simp: Cons chain_ok_def split: if_splits)
qed (simp add: chain_ok_def)

lemma sorted_filter_suffix:
  "sorted (map e_seq es) \<Longrightarrow> filter (\<lambda>e. \<not> e_seq e < n) es = dropWhile (\<lambda>e. e_seq e < n) es"
proof (induction es)
  case (Cons e es)
  show ?case
  proof (cases "e_seq e < n")
    case True
    with Cons show ?thesis by simp
  next
    case False
    with Cons.prems have "\<forall>d \<in> set es. \<not> e_seq d < n" by auto
    with False show ?thesis by (simp add: filter_id_conv)
  qed
qed simp

lemma chain_ok_truncate: "chain_ok H es \<Longrightarrow> chain_ok H (filter (\<lambda>e. \<not> e_seq e < n) es)"
proof -
  assume c: "chain_ok H es"
  then have "sorted (map e_seq es)" by (rule chain_ok_ascending)
  then have "filter (\<lambda>e. \<not> e_seq e < n) es = dropWhile (\<lambda>e. e_seq e < n) es"
    by (rule sorted_filter_suffix)
  with c show ?thesis using chain_ok_suffix [of H "takeWhile (\<lambda>e. e_seq e < n) es"] by simp
qed

section \<open>Tamper evidence\<close>

definition collision_free :: "(audit_entry \<Rightarrow> string) \<Rightarrow> audit_entry list \<Rightarrow> bool" where
  "collision_free H es \<longleftrightarrow>
     inj_on H ((\<lambda>e. e\<lparr>e_hash := []\<rparr>) ` set es) \<and> (\<forall>e \<in> set es. compute_hash H e \<noteq> GENESIS)"

lemma collision_free_mono: "collision_free H ds \<Longrightarrow> set es \<subseteq> set ds \<Longrightarrow> collision_free H es"
proof -
  assume c: "collision_free H ds" and sub: "set es \<subseteq> set ds"
  from sub have "(\<lambda>e. e\<lparr>e_hash := []\<rparr>) ` set es \<subseteq> (\<lambda>e. e\<lparr>e_hash := []\<rparr>) ` set ds" by (rule image_mono)
  with c sub show ?thesis unfolding collision_free_def by (blast intro: inj_on_subset)
qed

lemma entry_eqI:
  assumes "e\<lparr>e_hash := []\<rparr> = d\<lparr>e_hash := []\<rparr>" and "e_hash e = e_hash d"
  shows "(e :: audit_entry) = d"
  using assms by (cases e, cases d) simp

text \<open>Two intact histories from genesis with the same head hash are the same history.\<close>

lemma verify_loop_snoc:
  "verify_loop H GENESIS (-1) (xs @ [x]) \<longleftrightarrow> verify_loop H GENESIS (-1) xs \<and>
     e_seq x = next_seq xs \<and> e_prev x = head_hash_of xs \<and> compute_hash H x = e_hash x"
  by (auto simp: verify_loop_append next_seq_def head_hash_of_def)

lemma head_hash_of_snoc [simp]: "head_hash_of (xs @ [x]) = e_hash x" "head_hash_of [] = GENESIS"
  by (simp_all add: head_hash_of_def)

lemma collision_free_eq:
  assumes "collision_free H es" and "x \<in> set es" "z \<in> set es"
    and "compute_hash H x = e_hash x" "compute_hash H z = e_hash z" "e_hash x = e_hash z"
  shows "x = z"
proof (rule entry_eqI)
  have inj: "inj_on H ((\<lambda>e. e\<lparr>e_hash := []\<rparr>) ` set es)" using assms(1) by (simp add: collision_free_def)
  show "x\<lparr>e_hash := []\<rparr> = z\<lparr>e_hash := []\<rparr>"
    by (rule inj_onD [OF inj]) (use assms in \<open>auto simp: compute_hash_def\<close>)
qed fact

lemma collision_free_genesis: "collision_free H es \<Longrightarrow> x \<in> set es \<Longrightarrow> compute_hash H x \<noteq> GENESIS"
  by (simp add: collision_free_def)

lemma verify_loop_head_inj:
  assumes "verify_loop H GENESIS (-1) xs" and "verify_loop H GENESIS (-1) ys"
    and "collision_free H (xs @ ys)" and "head_hash_of xs = head_hash_of ys"
  shows "xs = ys"
  using assms
proof (induction xs arbitrary: ys rule: rev_induct)
  case Nil
  show ?case
  proof (rule ccontr)
    assume "[] \<noteq> ys"
    then obtain zs z where ys: "ys = zs @ [z]" by (metis rev_exhaust)
    with Nil have "compute_hash H z = GENESIS" by (simp add: verify_loop_snoc)
    with Nil(3) ys show False by (simp add: collision_free_genesis [of H "[] @ ys"])
  qed
next
  case (snoc x xs)
  from snoc.prems(1) have x: "verify_loop H GENESIS (-1) xs" "e_prev x = head_hash_of xs" "compute_hash H x = e_hash x"
    unfolding verify_loop_snoc by auto
  have "ys \<noteq> []"
  proof
    assume "ys = []"
    with snoc.prems(4) x(3) have "compute_hash H x = GENESIS" by simp
    with collision_free_genesis [OF snoc.prems(3), of x] show False by simp
  qed
  then obtain zs z where ys: "ys = zs @ [z]" by (metis rev_exhaust)
  from snoc.prems(2) have z: "verify_loop H GENESIS (-1) zs" "e_prev z = head_hash_of zs" "compute_hash H z = e_hash z"
    unfolding ys verify_loop_snoc by auto
  have "e_hash x = e_hash z" using snoc.prems(4) by (simp add: ys)
  from collision_free_eq [OF snoc.prems(3) _ _ x(3) z(3) this] have xz: "x = z" by (simp add: ys)
  have "collision_free H (xs @ zs)" using snoc.prems(3) by (rule collision_free_mono) (auto simp: ys)
  moreover have "head_hash_of xs = head_hash_of zs" using x(2) z(2) unfolding xz by (rule trans [OF sym])
  ultimately have "xs = zs" by (rule snoc.IH [OF x(1) z(1)])
  with xz ys show ?case by simp
qed

section \<open>Runs of the log\<close>

text \<open>
  Workers that share one store; each has its own hold flag and its own list of entries.
\<close>

datatype audit_event =
    Rec nat string audit_fields
  | Trunc nat int
  | Hold nat bool

definition to_log :: "'s \<Rightarrow> bool \<times> audit_entry list \<Rightarrow> 's audit_log" where
  "to_log s w = \<lparr>al_store = s, al_hold = fst w, al_entries = snd w\<rparr>"

fun audit_step ::
  "'s store_ops \<Rightarrow> bool \<Rightarrow> string \<Rightarrow> (audit_entry \<Rightarrow> string) \<Rightarrow> audit_event
     \<Rightarrow> 's \<times> (nat \<Rightarrow> bool \<times> audit_entry list) \<Rightarrow> 's \<times> (nat \<Rightarrow> bool \<times> audit_entry list)" where
  "audit_step ops is_mem env H (Rec w now f) (s, W) =
     (let l = snd (audit_record ops is_mem H now f (to_log s (W w)))
      in (al_store l, W(w := (al_hold l, al_entries l))))"
| "audit_step ops is_mem env H (Trunc w n) (s, W) =
     (let l = snd (truncate_before ops env n (to_log s (W w)))
      in (al_store l, W(w := (al_hold l, al_entries l))))"
| "audit_step ops is_mem env H (Hold w on) (s, W) =
     (let l = snd (set_legal_hold on (to_log s (W w)))
      in (al_store l, W(w := (al_hold l, al_entries l))))"

definition audit_run ::
  "'s store_ops \<Rightarrow> bool \<Rightarrow> string \<Rightarrow> (audit_entry \<Rightarrow> string) \<Rightarrow> audit_event list
     \<Rightarrow> 's \<times> (nat \<Rightarrow> bool \<times> audit_entry list) \<Rightarrow> 's \<times> (nat \<Rightarrow> bool \<times> audit_entry list)" where
  "audit_run ops is_mem env H es c = foldl (\<lambda>c e. audit_step ops is_mem env H e c) c es"

text \<open>An intact history that starts at genesis or has lost a prefix.\<close>

definition history_ok :: "(audit_entry \<Rightarrow> string) \<Rightarrow> string \<Rightarrow> audit_entry list \<Rightarrow> bool" where
  "history_ok H env es \<longleftrightarrow> chain_ok H es \<and> (from_genesis es \<or> (\<not> is_prod env \<and> e_seq (hd es) > 0))"

lemma history_ok_verifies:
  assumes "history_ok H env (load_audit ops (al_store l))"
  shows "verify_durable ops env H l"
proof -
  let ?es = "load_audit ops (al_store l)"
  have c: "chain_ok H ?es" and g: "from_genesis ?es \<or> (\<not> is_prod env \<and> e_seq (hd ?es) > 0)"
    using assms by (auto simp: history_ok_def)
  have "starts_at_genesis ?es \<longrightarrow> from_genesis ?es"
    using g chain_ok_Min [OF c] by (cases ?es) (auto simp: starts_at_genesis_def from_genesis_def)
  with c g show ?thesis
    by (auto simp: verify_durable_def Let_def verify_chain_iff [OF chain_ok_ascending [OF c]])
qed

lemma history_ok_snoc:
  assumes "history_ok H env es" and "e = build_entry H f now (next_seq es) (head_hash_of es)"
  shows "history_ok H env (es @ [e])"
proof -
  have c: "chain_ok H (es @ [e])" using assms chain_ok_snoc [OF _ assms(2)] by (simp add: history_ok_def)
  show ?thesis
  proof (cases "from_genesis es")
    case True
    with c from_genesis_snoc [OF _ assms(2)] show ?thesis by (simp add: history_ok_def)
  next
    case False
    then have "es \<noteq> []" by (auto simp: from_genesis_def)
    with False c assms(1) show ?thesis by (simp add: history_ok_def)
  qed
qed

lemma history_ok_truncate:
  assumes "history_ok H env es" and np: "\<not> is_prod env"
  shows "history_ok H env (filter (\<lambda>e. \<not> e_seq e < n) es)"
proof (cases "es = [] \<or> filter (\<lambda>e. \<not> e_seq e < n) es = []")
  case True
  then show ?thesis by (auto simp: history_ok_def chain_ok_def from_genesis_def)
next
  case False
  let ?f = "filter (\<lambda>e. \<not> e_seq e < n) es"
  have c: "chain_ok H es" and g: "from_genesis es \<or> e_seq (hd es) > 0"
    using assms by (auto simp: history_ok_def)
  have s: "sorted (map e_seq es)" using c by (rule chain_ok_ascending)
  show ?thesis
  proof (cases "e_seq (hd es) < n")
    case True
    have "hd ?f \<in> set ?f" using False by (intro hd_in_set) simp
    then have "\<not> e_seq (hd ?f) < n" by simp
    moreover have "e_seq (hd es) \<ge> 0" using g False by (cases es) (auto simp: from_genesis_def)
    ultimately have "e_seq (hd ?f) > 0" using True by linarith
    with np chain_ok_truncate [OF c] show ?thesis by (simp add: history_ok_def)
  next
    case nf: False
    then have "?f = es" using s False by (cases es) (auto simp: filter_id_conv)
    with assms show ?thesis by simp
  qed
qed

lemma audit_record_store:
  assumes "audit_record ops is_mem H now f l = (r, l')"
  shows "append_audit_chained ops (build_entry H f now) (al_store l) = (r, al_store l')"
proof -
  obtain k s' where k: "append_audit_chained ops (build_entry H f now) (al_store l) = (k, s')"
    by (metis surj_pair)
  with assms show ?thesis
    by (cases k) (auto simp: audit_record_def bindP_def on_log_store_def split: if_splits)
qed

lemma truncate_before_store:
  assumes "truncate_before ops env n l = (r, l')"
  shows "al_store l' = al_store l \<or>
    (\<not> is_prod env \<and> (\<exists>k. truncate_audit_before ops n (al_store l) = (k, al_store l')))"
proof -
  obtain k s' where k: "truncate_audit_before ops n (al_store l) = (k, s')" by (metis surj_pair)
  show ?thesis
  proof (cases "is_prod env \<or> n \<le> 0 \<or> al_hold l")
    case True
    with assms show ?thesis by (auto simp: truncate_before_def split: if_splits)
  next
    case False
    with assms k show ?thesis
      by (cases k) (auto simp: truncate_before_def bindP_def on_log_store_def split: if_splits)
  qed
qed

text \<open>A store whose deletions keep a suffix of the history.\<close>

locale retention_store = audit_store ops audit_inv
  for ops :: "'s store_ops" and audit_inv :: "'s \<Rightarrow> bool" +
  assumes truncate_ok:
      "audit_inv s \<Longrightarrow> truncate_audit_before ops n s = (Inr k, s') \<Longrightarrow>
         audit_inv s' \<and> (load_audit ops s' = load_audit ops s
           \<or> load_audit ops s' = filter (\<lambda>e. \<not> e_seq e < n) (load_audit ops s))"
    and truncate_exn: "truncate_audit_before ops n s = (Inl x, s') \<Longrightarrow> s' = s"
begin

lemma record_ok:
  assumes "audit_inv (al_store l)" and "audit_record ops is_mem H now f l = (Inr e, l')"
  shows "audit_inv (al_store l') \<and> e = build_entry H f now (next_seq (load_audit ops (al_store l)))
            (head_hash_of (load_audit ops (al_store l)))
         \<and> load_audit ops (al_store l') = load_audit ops (al_store l) @ [e]"
proof -
  have sq: "e_seq (build_entry H f now n p) = n" for n p by (simp add: build_entry_def Let_def)
  from append_chained_ok [OF assms(1) sq audit_record_store [OF assms(2)]] show ?thesis .
qed

lemma record_exn: "audit_record ops is_mem H now f l = (Inl x, l') \<Longrightarrow> al_store l' = al_store l"
  by (rule append_chained_exn [OF audit_record_store])

lemma step_history:
  assumes "audit_inv s" and "history_ok H env (load_audit ops s)"
    and st: "audit_step ops is_mem env H e (s, W) = (s', W')"
  shows "audit_inv s' \<and> history_ok H env (load_audit ops s')"
proof (cases e)
  case (Rec w now f)
  obtain r l where rl: "audit_record ops is_mem H now f (to_log s (W w)) = (r, l)" by (metis surj_pair)
  with st Rec have s': "s' = al_store l" by (simp add: Let_def)
  show ?thesis
  proof (cases r)
    case (Inl x)
    with rl record_exn [of is_mem H now f "to_log s (W w)" x l] assms(1,2) show ?thesis
      by (simp add: s' to_log_def)
  next
    case (Inr d)
    have "audit_inv s'" and d: "d = build_entry H f now (next_seq (load_audit ops s)) (head_hash_of (load_audit ops s))"
      and "load_audit ops s' = load_audit ops s @ [d]"
      using record_ok [of "to_log s (W w)" is_mem H now f d l] rl Inr assms(1) by (simp_all add: s' to_log_def)
    with history_ok_snoc [OF assms(2) d] show ?thesis by simp
  qed
next
  case (Trunc w n)
  obtain r l where rl: "truncate_before ops env n (to_log s (W w)) = (r, l)" by (metis surj_pair)
  with st Trunc have s': "s' = al_store l" by (simp add: Let_def)
  have "s' = s \<or> (\<not> is_prod env \<and> (\<exists>k. truncate_audit_before ops n s = (k, s')))"
    using truncate_before_store [OF rl] by (simp add: s' to_log_def)
  then show ?thesis
  proof
    assume "s' = s"
    with assms show ?thesis by simp
  next
    assume "\<not> is_prod env \<and> (\<exists>k. truncate_audit_before ops n s = (k, s'))"
    then obtain k where np: "\<not> is_prod env" and k: "truncate_audit_before ops n s = (k, s')" by blast
    show ?thesis
    proof (cases k)
      case (Inl x)
      from truncate_exn [OF k [unfolded Inl]] assms(1,2) show ?thesis by simp
    next
      case (Inr m)
      from truncate_ok [OF assms(1) k [unfolded Inr]] history_ok_truncate [OF assms(2) np, of n] assms(2)
      show ?thesis by metis
    qed
  qed
next
  case (Hold w on)
  with st assms show ?thesis by (simp add: set_legal_hold_def to_log_def Let_def)
qed

lemma run_history:
  assumes "audit_inv s" and "history_ok H env (load_audit ops s)"
    and "audit_run ops is_mem env H es (s, W) = (s', W')"
  shows "audit_inv s' \<and> history_ok H env (load_audit ops s')"
  using assms
proof (induction es arbitrary: s W)
  case Nil
  then show ?case by (simp add: audit_run_def)
next
  case (Cons e es)
  obtain s1 W1 where st: "audit_step ops is_mem env H e (s, W) = (s1, W1)" by (metis surj_pair)
  from step_history [OF Cons.prems(1,2) st] Cons.prems(3) show ?case
    by (intro Cons.IH [of s1 W1]) (simp_all add: audit_run_def st)
qed

end

locale head_preserving_store = retention_store +
  assumes truncate_keeps_head:
    "audit_inv s \<Longrightarrow> truncate_audit_before ops n s = (Inr k, s') \<Longrightarrow> load_audit_head ops s' = load_audit_head ops s"
begin

text \<open>After a deletion the next entry continues the chain where it stood.\<close>

lemma truncate_continues:
  assumes "audit_inv s" and "truncate_audit_before ops n s = (Inr k, s')"
  shows "next_seq (load_audit ops s') = next_seq (load_audit ops s)
       \<and> head_hash_of (load_audit ops s') = head_hash_of (load_audit ops s)"
proof -
  have "audit_inv s'" using truncate_ok [OF assms] by simp
  from truncate_keeps_head [OF assms] load_head [OF assms(1)] load_head [OF this]
  show ?thesis by (auto simp: next_seq_def head_hash_of_def split: if_splits)
qed

end

section \<open>The three stores\<close>

lemma not_less_seq: "(\<lambda>e. e_seq e \<ge> n) = (\<lambda>e. \<not> e_seq e < n)"
  by (simp add: not_less)

interpretation mem: retention_store mem_ops "\<lambda>_. True"
  by unfold_locales (auto simp: mem_defs prog_simps not_less split: if_splits)

lemma retention_guard_state: "retention_guard s = (r, s') \<Longrightarrow> s' = s"
  by (cases r) (auto simp: retention_guard_def prog_simps split: if_splits)

text \<open>The deletion of both SQL stores: refused, without effect, or a suffix that keeps the head.\<close>

lemma sql_truncate_cases:
  assumes "sqlite_truncate_audit_before env esize n s = (Inr k, s')"
  shows "s' = s \<or> (\<exists>p. s' = s\<lparr>t_audit := filter (\<lambda>e. \<not> e_seq e < n) (t_audit s), t_capacity := p\<rparr>
    \<and> (\<forall>h. sqlite_load_audit_head s = Some h \<longrightarrow> n \<le> e_seq h))"
  using assms
  by (auto simp: sqlite_truncate_audit_before_def prog_simps audit_delete_before_def Let_def
      split: if_splits option.splits dest!: retention_guard_state)

lemma pg_truncate_eq: "pg_truncate_audit_before = sqlite_truncate_audit_before"
  by (intro ext) (simp add: pg_truncate_audit_before_def sqlite_truncate_audit_before_def)

lemma sql_truncate_exn: "sqlite_truncate_audit_before env esize n s = (Inl x, s') \<Longrightarrow> s' = s"
  by (auto simp: sqlite_truncate_audit_before_def prog_simps split: if_splits)

lemma sql_truncate_ok:
  assumes "sql_audit_inv s" and "sqlite_truncate_audit_before env esize n s = (Inr k, s')"
  shows "sql_audit_inv s' \<and> (sqlite_load_audit s' = sqlite_load_audit s
     \<or> sqlite_load_audit s' = filter (\<lambda>e. \<not> e_seq e < n) (sqlite_load_audit s))"
  using sql_truncate_cases [OF assms(2)] assms(1)
  by (auto simp: sql_audit_inv_def sqlite_load_audit_def filter_sort distinct_map_filter)

lemma sql_truncate_head:
  assumes "sqlite_truncate_audit_before env esize n s = (Inr k, s')"
  shows "sqlite_load_audit_head s' = sqlite_load_audit_head s"
  using sql_truncate_cases [OF assms]
proof
  assume "\<exists>p. s' = s\<lparr>t_audit := filter (\<lambda>e. \<not> e_seq e < n) (t_audit s), t_capacity := p\<rparr>
    \<and> (\<forall>h. sqlite_load_audit_head s = Some h \<longrightarrow> n \<le> e_seq h)"
  then have a: "t_audit s' = filter (\<lambda>e. \<not> e_seq e < n) (t_audit s)"
    and h: "\<And>h. sqlite_load_audit_head s = Some h \<Longrightarrow> n \<le> e_seq h" by auto
  let ?es = "sort_key e_seq (t_audit s)"
  have l: "sort_key e_seq (t_audit s') = filter (\<lambda>e. \<not> e_seq e < n) ?es" by (simp add: a filter_sort)
  show ?thesis
  proof (cases "?es = []")
    case True
    with l show ?thesis by (simp add: sqlite_load_audit_head_def Let_def)
  next
    case False
    then obtain ds d where es: "?es = ds @ [d]" by (metis rev_exhaust)
    then have d: "sqlite_load_audit_head s = Some d" by (simp add: sqlite_load_audit_head_def Let_def)
    from h [OF d] l es have "sort_key e_seq (t_audit s') = filter (\<lambda>e. \<not> e_seq e < n) ds @ [d]" by simp
    with d show ?thesis by (simp add: sqlite_load_audit_head_def Let_def)
  qed
qed simp

interpretation sqlite: head_preserving_store "sqlite_ops env esize" sql_audit_inv for env esize
proof
  show "sql_audit_inv s \<Longrightarrow> truncate_audit_before (sqlite_ops env esize) n s = (Inr k, s') \<Longrightarrow>
      sql_audit_inv s' \<and> (load_audit (sqlite_ops env esize) s' = load_audit (sqlite_ops env esize) s
      \<or> load_audit (sqlite_ops env esize) s' = filter (\<lambda>e. \<not> e_seq e < n) (load_audit (sqlite_ops env esize) s))"
    for s n k s' using sql_truncate_ok by (simp add: sqlite_ops_def)
qed (auto simp: sqlite_ops_def dest: sql_truncate_exn sql_truncate_head)

interpretation pg: head_preserving_store "pg_ops env esize" sql_audit_inv for env esize
proof
  show "sql_audit_inv s \<Longrightarrow> truncate_audit_before (pg_ops env esize) n s = (Inr k, s') \<Longrightarrow>
      sql_audit_inv s' \<and> (load_audit (pg_ops env esize) s' = load_audit (pg_ops env esize) s
      \<or> load_audit (pg_ops env esize) s' = filter (\<lambda>e. \<not> e_seq e < n) (load_audit (pg_ops env esize) s))"
    for s n k s' using sql_truncate_ok by (simp add: pg_ops_def pg_truncate_eq)
qed (auto simp: pg_ops_def pg_truncate_eq dest: sql_truncate_exn sql_truncate_head)

section \<open>Checkpoints bind the head\<close>

lemma checkpoint_payload_inj:
  assumes "checkpoint_payload m h = checkpoint_payload n k" shows "m = n \<and> h = k"
proof -
  let ?P = "\<lambda>c. c \<noteq> CHR '':''"
  from assms have e: "int_text m @ '':'' @ h = int_text n @ '':'' @ k"
    unfolding checkpoint_payload_def encode_inj by simp
  have t: "takeWhile ?P (int_text z @ '':'' @ r) = int_text z" for z r
  proof -
    have "\<forall>c \<in> set (int_text z). ?P c" using int_text_no_colon by metis
    then show ?thesis using takeWhile_append2 [of "int_text z" ?P "'':'' @ r"] by simp
  qed
  have "int_text m = int_text n" using arg_cong [OF e, of "takeWhile ?P"] unfolding t .
  with e show ?thesis by (simp add: int_text_inj)
qed

section \<open>Properties of the audit log\<close>

text \<open>C5: Whatever records, deletions and hold changes any number of workers make over one SQL database, the
  stored history verifies afterwards, for every worker, in production and outside it.\<close>

theorem audit_run_verifies:
  "verify_durable (sqlite_ops e esize) env H (to_log (fst (audit_run (sqlite_ops e esize) False env H es (empty_db, W))) w)
   \<and> verify_durable (pg_ops e esize) env H (to_log (fst (audit_run (pg_ops e esize) False env H es (empty_db, W))) w)"
proof -
  have i: "sql_audit_inv empty_db" by (simp add: sql_audit_inv_def empty_db_def empty_tables_def gov_tables.defs)
  have h: "history_ok H env (load_audit (sqlite_ops e esize) empty_db)" "history_ok H env (load_audit (pg_ops e esize) empty_db)"
    by (simp_all add: history_ok_def chain_ok_def from_genesis_def sqlite_ops_def pg_ops_def sqlite_load_audit_def
        empty_db_def empty_tables_def gov_tables.defs)
  obtain s1 W1 s2 W2 where r: "audit_run (sqlite_ops e esize) False env H es (empty_db, W) = (s1, W1)"
    "audit_run (pg_ops e esize) False env H es (empty_db, W) = (s2, W2)" by (metis surj_pair)
  from sqlite.run_history [OF i h(1) r(1)] pg.run_history [OF i h(2) r(2)] show ?thesis
    by (simp add: r history_ok_verifies to_log_def)
qed

lemma verify_chain_genesis:
  assumes "verify_chain H xs True"
  shows "verify_loop H GENESIS (-1) (sort_key e_seq xs)"
  using assms by (cases "sort_key e_seq xs") (auto simp: verify_chain_def Let_def split: if_splits)


definition toy_digest :: "audit_entry \<Rightarrow> string" where
  "toy_digest e = ''h'' @ e_actor e @ e_prev e"

definition demo_fields :: "string \<Rightarrow> audit_fields" where
  "demo_fields a = \<lparr>f_actor = a, f_action = ''route_call'', f_source = ''mcp'', f_target = ''a2a'', f_capability = ''c'',
     f_decision = ''allow'', f_reason = [], f_cost = 1\<rparr>"

definition entry0 :: audit_entry where
  "entry0 = build_entry toy_digest (demo_fields ''a'') ''t'' 0 GENESIS"

definition entry1 :: audit_entry where
  "entry1 = build_entry toy_digest (demo_fields ''b'') ''t'' 1 (e_hash entry0)"

definition forged0 :: audit_entry where
  "forged0 = build_entry toy_digest (demo_fields ''m'') ''t'' 0 GENESIS"

lemmas entry_eval = entry0_def entry1_def forged0_def build_entry_def toy_digest_def demo_fields_def compute_hash_def
  Let_def GENESIS_def






text \<open>C28: A checkpoint made with an identity's key verifies and names the current head; a checkpoint that
  verifies for the same payload names the same sequence number and head.\<close>

theorem checkpoint_roundtrip:
  assumes "crypto_ok C" and "length priv = 32"
    and "make_checkpoint ops (ident_sign C (ident_generate C agent priv)) (ag_pub (ident_generate C agent priv)) l = Inr ck"
  shows "verify_checkpoint C ck \<and> ck_head ck = Some (head_hash ops l)
    \<and> (checkpoint_payload (the (ck_seq ck)) (the (ck_head ck)) = checkpoint_payload m h \<longrightarrow> ck_seq ck = Some m \<and> ck_head ck = Some h)"
proof -
  let ?seq = "case load_audit_head ops (al_store l) of None \<Rightarrow> 0 | Some h \<Rightarrow> e_seq h + 1"
  have ck: "ck = \<lparr>ck_seq = Some ?seq, ck_head = Some (head_hash ops l), ck_public = Some (to_hex (ed_public C priv)),
      ck_signature = Some (to_hex (ed_sign C priv (checkpoint_payload ?seq (head_hash ops l))))\<rparr>"
    using assms(3) by (simp add: make_checkpoint_def ident_sign_def ident_generate_def bindE_def head_hash_def Let_def)
  show ?thesis using assms(1,2) checkpoint_payload_inj by (auto simp: ck verify_checkpoint_def crypto_ok_def)
qed

theorem checkpoint_roundtrip_witness:
  "\<exists>ck. make_checkpoint (sqlite_ops [] (\<lambda>_. 1)) (ident_sign toy_crypto (ident_generate toy_crypto ''a'' demo_priv))
      (ag_pub (ident_generate toy_crypto ''a'' demo_priv)) (to_log (empty_db\<lparr>t_audit := [entry0, entry1]\<rparr>) (False, [])) = Inr ck
    \<and> verify_checkpoint toy_crypto ck \<and> ck_head ck = Some (e_hash entry1)"
proof -
  let ?l = "to_log (empty_db\<lparr>t_audit := [entry0, entry1]\<rparr>) (False, [])" and ?o = "sqlite_ops [] (\<lambda>_. 1)"
  let ?i = "ident_generate toy_crypto ''a'' demo_priv"
  have h: "head_hash ?o ?l = e_hash entry1"
    by (simp add: head_hash_def to_log_def sqlite_ops_def sqlite_load_audit_head_def entry_eval)
  have "\<exists>ck. make_checkpoint ?o (ident_sign toy_crypto ?i) (ag_pub ?i) ?l = Inr ck"
    unfolding make_checkpoint_def Let_def ident_sign_def ident_generate_def bindE_def by simp
  then obtain ck where ck: "make_checkpoint ?o (ident_sign toy_crypto ?i) (ag_pub ?i) ?l = Inr ck" by blast
  have "length demo_priv = 32" by (simp add: demo_priv_def)
  from checkpoint_roundtrip [OF toy_crypto_ok this ck] ck h show ?thesis by metis
qed

end
