(* ===== verification/Py_Repr.thy ===== *)
theory Py_Repr
  imports Py_Json Py_Text
begin

text \<open>
  Python's \<open>str\<close> and \<open>repr\<close> of the JSON-shaped values, as the adapters apply them to request
  identifiers.  The decimal text of a float is the shortest that reads back as the float.
\<close>

section \<open>Floats\<close>

text \<open>The decimal exponent of a positive rational: the largest \<open>k\<close> with \<open>10 ^ k \<le> x\<close>.\<close>

definition log10_floor :: "rat \<Rightarrow> int" where
  "log10_floor x =
     (if x \<ge> 1 then int (length (nat_text (nat \<lfloor>x\<rfloor>))) - 1
      else - int (length (nat_text (nat (\<lceil>1 / x\<rceil> - 1)))))"

text \<open>The \<open>n\<close>-digit decimal nearest to \<open>x\<close>, as an integer number of units \<open>10 ^ (k + 1 - n)\<close>.\<close>

definition nearest_digits :: "rat \<Rightarrow> int \<Rightarrow> nat \<Rightarrow> int" where
  "nearest_digits x k n = round_even (x * power_int 10 (int n - 1 - k))"

fun shortest_from :: "rat \<Rightarrow> int \<Rightarrow> nat \<Rightarrow> nat \<Rightarrow> int \<times> nat" where
  "shortest_from x k n 0 = (nearest_digits x k n, n)"
| "shortest_from x k n (Suc fuel) =
     (if fl (of_int (nearest_digits x k n) * power_int 10 (k + 1 - int n)) = x then (nearest_digits x k n, n)
      else shortest_from x k (n + 1) fuel)"

definition strip_zeros :: "string \<Rightarrow> string" where
  "strip_zeros s = rev (dropWhile (\<lambda>c. c = CHR ''0'') (rev s))"

definition decimal_text :: "string \<Rightarrow> int \<Rightarrow> string" where
  "decimal_text ds decpt =
     (if -4 < decpt \<and> decpt \<le> 16
      then (if decpt \<le> 0 then ''0.'' @ replicate (nat (- decpt)) CHR ''0'' @ ds
            else if int (length ds) \<le> decpt
            then ds @ replicate (nat decpt - length ds) CHR ''0'' @ ''.0''
            else take (nat decpt) ds @ ''.'' @ drop (nat decpt) ds)
      else let e = decpt - 1; t = nat_text (nat \<bar>e\<bar>)
           in take 1 ds @ (if length ds > 1 then ''.'' @ drop 1 ds else [])
              @ ''e'' @ (if e < 0 then ''-'' else ''+'') @ (if length t < 2 then CHR ''0'' # t else t))"

definition float_repr :: "rat \<Rightarrow> string" where
  "float_repr x =
     (if x = 0 then ''0.0''
      else let a = \<bar>x\<bar>; k = log10_floor a; (d, n) = shortest_from a k 1 16;
               ds = nat_text (nat d)
           in (if x < 0 then ''-'' else []) @ decimal_text (strip_zeros ds) (k + 1 + int (length ds) - int n))"

definition pyfloat_repr :: "pyfloat \<Rightarrow> string" where
  "pyfloat_repr x = (case x of Fin q \<Rightarrow> float_repr q | PInf \<Rightarrow> ''inf'' | NInf \<Rightarrow> ''-inf'' | NaN \<Rightarrow> ''nan'')"

section \<open>Strings and containers\<close>

definition printable :: "char \<Rightarrow> bool" where
  "printable c \<longleftrightarrow> (let n = (of_char c :: nat) in (32 \<le> n \<and> n \<le> 126) \<or> (161 \<le> n \<and> n \<noteq> 173))"

definition repr_char :: "char \<Rightarrow> char \<Rightarrow> string" where
  "repr_char q c = (let n = (of_char c :: nat) in
     if c = q \<or> n = 92 then [CHR 0x5C, c]
     else if n = 10 then [CHR 0x5C, CHR ''n'']
     else if n = 13 then [CHR 0x5C, CHR ''r'']
     else if n = 9 then [CHR 0x5C, CHR ''t'']
     else if printable c then [c]
     else [CHR 0x5C, CHR ''x'', hex_digit (n div 16), hex_digit (n mod 16)])"

definition str_repr :: "string \<Rightarrow> string" where
  "str_repr s =
     (let q = (if CHR 0x27 \<in> set s \<and> CHR 0x22 \<notin> set s then CHR 0x22 else CHR 0x27)
      in [q] @ concat (map (repr_char q) s) @ [q])"

fun commas :: "string list \<Rightarrow> string" where
  "commas [] = []"
| "commas [x] = x"
| "commas (x # xs) = x @ '', '' @ commas xs"

fun py_repr :: "json \<Rightarrow> string" where
  "py_repr JNull = ''None''"
| "py_repr (JBool b) = (if b then ''True'' else ''False'')"
| "py_repr (JInt n) = int_text n"
| "py_repr (JFloat x) = pyfloat_repr x"
| "py_repr (JStr s) = str_repr s"
| "py_repr (JArr xs) = ''['' @ commas (map py_repr xs) @ '']''"
| "py_repr (JObj d) = ''{'' @ commas (map (\<lambda>(k, v). str_repr k @ '': '' @ py_repr v) d) @ ''}''"

definition py_str :: "json \<Rightarrow> string" where
  "py_str v = (case v of JStr s \<Rightarrow> s | _ \<Rightarrow> py_repr v)"

lemma py_str_JStr [simp]: "py_str (JStr s) = s"
  by (simp add: py_str_def)

end
