(* ===== verification/Canonical.thy ===== *)
theory Canonical
  imports Py_Json Py_Text Py_Repr "HOL-Library.List_Lexorder" "HOL-Library.Char_ord"
begin

text \<open>
  The canonical call and result every protocol maps to and from, the adapter interface and the
  registry (\<^verbatim>\<open>src/protocols/canonical.py\<close>, \<^verbatim>\<open>base.py\<close>, \<^verbatim>\<open>registry.py\<close>).

  An adapter is the record of its four methods; generated identifiers are arguments.  The
  contract of an adapter whose requests survive a round trip is the locale \<open>faithful_adapter\<close>.
\<close>

section \<open>Calls and results\<close>

record canonical_call =
  cc_capability :: string
  cc_arguments :: "(string \<times> json) list"
  cc_text :: "string option"
  cc_call_id :: string
  cc_source :: "string option"

text \<open>The constructor with the checks of \<^verbatim>\<open>__post_init__\<close>; \<open>JNull\<close> is \<open>None\<close>.\<close>

definition mk_call :: "json \<Rightarrow> json \<Rightarrow> json \<Rightarrow> string \<Rightarrow> string option \<Rightarrow> canonical_call res" where
  "mk_call capability arguments text call_id source =
     (case capability of
        JStr cap \<Rightarrow>
          (case arguments of
             JObj args \<Rightarrow>
               (case text of
                  JNull \<Rightarrow> Inr \<lparr>cc_capability = cap, cc_arguments = args, cc_text = None,
                               cc_call_id = call_id, cc_source = source\<rparr>
                | JStr t \<Rightarrow> Inr \<lparr>cc_capability = cap, cc_arguments = args, cc_text = Some t,
                               cc_call_id = call_id, cc_source = source\<rparr>
                | _ \<Rightarrow> Inl (Exn ValueError ''canonical text must be a string''))
           | _ \<Rightarrow> Inl (Exn ValueError ''canonical arguments must be a JSON object''))
      | _ \<Rightarrow> Inl (Exn ValueError ''canonical capability must be a string''))"

text \<open>A prose rendering of a call.\<close>

fun first_key :: "string list \<Rightarrow> (string \<times> json) list \<Rightarrow> json option" where
  "first_key [] d = None"
| "first_key (k # ks) d = (case map_of d k of Some v \<Rightarrow> Some v | None \<Rightarrow> first_key ks d)"

fun space_join :: "string list \<Rightarrow> string" where
  "space_join [] = []"
| "space_join [x] = x"
| "space_join (x # y # xs) = x @ '' '' @ space_join (y # xs)"

definition best_text :: "canonical_call \<Rightarrow> string" where
  "best_text c =
     (if cc_text c \<noteq> None \<and> cc_text c \<noteq> Some [] then the (cc_text c)
      else case first_key [''text'', ''query'', ''prompt'', ''input'', ''message''] (cc_arguments c) of
        Some v \<Rightarrow> py_str v
      | None \<Rightarrow>
          if cc_arguments c \<noteq> []
          then space_join (map (\<lambda>(k, v). k @ ''='' @ py_str v) (cc_arguments c))
          else cc_capability c)"

record canonical_result =
  cr_content :: "(string \<times> json) list list"
  cr_is_error :: bool
  cr_metadata :: "(string \<times> json) list"

definition result_from_text :: "string \<Rightarrow> bool \<Rightarrow> canonical_result" where
  "result_from_text t err =
     \<lparr>cr_content = [[(''type'', JStr ''text''), (''text'', JStr t)]], cr_is_error = err, cr_metadata = []\<rparr>"

fun join_text :: "string \<Rightarrow> json list \<Rightarrow> string res" where
  "join_text sep [] = Inr []"
| "join_text sep [JStr s] = Inr s"
| "join_text sep (JStr s # x # xs) = bindE (join_text sep (x # xs)) (\<lambda>r. Inr (s @ sep @ r))"
| "join_text sep (_ # xs) = Inl (Exn TypeError ''sequence item: expected str instance'')"

definition result_text :: "canonical_result \<Rightarrow> string res" where
  "result_text r = bindE (join_text '' '' (map (\<lambda>b. jget_or b ''text'' (JStr []))
       (filter (\<lambda>b. jget b ''type'' = JStr ''text'') (cr_content r)))) (\<lambda>t. Inr (py_strip t))"

section \<open>Adapters\<close>

fun type_name :: "json \<Rightarrow> string" where
  "type_name JNull = ''NoneType''"
| "type_name (JBool b) = ''bool''"
| "type_name (JInt n) = ''int''"
| "type_name (JFloat x) = ''float''"
| "type_name (JStr s) = ''str''"
| "type_name (JArr xs) = ''list''"
| "type_name (JObj d) = ''dict''"

definition require_mapping :: "json \<Rightarrow> string \<Rightarrow> string \<Rightarrow> (string \<times> json) list res" where
  "require_mapping wire proto what =
     (case wire of
        JObj d \<Rightarrow> Inr d
      | _ \<Rightarrow> Inl (Exn MalformedWireError
               (proto @ '': expected a JSON object for the '' @ what @ '', got '' @ type_name wire)))"

record adapter =
  to_call :: "string \<Rightarrow> json \<Rightarrow> canonical_call res"
  from_call :: "string \<Rightarrow> string \<Rightarrow> canonical_call \<Rightarrow> json"
  to_result :: "json \<Rightarrow> canonical_result res"
  from_result :: "string \<Rightarrow> canonical_result \<Rightarrow> json res"

section \<open>The registry\<close>

type_synonym registry_map = "(string \<times> adapter) list"

definition reg_register :: "string \<Rightarrow> adapter \<Rightarrow> registry_map \<Rightarrow> registry_map" where
  "reg_register name a reg = AList.update name a reg"

definition reg_protocols :: "registry_map \<Rightarrow> string list" where
  "reg_protocols reg = sort (map fst reg)"

fun name_items :: "string list \<Rightarrow> string" where
  "name_items [] = []"
| "name_items [x] = [CHR 0x27] @ x @ [CHR 0x27]"
| "name_items (x # xs) = [CHR 0x27] @ x @ [CHR 0x27] @ '', '' @ name_items xs"

definition reg_get :: "registry_map \<Rightarrow> string \<Rightarrow> adapter res" where
  "reg_get reg name =
     (case map_of reg name of
        None \<Rightarrow> Inl (Exn KeyError (''Unknown protocol '' @ [CHR 0x27] @ name @ [CHR 0x27] @ ''. Known: [''
                  @ name_items (reg_protocols reg) @ '']''))
      | Some a \<Rightarrow> Inr a)"

definition empty_call :: "canonical_call \<Rightarrow> bool" where
  "empty_call c \<longleftrightarrow> \<not> (cc_capability c \<noteq> [] \<or> (cc_text c \<noteq> None \<and> cc_text c \<noteq> Some []) \<or> cc_arguments c \<noteq> [])"

text \<open>\<open>i0\<close> is the generated call identifier, \<open>i1\<close> and \<open>i2\<close> those the destination's form may need.\<close>

definition translate_call ::
  "registry_map \<Rightarrow> string \<Rightarrow> string \<Rightarrow> string \<Rightarrow> json \<Rightarrow> string \<Rightarrow> string \<Rightarrow> json res" where
  "translate_call reg i0 i1 i2 wire src dst =
     bindE (reg_get reg src) (\<lambda>a.
     bindE (to_call a i0 wire) (\<lambda>c.
     if empty_call c
     then Inl (Exn MalformedWireError
            (src @ '': could not extract a capability, arguments, or text from the request''))
     else bindE (reg_get reg dst) (\<lambda>b. Inr (from_call b i1 i2 c))))"

definition translate_result :: "registry_map \<Rightarrow> string \<Rightarrow> json \<Rightarrow> string \<Rightarrow> string \<Rightarrow> json res" where
  "translate_result reg i1 wire src dst =
     bindE (reg_get reg src) (\<lambda>a.
     bindE (to_result a wire) (\<lambda>r.
     bindE (reg_get reg dst) (\<lambda>b. from_result b i1 r)))"

section \<open>Faithful adapters\<close>

text \<open>
  An adapter carries a tool call: rendering a named call and reading it back gives the same
  capability and arguments, for the arguments \<open>ok\<close> admits.
\<close>

definition carries :: "((string \<times> json) list \<Rightarrow> bool) \<Rightarrow> adapter \<Rightarrow> bool" where
  "carries ok b \<longleftrightarrow> (\<forall>c i0 i1 i2. cc_capability c \<noteq> [] \<longrightarrow> ok (cc_arguments c) \<longrightarrow>
     (\<exists>c'. to_call b i0 (from_call b i1 i2 c) = Inr c' \<and>
        cc_capability c' = cc_capability c \<and> cc_arguments c' = cc_arguments c))"

locale faithful_adapter =
  fixes ok :: "(string \<times> json) list \<Rightarrow> bool" and b :: adapter
  assumes carries_calls: "carries ok b"
begin

lemma roundtrip:
  assumes "cc_capability c \<noteq> []" and "ok (cc_arguments c)"
  obtains c' where "to_call b i0 (from_call b i1 i2 c) = Inr c'"
    and "cc_capability c' = cc_capability c" and "cc_arguments c' = cc_arguments c"
  using carries_calls assms unfolding carries_def by blast

text \<open>So whatever translation leads to this protocol, its reader sees the call the sender made.\<close>

lemma translated_call:
  assumes "translate_call reg i0 i1 i2 wire src dst = Inr out" and "map_of reg dst = Some b"
    and "map_of reg src = Some a" and "to_call a i0 wire = Inr c" and "cc_capability c \<noteq> []"
    and "ok (cc_arguments c)"
  shows "\<exists>c'. to_call b j out = Inr c' \<and> cc_capability c' = cc_capability c \<and> cc_arguments c' = cc_arguments c"
proof -
  from assms(1-4) have "out = from_call b i1 i2 c"
    by (auto simp: translate_call_def reg_get_def split: if_splits)
  with roundtrip [OF assms(5,6), of j i1 i2] show ?thesis by metis
qed

end

end
