(* ===== verification/Py_JsonText.thy ===== *)
theory Py_JsonText
  imports Py_Repr "HOL-Library.List_Lexorder" "HOL-Library.Char_ord"
begin

text \<open>
  The JSON text of Python's \<^verbatim>\<open>json\<close> module: \<open>dumps\<close> with the default separators, \<open>dumps_sorted\<close> with
  \<^verbatim>\<open>sort_keys=True\<close>, \<open>dumps_compact\<close> with \<^verbatim>\<open>sort_keys=True, separators=(",", ":")\<close>, all with ASCII
  escapes, and \<open>loads\<close>, the scanner of the standard library.  \<open>dumps_strict\<close> is \<open>dumps_compact\<close> with
  \<^verbatim>\<open>allow_nan=False\<close>.

  \<open>loads\<close> runs on fuel, one unit per value, item or member; the length of the text is enough
  for every text \<open>dumps\<close> writes (\<open>loads_dumps\<close>).  A text with a character past the first 256
  code points lies outside the model of strings and is refused; the interpreter's limits on the
  digits of an integer and on the depth of nesting are not modelled.

  Shown: a text that \<open>dumps\<close> writes is read back as the value (up to the order of keys for the
  sorted forms), hence equal texts mean equal values.
\<close>

section \<open>Writing\<close>

definition bslash :: char where "bslash = CHR 0x5C"

definition quote :: char where "quote = CHR 0x22"

definition json_char :: "char \<Rightarrow> string" where
  "json_char c = (let n = (of_char c :: nat) in
     if n = 34 \<or> n = 92 then [bslash, c]
     else if n = 10 then [bslash, CHR ''n'']
     else if n = 13 then [bslash, CHR ''r'']
     else if n = 9 then [bslash, CHR ''t'']
     else if n = 12 then [bslash, CHR ''f'']
     else if n = 8 then [bslash, CHR ''b'']
     else if 32 \<le> n \<and> n \<le> 126 then [c]
     else [bslash, CHR ''u'', CHR ''0'', CHR ''0'', hex_digit (n div 16), hex_digit (n mod 16)])"

definition json_string :: "string \<Rightarrow> string" where
  "json_string s = quote # concat (map json_char s) @ [quote]"

definition json_float :: "pyfloat \<Rightarrow> string" where
  "json_float x = (case x of Fin q \<Rightarrow> float_repr q | PInf \<Rightarrow> ''Infinity'' | NInf \<Rightarrow> ''-Infinity'' | NaN \<Rightarrow> ''NaN'')"

fun sep_join :: "string \<Rightarrow> string list \<Rightarrow> string" where
  "sep_join sep [] = []"
| "sep_join sep [x] = x"
| "sep_join sep (x # y # xs) = x @ sep @ sep_join sep (y # xs)"

fun dumps_with :: "string \<Rightarrow> string \<Rightarrow> json \<Rightarrow> string" where
  "dumps_with isep ksep JNull = ''null''"
| "dumps_with isep ksep (JBool b) = (if b then ''true'' else ''false'')"
| "dumps_with isep ksep (JInt n) = int_text n"
| "dumps_with isep ksep (JFloat x) = json_float x"
| "dumps_with isep ksep (JStr s) = json_string s"
| "dumps_with isep ksep (JArr xs) = ''['' @ sep_join isep (map (dumps_with isep ksep) xs) @ '']''"
| "dumps_with isep ksep (JObj d) =
     ''{'' @ sep_join isep (map (\<lambda>(k, v). json_string k @ ksep @ dumps_with isep ksep v) d) @ ''}''"

fun sort_json :: "json \<Rightarrow> json" where
  "sort_json (JArr xs) = JArr (map sort_json xs)"
| "sort_json (JObj d) = JObj (sort_key fst (map (\<lambda>(k, v). (k, sort_json v)) d))"
| "sort_json j = j"

definition dumps :: "json \<Rightarrow> string" where
  "dumps j = dumps_with '', '' '': '' j"

definition dumps_sorted :: "json \<Rightarrow> string" where
  "dumps_sorted j = dumps_with '', '' '': '' (sort_json j)"

definition dumps_compact :: "json \<Rightarrow> string" where
  "dumps_compact j = dumps_with '','' '':'' (sort_json j)"

fun finite_json :: "json \<Rightarrow> bool" where
  "finite_json (JFloat x) = (case x of Fin q \<Rightarrow> True | _ \<Rightarrow> False)"
| "finite_json (JArr xs) = list_all finite_json xs"
| "finite_json (JObj d) = list_all (\<lambda>(k, v). finite_json v) d"
| "finite_json _ = True"

definition dumps_strict :: "json \<Rightarrow> string res" where
  "dumps_strict j = (if finite_json j then Inr (dumps_compact j)
     else Inl (Exn ValueError ''Out of range float values are not JSON compliant''))"

section \<open>Reading\<close>

definition skip_ws :: "string \<Rightarrow> string" where
  "skip_ws s = dropWhile (\<lambda>c. (of_char c :: nat) \<in> {9, 10, 13, 32}) s"

definition hex4 :: "char \<Rightarrow> char \<Rightarrow> char \<Rightarrow> char \<Rightarrow> nat option" where
  "hex4 a b c d = (case (hex_val a, hex_val b, hex_val c, hex_val d) of
     (Some w, Some x, Some y, Some z) \<Rightarrow> Some (4096 * w + 256 * x + 16 * y + z) | _ \<Rightarrow> None)"

definition unescape :: "char \<Rightarrow> char option" where
  "unescape e = (let n = (of_char e :: nat) in
     if n = 34 \<or> n = 92 \<or> n = 47 then Some e
     else if n = 110 then Some (CHR 10)
     else if n = 114 then Some (CHR 13)
     else if n = 116 then Some (CHR 9)
     else if n = 102 then Some (CHR 12)
     else if n = 98 then Some (CHR 8) else None)"

text \<open>The rest of a string literal, after its opening quote.\<close>

fun scan_string :: "string \<Rightarrow> (string \<times> string) option" where
  "scan_string [] = None"
| "scan_string (c # cs) =
     (if c = quote then Some ([], cs)
      else if c = bslash then
        (case cs of
           [] \<Rightarrow> None
         | e # es \<Rightarrow>
             if e = CHR ''u'' then
               (case es of
                  h0 # h1 # h2 # h3 # rest \<Rightarrow>
                    (case hex4 h0 h1 h2 h3 of
                       None \<Rightarrow> None
                     | Some n \<Rightarrow> if n < 256 then map_option (\<lambda>(s, r). (char_of n # s, r)) (scan_string rest) else None)
                | _ \<Rightarrow> None)
             else (case unescape e of
                     None \<Rightarrow> None
                   | Some x \<Rightarrow> map_option (\<lambda>(s, r). (x # s, r)) (scan_string es)))
      else if (of_char c :: nat) < 32 then None
      else map_option (\<lambda>(s, r). (c # s, r)) (scan_string cs))"

definition scan_frac :: "string \<Rightarrow> string \<times> string" where
  "scan_frac s = (case s of
     c # d # cs \<Rightarrow> if c = CHR ''.'' \<and> is_digit d
                   then (c # takeWhile is_digit (d # cs), dropWhile is_digit (d # cs)) else ([], s)
   | _ \<Rightarrow> ([], s))"

definition scan_exp :: "string \<Rightarrow> string \<times> string" where
  "scan_exp s = (case s of
     [] \<Rightarrow> ([], s)
   | c # cs \<Rightarrow>
       let sg = (case cs of x # _ \<Rightarrow> if x = CHR ''+'' \<or> x = CHR ''-'' then [x] else [] | [] \<Rightarrow> []);
           ds = drop (length sg) cs
       in if (c = CHR ''e'' \<or> c = CHR ''E'') \<and> takeWhile is_digit ds \<noteq> []
          then (c # sg @ takeWhile is_digit ds, dropWhile is_digit ds) else ([], s))"

definition int_part :: "string \<Rightarrow> string" where
  "int_part body = (case body of [] \<Rightarrow> [] | c # cs \<Rightarrow> if c = CHR ''0'' then [c] else takeWhile is_digit body)"

definition scan_unsigned :: "bool \<Rightarrow> string \<Rightarrow> (json \<times> string) option" where
  "scan_unsigned neg body =
     (let ip = int_part body;
          (fp, r1) = scan_frac (drop (length ip) body);
          (ep, r2) = scan_exp r1
      in if ip = [] then None
         else if fp = [] \<and> ep = []
         then Some (JInt (if neg then - int (digits_val ip) else int (digits_val ip)), r2)
         else map_option (\<lambda>x. (JFloat x, r2)) (float_of_string ((if neg then ''-'' else []) @ ip @ fp @ ep)))"

definition scan_number :: "string \<Rightarrow> (json \<times> string) option" where
  "scan_number s = (case s of [] \<Rightarrow> None
     | c # cs \<Rightarrow> if c = CHR ''-'' then scan_unsigned True cs else scan_unsigned False s)"

definition scan_word :: "string \<Rightarrow> string \<Rightarrow> string option" where
  "scan_word w s = (if take (length w) s = w then Some (drop (length w) s) else None)"

definition scan_atom :: "string \<Rightarrow> (json \<times> string) option" where
  "scan_atom s =
     (case scan_word ''null'' s of Some r \<Rightarrow> Some (JNull, r) | None \<Rightarrow>
     (case scan_word ''true'' s of Some r \<Rightarrow> Some (JBool True, r) | None \<Rightarrow>
     (case scan_word ''false'' s of Some r \<Rightarrow> Some (JBool False, r) | None \<Rightarrow>
     (case scan_word ''NaN'' s of Some r \<Rightarrow> Some (JFloat NaN, r) | None \<Rightarrow>
     (case scan_word ''Infinity'' s of Some r \<Rightarrow> Some (JFloat PInf, r) | None \<Rightarrow>
     (case scan_word ''-Infinity'' s of Some r \<Rightarrow> Some (JFloat NInf, r) | None \<Rightarrow> scan_number s))))))"

definition dict_of :: "(string \<times> json) list \<Rightarrow> (string \<times> json) list" where
  "dict_of ps = foldl (\<lambda>d (k, v). AList.update k v d) [] ps"

fun scan_value :: "nat \<Rightarrow> string \<Rightarrow> (json \<times> string) option"
  and scan_items :: "nat \<Rightarrow> string \<Rightarrow> (json list \<times> string) option"
  and scan_members :: "nat \<Rightarrow> string \<Rightarrow> ((string \<times> json) list \<times> string) option" where
  "scan_value 0 s = None"
| "scan_value (Suc n) s =
     (case s of
        [] \<Rightarrow> None
      | c # cs \<Rightarrow>
          if c = quote then map_option (\<lambda>(x, r). (JStr x, r)) (scan_string cs)
          else if c = CHR ''['' then
            (case skip_ws cs of
               d # ds \<Rightarrow> if d = CHR '']'' then Some (JArr [], ds)
                         else map_option (\<lambda>(xs, r). (JArr xs, r)) (scan_items n (d # ds))
             | [] \<Rightarrow> None)
          else if c = CHR ''{'' then
            (case skip_ws cs of
               d # ds \<Rightarrow> if d = CHR ''}'' then Some (JObj [], ds)
                         else map_option (\<lambda>(ps, r). (JObj (dict_of ps), r)) (scan_members n (d # ds))
             | [] \<Rightarrow> None)
          else scan_atom s)"
| "scan_items 0 s = None"
| "scan_items (Suc n) s =
     (case scan_value n s of
        None \<Rightarrow> None
      | Some (x, r) \<Rightarrow>
          (case skip_ws r of
             [] \<Rightarrow> None
           | c # cs \<Rightarrow>
               if c = CHR '']'' then Some ([x], cs)
               else if c = CHR '','' then map_option (\<lambda>(xs, r). (x # xs, r)) (scan_items n (skip_ws cs))
               else None))"
| "scan_members 0 s = None"
| "scan_members (Suc n) s =
     (case s of
        [] \<Rightarrow> None
      | q # qs \<Rightarrow>
          if q \<noteq> quote then None
          else (case scan_string qs of
                  None \<Rightarrow> None
                | Some (k, r) \<Rightarrow>
                    (case skip_ws r of
                       [] \<Rightarrow> None
                     | c # cs \<Rightarrow>
                         if c \<noteq> CHR '':'' then None
                         else (case scan_value n (skip_ws cs) of
                                 None \<Rightarrow> None
                               | Some (v, r2) \<Rightarrow>
                                   (case skip_ws r2 of
                                      [] \<Rightarrow> None
                                    | e # es \<Rightarrow>
                                        if e = CHR ''}'' then Some ([(k, v)], es)
                                        else if e = CHR '',''
                                        then map_option (\<lambda>(ps, r). ((k, v) # ps, r)) (scan_members n (skip_ws es))
                                        else None)))))"

text \<open>\<^verbatim>\<open>json.loads(s)\<close>; \<open>None\<close> is a \<open>JSONDecodeError\<close>, a \<open>ValueError\<close>.\<close>

definition loads :: "string \<Rightarrow> json option" where
  "loads s = (case scan_value (length s) (skip_ws s) of
     None \<Rightarrow> None
   | Some (j, r) \<Rightarrow> if skip_ws r = [] then Some j else None)"

section \<open>Reading back what was written\<close>

lemma scan_hex:
  assumes "n < 256" and "n \<noteq> 34" "n \<noteq> 92"
  shows "scan_string (bslash # CHR ''u'' # CHR ''0'' # CHR ''0'' # hex_digit (n div 16) # hex_digit (n mod 16) # r)
    = map_option (\<lambda>(s, r). (char_of n # s, r)) (scan_string r)"
proof -
  have z: "hex_val (CHR ''0'') = Some 0" by (simp add: hex_val_def)
  have "n div 16 < 16" using assms(1) by auto
  then have "hex4 (CHR ''0'') (CHR ''0'') (hex_digit (n div 16)) (hex_digit (n mod 16)) = Some n"
    by (simp add: hex4_def z hex_val_digit)
  with assms(1) show ?thesis by (simp add: bslash_def quote_def)
qed

lemma char_codes:
  "char_of (34 :: nat) = CHR 0x22" "char_of (92 :: nat) = CHR 0x5C" "char_of (10 :: nat) = CHR 10" "char_of (13 :: nat) = CHR 13"
  "char_of (9 :: nat) = CHR 9" "char_of (12 :: nat) = CHR 12" "char_of (8 :: nat) = CHR 8"
  by code_simp+

lemma code_char:
  "(of_char c :: nat) = 34 \<Longrightarrow> c = CHR 0x22" "(of_char c :: nat) = 92 \<Longrightarrow> c = CHR 0x5C" "(of_char c :: nat) = 10 \<Longrightarrow> c = CHR 10"
  "(of_char c :: nat) = 13 \<Longrightarrow> c = CHR 13" "(of_char c :: nat) = 9 \<Longrightarrow> c = CHR 9" "(of_char c :: nat) = 12 \<Longrightarrow> c = CHR 12"
  "(of_char c :: nat) = 8 \<Longrightarrow> c = CHR 8"
  by (drule arg_cong [where f = "char_of :: nat \<Rightarrow> char"], simp add: char_codes)+

lemma scan_json_char: "scan_string (json_char c @ r) = map_option (\<lambda>(s, r). (c # s, r)) (scan_string r)"
proof -
  let ?n = "of_char c :: nat"
  consider "?n \<in> {34, 92, 10, 13, 9, 12, 8}" | "?n \<notin> {34, 92, 10, 13, 9, 12, 8}" "32 \<le> ?n" "?n \<le> 126"
    | "?n \<notin> {34, 92, 10, 13, 9, 12, 8}" "\<not> (32 \<le> ?n \<and> ?n \<le> 126)" by blast
  then show ?thesis
  proof cases
    case 1
    then have "c \<in> {CHR 0x22, CHR 0x5C, CHR 10, CHR 13, CHR 9, CHR 12, CHR 8}" by (auto dest!: code_char)
    then show ?thesis by (auto simp: json_char_def bslash_def quote_def unescape_def)
  next
    case 2
    then have "c \<noteq> quote" "c \<noteq> bslash" by (auto simp: quote_def bslash_def)
    with 2 show ?thesis by (simp add: json_char_def Let_def)
  next
    case 3
    then have "json_char c = [bslash, CHR ''u'', CHR ''0'', CHR ''0'', hex_digit (?n div 16), hex_digit (?n mod 16)]"
      by (simp add: json_char_def Let_def)
    with 3 scan_hex [of ?n r] show ?thesis by (simp add: of_char_256)
  qed
qed

lemma scan_json_string: "scan_string (concat (map json_char s) @ quote # r) = Some (s, r)"
proof (induction s)
  case Nil
  then show ?case by simp
next
  case (Cons c s)
  then show ?case by (simp add: scan_json_char)
qed

text \<open>What may follow a value: the end of the text or a character that no number continues with.\<close>

definition delim :: "string \<Rightarrow> bool" where
  "delim r \<longleftrightarrow> (case r of [] \<Rightarrow> True | c # _ \<Rightarrow> c = CHR '','' \<or> c = CHR '']'' \<or> c = CHR ''}'')"

lemma delim_not_digit: "delim r \<Longrightarrow> takeWhile is_digit r = [] \<and> dropWhile is_digit r = r"
  by (cases r) (auto simp: delim_def is_digit_def)

lemma delim_scan: "delim r \<Longrightarrow> scan_frac r = ([], r) \<and> scan_exp r = ([], r)"
  by (cases r) (auto simp: delim_def scan_frac_def scan_exp_def Let_def split: list.splits)

lemma takeWhile_delim:
  "delim r \<Longrightarrow> takeWhile is_digit (s @ r) = takeWhile is_digit s \<and> dropWhile is_digit (s @ r) = dropWhile is_digit s @ r"
  by (induction s) (auto simp: delim_not_digit)

lemma delim_first: "delim r \<Longrightarrow> (case r of [] \<Rightarrow> False | c # _ \<Rightarrow> c = CHR ''-'' \<or> c = CHR ''0'' \<or> c = CHR ''.'' \<or> is_digit c \<or> c = CHR ''+'') = False"
  by (cases r) (auto simp: delim_def is_digit_def)

lemma scan_frac_app:
  assumes "delim r" shows "scan_frac (s @ r) = (fst (scan_frac s), snd (scan_frac s) @ r)"
proof -
  have "scan_frac (c # r) = ([], c # r)" for c
    using assms by (cases r) (auto simp: delim_def scan_frac_def is_digit_def)
  moreover have "scan_frac [c] = ([], [c])" for c by (simp add: scan_frac_def)
  moreover have "scan_frac [] = ([], [])" by (simp add: scan_frac_def)
  moreover have "scan_frac ((c # d # cs) @ r) = (fst (scan_frac (c # d # cs)), snd (scan_frac (c # d # cs)) @ r)" for c d cs
    using takeWhile_delim [OF assms, of cs] by (simp add: scan_frac_def)
  ultimately show ?thesis using delim_scan [OF assms] by (cases s rule: remdups_adj.cases) auto
qed

lemma scan_exp_app:
  assumes "delim r" shows "scan_exp (s @ r) = (fst (scan_exp s), snd (scan_exp s) @ r)"
proof (cases s)
  case Nil
  with delim_scan [OF assms] show ?thesis by (simp add: scan_exp_def)
next
  case (Cons c cs)
  show ?thesis
  proof (cases cs)
    case Nil
    with Cons delim_not_digit [OF assms] assms show ?thesis
      by (cases r) (auto simp: scan_exp_def delim_def)
  next
    case (Cons x xs)
    with takeWhile_delim [OF assms, of cs] takeWhile_delim [OF assms, of xs] \<open>s = c # cs\<close> show ?thesis
      by (simp add: scan_exp_def Let_def)
  qed
qed

lemma int_part_app:
  assumes "delim r" and "int_part body \<noteq> []"
  shows "int_part (body @ r) = int_part body" and "length (int_part body) - length body = 0"
proof -
  have l: "length (takeWhile is_digit body) \<le> length body" by (rule length_takeWhile_le)
  from assms takeWhile_delim [OF assms(1), of body] show "int_part (body @ r) = int_part body"
    by (cases body) (simp_all add: int_part_def)
  from l show "length (int_part body) - length body = 0" by (cases body) (auto simp: int_part_def)
qed

lemma scan_unsigned_app:
  assumes "scan_unsigned neg s = Some (v, [])" and r: "delim r"
  shows "scan_unsigned neg (s @ r) = Some (v, r)"
proof -
  have ne: "int_part s \<noteq> []" using assms(1) by (auto simp: scan_unsigned_def Let_def split: prod.splits)
  note a = int_part_app [OF r ne]
  from assms(1) ne show ?thesis
    by (auto simp: scan_unsigned_def Let_def a scan_frac_app [OF r] scan_exp_app [OF r] split: prod.splits if_splits)
qed

lemma scan_number_app: "scan_number s = Some (v, []) \<Longrightarrow> delim r \<Longrightarrow> scan_number (s @ r) = Some (v, r)"
  by (cases s) (auto simp: scan_number_def scan_unsigned_app [of _ "_ # _", simplified] scan_unsigned_app split: if_splits)

lemma hd_nat_text: "0 < m \<Longrightarrow> hd (nat_text m) \<noteq> CHR ''0''"
proof (induction m rule: nat_text.induct)
  case (1 m)
  have "char_of (48 + m) \<noteq> CHR ''0''" if "m < 10"
  proof
    assume "char_of (48 + m) = CHR ''0''"
    then have "(of_char (char_of (48 + m) :: char) :: nat) = of_char (CHR ''0'')" by simp
    with that \<open>0 < m\<close> show False by (simp add: of_char_digit)
  qed
  with 1 show ?case using nat_text_digits [of "m div 10"] by (subst nat_text.simps) auto
qed

lemma int_part_nat_text: "int_part (nat_text n) = nat_text n"
proof (cases "n = 0")
  case True
  moreover have "char_of (48 :: nat) = CHR ''0''" by code_simp
  ultimately show ?thesis by (simp add: nat_text.simps [of 0] int_part_def)
next
  case False
  have "takeWhile is_digit (nat_text n) = nat_text n"
    using nat_text_digits [of n] by (simp add: takeWhile_eq_all_conv list_all_iff)
  with hd_nat_text [of n] False show ?thesis using nat_text_digits [of n]
    by (cases "nat_text n") (auto simp: int_part_def)
qed

lemma scan_int_text: "scan_number (int_text z) = Some (JInt z, [])"
proof -
  have e: "scan_frac [] = ([], [])" "scan_exp [] = ([], [])" by (simp_all add: scan_frac_def scan_exp_def)
  have ne: "nat_text n \<noteq> []" for n using nat_text_digits by blast
  have u: "scan_unsigned neg (nat_text n) = Some (JInt (if neg then - int n else int n), [])" for neg n
    by (simp add: scan_unsigned_def int_part_nat_text e Let_def ne)
  have "nat_text n = c # cs \<Longrightarrow> c \<noteq> CHR ''-''" for n c cs using nat_text_no_sign [of n] by auto
  moreover have "scan_unsigned False (c # cs) = Some (JInt z, [])" if "nat_text (nat z) = c # cs" "\<not> z < 0" for c cs
    using u [of False "nat z"] that by simp
  ultimately show ?thesis using u [of True "nat (- z)"]
    by (cases "z < 0"; cases "nat_text (nat z)") (auto simp: scan_number_def int_text_def ne)
qed

definition float_ok :: "pyfloat \<Rightarrow> bool" where
  "float_ok x = (case x of Fin q \<Rightarrow> scan_number (float_repr q) = Some (JFloat (Fin q), []) | _ \<Rightarrow> True)"

text \<open>The values a dictionary of Python can hold: keys are unique, and floats are read back from their text.\<close>

fun json_ok :: "json \<Rightarrow> bool" where
  "json_ok (JFloat x) = float_ok x"
| "json_ok (JArr xs) = list_all json_ok xs"
| "json_ok (JObj d) = (distinct (map fst d) \<and> list_all (\<lambda>(k, v). json_ok v) d)"
| "json_ok _ = True"

lemma scan_number_first:
  assumes "scan_number s = Some x"
  obtains c cs where "s = c # cs" and "is_digit c \<or> c = CHR ''-'' \<and> (\<exists>d ds. cs = d # ds \<and> is_digit d)"
proof -
  have d: "\<exists>c cs. b = c # cs \<and> is_digit c" if "int_part b \<noteq> []" for b
    using that by (cases b) (auto simp: int_part_def is_digit_def split: if_splits)
  have u: "\<exists>c cs. b = c # cs \<and> is_digit c" if "scan_unsigned neg b = Some y" for b neg y
    by (rule d) (use that in \<open>auto simp: scan_unsigned_def Let_def split: prod.splits\<close>)
  show thesis
  proof (cases s)
    case Nil
    with assms show thesis by (simp add: scan_number_def)
  next
    case (Cons c cs)
    show thesis
    proof (cases "c = CHR ''-''")
      case True
      with assms Cons have "scan_unsigned True cs = Some x" by (simp add: scan_number_def)
      from u [OF this] True show thesis by (intro that [OF Cons]) blast
    next
      case False
      with assms Cons have "scan_unsigned False s = Some x" by (simp add: scan_number_def)
      from u [OF this] Cons show thesis by (intro that [OF Cons]) blast
    qed
  qed
qed

lemma scan_word_simps [simp]:
  "scan_word [] s = Some s" "scan_word (a # w) [] = None"
  "scan_word (a # w) (c # cs) = (if c = a then scan_word w cs else None)"
  by (simp_all add: scan_word_def)

lemma digit_ne:
  "is_digit c \<Longrightarrow> c \<noteq> CHR ''n'' \<and> c \<noteq> CHR ''t'' \<and> c \<noteq> CHR ''f'' \<and> c \<noteq> CHR ''N'' \<and> c \<noteq> CHR ''I'' \<and> c \<noteq> CHR ''-''"
  by (auto simp: is_digit_def)

lemma scan_number_atom:
  assumes "scan_number s = Some x" shows "scan_atom s = Some x"
proof (rule scan_number_first [OF assms])
  fix c cs assume s: "s = c # cs" and c: "is_digit c \<or> c = CHR ''-'' \<and> (\<exists>d ds. cs = d # ds \<and> is_digit d)"
  from c have ne: "c \<noteq> CHR ''n''" "c \<noteq> CHR ''t''" "c \<noteq> CHR ''f''" "c \<noteq> CHR ''N''" "c \<noteq> CHR ''I''"
    using digit_ne [of c] by auto
  have "scan_word ''-Infinity'' s = None"
  proof (cases "c = CHR ''-''")
    case True
    with c obtain d ds where "cs = d # ds" "is_digit d" using digit_ne by blast
    with digit_ne [of d] show ?thesis by (simp add: s)
  qed (simp add: s)
  moreover have "scan_word ''null'' s = None" "scan_word ''true'' s = None" "scan_word ''false'' s = None"
    "scan_word ''NaN'' s = None" "scan_word ''Infinity'' s = None" using ne by (simp_all add: s)
  ultimately show ?thesis using assms by (simp add: scan_atom_def)
qed

lemma words_scanned:
  "scan_atom (''null'' @ r) = Some (JNull, r)" "scan_atom (''true'' @ r) = Some (JBool True, r)"
  "scan_atom (''false'' @ r) = Some (JBool False, r)" "scan_atom (''NaN'' @ r) = Some (JFloat NaN, r)"
  "scan_atom (''Infinity'' @ r) = Some (JFloat PInf, r)" "scan_atom (''-Infinity'' @ r) = Some (JFloat NInf, r)"
  by (simp_all add: scan_atom_def)

lemma number_scanned:
  assumes "scan_number s = Some (v, [])" and "delim r"
  shows "scan_atom (s @ r) = Some (v, r)"
  by (rule scan_number_atom) (rule scan_number_app [OF assms])

text \<open>The first character of the text of a value.\<close>

definition value_start :: "char \<Rightarrow> bool" where
  "value_start c \<longleftrightarrow> is_digit c \<or> c \<in> {CHR ''-'', CHR ''n'', CHR ''t'', CHR ''f'', CHR ''N'', CHR ''I'', quote, CHR ''['', CHR ''{''}"

lemma dumps_start:
  assumes "json_ok j" shows "\<exists>c cs. dumps_with isep ksep j = c # cs \<and> value_start c"
proof -
  have n: "\<exists>c cs. s = c # cs \<and> value_start c" if "scan_number s = Some x" for s x
    by (rule scan_number_first [OF that]) (auto simp: value_start_def)
  show ?thesis
  proof (cases j)
    case (JInt z)
    then show ?thesis using n [OF scan_int_text] by simp
  next
    case (JFloat x)
    then show ?thesis using assms n
      by (cases x) (auto simp: json_float_def float_ok_def, auto simp: value_start_def)
  qed (auto simp: value_start_def json_string_def)
qed

lemma start_not_ws: "value_start c \<Longrightarrow> skip_ws (c # cs) = c # cs"
  by (auto simp: value_start_def skip_ws_def is_digit_def quote_def)

lemma start_no_close: "value_start c \<Longrightarrow> c \<noteq> CHR '']'' \<and> c \<noteq> CHR ''}''"
  by (auto simp: value_start_def is_digit_def quote_def)

text \<open>The fuel a value needs.\<close>

fun jfuel :: "json \<Rightarrow> nat" where
  "jfuel (JArr xs) = 1 + foldr (\<lambda>x n. 1 + max (jfuel x) n) xs 0"
| "jfuel (JObj d) = 1 + foldr (\<lambda>(k, v) n. 1 + max (jfuel v) n) d 0"
| "jfuel j = 1"

definition reads :: "(json \<Rightarrow> string) \<Rightarrow> json \<Rightarrow> bool" where
  "reads D x \<longleftrightarrow> (\<exists>c cs. D x = c # cs \<and> value_start c)
     \<and> (\<forall>n r. jfuel x \<le> n \<longrightarrow> delim r \<longrightarrow> scan_value n (D x @ r) = Some (x, r))"

lemma reads_start: "reads D x \<Longrightarrow> skip_ws (D x @ r) = D x @ r"
  by (auto simp: reads_def start_not_ws)

lemma skip_sep:
  assumes "isep = '','' \<or> isep = '', ''"
  shows "\<exists>w. isep = CHR '','' # w \<and> (\<forall>s. skip_ws (w @ s) = skip_ws s)"
  using assms by (auto simp: skip_ws_def)

lemma skip_ksep:
  assumes "ksep = '':'' \<or> ksep = '': ''"
  shows "\<exists>w. ksep = CHR '':'' # w \<and> (\<forall>s. skip_ws (w @ s) = skip_ws s)"
  using assms by (auto simp: skip_ws_def)

lemma skip_close [simp]:
  "skip_ws (CHR '','' # s) = CHR '','' # s" "skip_ws (CHR '']'' # s) = CHR '']'' # s"
  "skip_ws (CHR ''}'' # s) = CHR ''}'' # s" "skip_ws (CHR '':'' # s) = CHR '':'' # s" "skip_ws (quote # s) = quote # s"
  by (simp_all add: skip_ws_def quote_def)

lemma delim_close [simp]: "delim (CHR '','' # s)" "delim (CHR '']'' # s)" "delim (CHR ''}'' # s)" "delim []"
  by (simp_all add: delim_def)

lemma scan_items_join:
  assumes sep: "isep = '','' \<or> isep = '', ''" and "\<forall>x \<in> set xs. reads D x" and "xs \<noteq> []"
    and "foldr (\<lambda>x n. 1 + max (jfuel x) n) xs 0 \<le> n"
  shows "scan_items n (sep_join isep (map D xs) @ CHR '']'' # r) = Some (xs, r)"
  using assms(2-4)
proof (induction xs arbitrary: n)
  case Nil
  then show ?case by simp
next
  case (Cons x xs)
  then obtain m where n: "n = Suc m" by (cases n) auto
  have x: "scan_value m (D x @ s) = Some (x, s)" if "delim s" for s
    using Cons.prems n that by (auto simp: reads_def)
  show ?case
  proof (cases xs)
    case Nil
    with n x [of "CHR '']'' # r"] show ?thesis by simp
  next
    case (Cons y ys)
    obtain w where w: "isep = CHR '','' # w" "\<And>s. skip_ws (w @ s) = skip_ws s" using skip_sep [OF sep] by blast
    have "\<exists>u. sep_join isep (map D xs) = D y @ u" using Cons by (cases ys) auto
    then obtain u where u: "sep_join isep (map D xs) = D y @ u" ..
    have "reads D y" using Cons.prems Cons by simp
    then have s: "skip_ws (sep_join isep (map D xs) @ CHR '']'' # r) = sep_join isep (map D xs) @ CHR '']'' # r"
      by (simp add: u reads_start)
    have "scan_items m (sep_join isep (map D xs) @ CHR '']'' # r) = Some (xs, r)"
      using Cons.IH [of m] Cons.prems n Cons by simp
    with x [of "CHR '','' # w @ sep_join isep (map D xs) @ CHR '']'' # r"] w s n Cons show ?thesis by simp
  qed
qed

lemma scan_members_join:
  assumes sep: "isep = '','' \<or> isep = '', ''" and ksep: "ksep = '':'' \<or> ksep = '': ''"
    and "\<forall>(k, v) \<in> set d. reads D v" and "d \<noteq> []"
    and "foldr (\<lambda>(k, v) n. 1 + max (jfuel v) n) d 0 \<le> n"
  shows "scan_members n (sep_join isep (map (\<lambda>(k, v). json_string k @ ksep @ D v) d) @ CHR ''}'' # r) = Some (d, r)"
  using assms(3-5)
proof (induction d arbitrary: n)
  case Nil
  then show ?case by simp
next
  case (Cons p d)
  obtain k v where p: "p = (k, v)" by (cases p)
  let ?J = "\<lambda>d. sep_join isep (map (\<lambda>(k, v). json_string k @ ksep @ D v) d)"
  from Cons.prems obtain m where n: "n = Suc m" by (cases n) (auto simp: p)
  obtain w where w: "isep = CHR '','' # w" "\<And>s. skip_ws (w @ s) = skip_ws s" using skip_sep [OF sep] by blast
  obtain z where z: "ksep = CHR '':'' # z" "\<And>s. skip_ws (z @ s) = skip_ws s" using skip_ksep [OF ksep] by blast
  have x: "scan_value m (skip_ws (z @ D v @ s)) = Some (v, s)" if "delim s" for s
    using Cons.prems n that reads_start [of D v s] by (auto simp: reads_def p z(2))
  show ?case
  proof (cases d)
    case Nil
    with n x [of "CHR ''}'' # r"] show ?thesis by (simp add: p json_string_def scan_json_string z(1))
  next
    case (Cons q e)
    have s: "skip_ws (?J d @ CHR ''}'' # r) = ?J d @ CHR ''}'' # r"
      using Cons by (cases e; cases q) (simp_all add: json_string_def)
    have "scan_members m (?J d @ CHR ''}'' # r) = Some (d, r)"
      using Cons.IH [of m] Cons.prems n Cons p by simp
    with x [of "CHR '','' # w @ ?J d @ CHR ''}'' # r"] w s n Cons show ?thesis
      by (simp add: p json_string_def scan_json_string z(1))
  qed
qed

lemma dict_of_distinct: "distinct (map fst ps) \<Longrightarrow> dict_of ps = ps"
proof -
  have "foldl (\<lambda>d (k, v). AList.update k v d) acc ps = acc @ ps"
    if "distinct (map fst (acc @ ps))" for acc
    using that
  proof (induction ps arbitrary: acc)
    case Nil
    then show ?case by simp
  next
    case (Cons p ps)
    obtain k v where p: "p = (k, v)" by (cases p)
    with Cons.prems have "k \<notin> fst ` set acc" by auto
    then have "AList.update k v acc = acc @ [p]" by (simp add: update_absent p)
    with Cons.IH [of "acc @ [p]"] Cons.prems show ?case by (simp add: p)
  qed
  from this [of "[]"] show "distinct (map fst ps) \<Longrightarrow> dict_of ps = ps" by (simp add: dict_of_def)
qed

lemma json_ok_items:
  "json_ok (JArr xs) \<Longrightarrow> x \<in> set xs \<Longrightarrow> json_ok x" "json_ok (JObj d) \<Longrightarrow> (k, v) \<in> set d \<Longrightarrow> json_ok v"
  by (auto simp: list_all_iff)

lemma scan_value_atom:
  assumes "scan_atom (s @ r) = Some (x, r)" and "s = c # cs" "c \<noteq> quote" "c \<noteq> CHR ''[''" "c \<noteq> CHR ''{''"
  shows "scan_value (Suc n) (s @ r) = Some (x, r)"
  using assms by simp

lemma scan_value_number:
  assumes "scan_number s = Some (x, [])" and "delim r"
  shows "scan_value (Suc n) (s @ r) = Some (x, r)"
proof (rule scan_number_first [OF assms(1)])
  fix c cs assume s: "s = c # cs" and c: "is_digit c \<or> c = CHR ''-'' \<and> (\<exists>d ds. cs = d # ds \<and> is_digit d)"
  have "c \<noteq> quote" "c \<noteq> CHR ''[''" "c \<noteq> CHR ''{''" using c by (auto simp: is_digit_def quote_def)
  from scan_value_atom [OF number_scanned [OF assms] s this] show ?thesis .
qed

lemma reads_dumps:
  assumes sep: "isep = '','' \<or> isep = '', ''" and ksep: "ksep = '':'' \<or> ksep = '': ''"
  shows "json_ok j \<Longrightarrow> reads (dumps_with isep ksep) j"
proof (induction j)
  case (JArr xs)
  have "\<forall>x \<in> set xs. reads (dumps_with isep ksep) x" using JArr json_ok_items(1) by blast
  note items = scan_items_join [OF sep this]
  have start: "skip_ws (sep_join isep (map (dumps_with isep ksep) xs) @ s) = sep_join isep (map (dumps_with isep ksep) xs) @ s
      \<and> (\<exists>c cs. sep_join isep (map (dumps_with isep ksep) xs) = c # cs \<and> c \<noteq> CHR '']'')" if "xs \<noteq> []" for s
  proof -
    from that obtain x ys where x: "xs = x # ys" by (cases xs) auto
    with JArr have "json_ok x" by simp
    from dumps_start [OF this, of isep ksep] obtain c cs where "dumps_with isep ksep x = c # cs" "value_start c" by blast
    with x show ?thesis by (cases ys) (auto simp: start_not_ws dest: start_no_close)
  qed
  have "scan_value n (dumps_with isep ksep (JArr xs) @ r) = Some (JArr xs, r)" if "jfuel (JArr xs) \<le> n" for n r
  proof -
    from that obtain m where n: "n = Suc m" by (cases n) auto
    show ?thesis
    proof (cases "xs = []")
      case True
      then show ?thesis by (simp add: n quote_def)
    next
      case False
      note st = start [OF False, of "CHR '']'' # r"]
      then obtain c cs where "sep_join isep (map (dumps_with isep ksep) xs) = c # cs" "c \<noteq> CHR '']''" by blast
      with st items [of m r] n that False show ?thesis by (auto simp: quote_def)
    qed
  qed
  then show ?case using dumps_start [OF JArr.prems] by (simp add: reads_def)
next
  case (JObj d)
  let ?J = "sep_join isep (map (\<lambda>(k, v). json_string k @ ksep @ dumps_with isep ksep v) d)"
  have "\<forall>(k, v) \<in> set d. reads (dumps_with isep ksep) v"
    using JObj json_ok_items(2) by (auto simp: Basic_BNFs.snds.simps)
  note members = scan_members_join [OF sep ksep this]
  have start: "\<exists>cs. ?J = quote # cs" if "d \<noteq> []"
    using that by (cases d rule: remdups_adj.cases) (auto simp: json_string_def)
  have "scan_value n (dumps_with isep ksep (JObj d) @ r) = Some (JObj d, r)" if "jfuel (JObj d) \<le> n" for n r
  proof -
    from that obtain m where n: "n = Suc m" by (cases n) auto
    show ?thesis
    proof (cases "d = []")
      case True
      then show ?thesis by (simp add: n quote_def)
    next
      case False
      from JObj.prems have "dict_of d = d" by (simp add: dict_of_distinct)
      with members [of m r] start [OF False] n that False show ?thesis
        by (auto simp: quote_def skip_close(5) [unfolded quote_def])
    qed
  qed
  then show ?case using dumps_start [OF JObj.prems] by (simp add: reads_def)
next
  case (JStr s)
  have "scan_value n (dumps_with isep ksep (JStr s) @ r) = Some (JStr s, r)" if "1 \<le> n" for n r
    using that by (cases n) (simp_all add: json_string_def scan_json_string)
  then show ?case using dumps_start [OF JStr.prems] by (simp add: reads_def)
next
  case (JInt z)
  have "scan_value n (dumps_with isep ksep (JInt z) @ r) = Some (JInt z, r)" if "1 \<le> n" "delim r" for n r
    using that scan_value_number [OF scan_int_text that(2)] by (cases n) simp_all
  then show ?case using dumps_start [OF JInt.prems] by (simp add: reads_def)
next
  case (JFloat x)
  have "scan_value n (json_float x @ r) = Some (JFloat x, r)" if "1 \<le> n" "delim r" for n r
  proof -
    from that obtain m where n: "n = Suc m" by (cases n) auto
    show ?thesis
    proof (cases x)
      case (Fin q)
      with JFloat have "scan_number (json_float x) = Some (JFloat x, [])" by (simp add: float_ok_def json_float_def)
      from scan_value_number [OF this that(2)] show ?thesis by (simp add: n)
    qed (use words_scanned in \<open>simp_all add: n json_float_def quote_def\<close>)
  qed
  then show ?case using dumps_start [OF JFloat.prems] by (simp add: reads_def)
next
  case JNull
  have "scan_value n (''null'' @ r) = Some (JNull, r)" if "1 \<le> n" for n r
    using that words_scanned(1) [of r] by (cases n) (simp_all add: quote_def)
  then show ?case by (simp add: reads_def value_start_def)
next
  case (JBool b)
  have "scan_value n (dumps_with isep ksep (JBool b) @ r) = Some (JBool b, r)" if "1 \<le> n" for n r
    using that words_scanned(2,3) [of r] by (cases n) (simp_all add: quote_def)
  then show ?case by (simp add: reads_def value_start_def)
qed


text \<open>The length of the text bounds the fuel.\<close>

lemma fuel_items:
  assumes "isep \<noteq> []" and "\<forall>x \<in> set xs. jfuel x \<le> length (D x)"
  shows "foldr (\<lambda>x n. 1 + max (jfuel x) n) xs 0 \<le> 1 + length (sep_join isep (map D xs))"
  using assms(2)
proof (induction xs)
  case (Cons x xs)
  have "1 \<le> length isep" using assms(1) by (simp add: Suc_le_eq)
  moreover have "foldr (\<lambda>x n. 1 + max (jfuel x) n) xs 0 \<le> 1 + length (sep_join isep (map D xs))" using Cons by simp
  ultimately have "max (jfuel x) (foldr (\<lambda>x n. 1 + max (jfuel x) n) xs 0) \<le> length (D x) + length isep + length (sep_join isep (map D xs))"
    using Cons.prems by (intro max.boundedI) auto
  with Cons show ?case by (cases xs) simp_all
qed simp

lemma fuel_members:
  assumes "isep \<noteq> []" and "\<forall>(k, v) \<in> set d. jfuel v \<le> length (D v)"
  shows "foldr (\<lambda>(k, v) n. 1 + max (jfuel v) n) d 0 \<le> 1 + length (sep_join isep (map (\<lambda>(k, v). json_string k @ ksep @ D v) d))"
  using assms(2)
proof (induction d)
  case (Cons p d)
  have "1 \<le> length isep" using assms(1) by (simp add: Suc_le_eq)
  moreover obtain k v where p: "p = (k, v)" by (cases p)
  moreover have IH: "foldr (\<lambda>(k, v) n. 1 + max (jfuel v) n) d 0
      \<le> 1 + length (sep_join isep (map (\<lambda>(k, v). json_string k @ ksep @ D v) d))" using Cons by simp
  ultimately have "max (jfuel v) (foldr (\<lambda>(k, v) n. 1 + max (jfuel v) n) d 0)
      \<le> length (D v) + length isep + length (sep_join isep (map (\<lambda>(k, v). json_string k @ ksep @ D v) d))"
    using Cons.prems by (intro max.boundedI) auto
  with Cons p show ?case by (cases d) simp_all
qed simp

lemma jfuel_le:
  assumes "isep \<noteq> []" shows "json_ok j \<Longrightarrow> jfuel j \<le> length (dumps_with isep ksep j)"
proof (induction j)
  case (JArr xs)
  then have "\<forall>x \<in> set xs. jfuel x \<le> length (dumps_with isep ksep x)" using json_ok_items(1) by blast
  from fuel_items [OF assms this] show ?case by simp
next
  case (JObj d)
  then have "\<forall>(k, v) \<in> set d. jfuel v \<le> length (dumps_with isep ksep v)"
    using json_ok_items(2) by (auto simp: Basic_BNFs.snds.simps)
  from fuel_members [OF assms this] show ?case by simp
next
  case (JFloat x)
  from dumps_start [OF this, of isep ksep] show ?case by (auto simp: Suc_le_eq)
next
  case (JInt z)
  from dumps_start [OF this, of isep ksep] show ?case by (auto simp: Suc_le_eq)
qed (simp_all add: json_string_def)

lemma loads_dumps_with:
  assumes sep: "isep = '','' \<or> isep = '', ''" and ksep: "ksep = '':'' \<or> ksep = '': ''" and ok: "json_ok j"
  shows "loads (dumps_with isep ksep j) = Some j"
proof -
  note r = reads_dumps [OF sep ksep ok]
  have "jfuel j \<le> length (dumps_with isep ksep j)" using sep by (intro jfuel_le [OF _ ok]) auto
  with r have "scan_value (length (dumps_with isep ksep j)) (dumps_with isep ksep j @ []) = Some (j, [])"
    unfolding reads_def by (metis delim_close(4))
  moreover have "skip_ws (dumps_with isep ksep j) = dumps_with isep ksep j" using reads_start [OF r, of "[]"] by simp
  ultimately show ?thesis by (simp add: loads_def skip_ws_def)
qed

section \<open>Sorted keys\<close>

definition sorted_values :: "(string \<times> json) list \<Rightarrow> (string \<times> json) list" where
  "sorted_values d = map (\<lambda>(k, v). (k, sort_json v)) d"

lemma sorted_values_keys: "map fst (sorted_values d) = map fst d"
  by (induction d) (auto simp: sorted_values_def)

lemma sort_keys_distinct: "distinct (map fst d) \<Longrightarrow> distinct (map fst (sort_key fst (sorted_values d)))"
  using sorted_values_keys [of d] by (metis distinct_map distinct_sort set_sort)

lemma sort_json_ok: "json_ok j \<Longrightarrow> json_ok (sort_json j)"
proof (induction j)
  case (JObj d)
  have "list_all (\<lambda>(k, v). json_ok v) (sort_key fst (sorted_values d))"
    using JObj by (auto simp: list_all_iff Basic_BNFs.snds.simps sorted_values_def)
  with JObj.prems sort_keys_distinct [of d] show ?case by (simp add: sorted_values_def)
qed (auto simp: list_all_iff)

lemma loads_dumps: "json_ok j \<Longrightarrow> loads (dumps j) = Some j"
  by (simp add: dumps_def loads_dumps_with)

lemma loads_dumps_sorted: "json_ok j \<Longrightarrow> loads (dumps_sorted j) = Some (sort_json j)"
  by (simp add: dumps_sorted_def loads_dumps_with sort_json_ok)

lemma loads_dumps_compact: "json_ok j \<Longrightarrow> loads (dumps_compact j) = Some (sort_json j)"
  by (simp add: dumps_compact_def loads_dumps_with sort_json_ok)

text \<open>Equal canonical texts are texts of the same object.\<close>

lemma dumps_compact_inj: "json_ok x \<Longrightarrow> json_ok y \<Longrightarrow> dumps_compact x = dumps_compact y \<Longrightarrow> sort_json x = sort_json y"
  using loads_dumps_compact [of x] loads_dumps_compact [of y] by simp

lemma sort_json_field:
  assumes "distinct (map fst d)" and "sort_json (JObj d) = JObj e"
  shows "map_of e k = map_option sort_json (map_of d k)"
proof -
  have e: "e = sort_key fst (sorted_values d)" using assms(2) by (simp add: sorted_values_def)
  have "map_of (sort_key fst (sorted_values d)) = map_of (sorted_values d)"
    using sort_keys_distinct [OF assms(1)] assms(1)
    by (intro map_of_inject_set [THEN iffD2]) (simp_all add: sorted_values_keys)
  then show ?thesis by (simp add: e sorted_values_def map_of_map)
qed

end
