(* ===== verification/Gateway.thy ===== *)
theory Gateway
  imports Policy Operation_Ledger Audit_Log Canonical Py_JsonText
begin

text \<open>
  \<^verbatim>\<open>GovernanceGateway\<close> of \<^verbatim>\<open>src/governance/gateway.py\<close> in the single-tenant configuration, with all
  participants on one SQL store.

  The state is the database and the budget manager's cache.  \<open>gw_atomic\<close> is the transaction of
  the shared store: an exception restores the database and leaves the cache as it is.  Telemetry
  has no effect on the state.  What a call reads from outside (clock, generated identifiers) is
  the record \<open>call_env\<close>; \<open>gc_sha\<close> is the hexadecimal SHA-256 of a text, a parameter.
\<close>

section \<open>Configuration and admissions\<close>

type_synonym gw_state = "db bm_state"

record gw_conf =
  gc_policy :: policy_conf
  gc_ops :: "db store_ops"
  gc_digest :: "audit_entry \<Rightarrow> string"
  gc_registry :: registry_map
  gc_sha :: "string \<Rightarrow> string"

record call_env =
  ce_clock :: "int \<times> int"
  ce_now :: rat
  ce_claimed :: rat
  ce_reserved :: rat
  ce_token :: string
  ce_approval :: string
  ce_created :: string
  ce_time :: string
  ce_id0 :: string
  ce_id1 :: string
  ce_id2 :: string

record gw_call =
  ca_agent :: string
  ca_src :: string
  ca_dst :: string
  ca_wire :: json
  ca_cost :: pynum
  ca_target :: "string option"
  ca_operation :: "string option"
  ca_signed :: "(string \<times> string) option"
  ca_body :: "string option"
  ca_nonce :: "string option"

record admission =
  ad_agent :: string
  ad_src :: string
  ad_dst :: string
  ad_capability :: string
  ad_cost :: rat
  ad_token :: string
  ad_operation :: "string option"
  ad_wire :: json
  ad_reason :: text_line

definition gw_atomic :: "(gw_state, 'a) prog \<Rightarrow> (gw_state, 'a) prog" where
  "gw_atomic m st = (case m st of
      (Inl e, st') \<Rightarrow> (Inl e, (fst st, snd st'))
    | (Inr a, st') \<Rightarrow> (Inr a, st'))"

fun render :: "text_line \<Rightarrow> string" where
  "render [] = []"
| "render (Txt s # ps) = s @ render ps"
| "render (NumP x # ps) = float_repr x @ render ps"
| "render (IntP n # ps) = int_text n @ render ps"

section \<open>Audit records of the gateway\<close>

definition gw_record :: "gw_conf \<Rightarrow> string \<Rightarrow> audit_fields \<Rightarrow> (gw_state, audit_entry) prog" where
  "gw_record gc time f = on_store (append_audit_chained (gc_ops gc) (build_entry (gc_digest gc) f time))"

definition call_fields :: "gw_call \<Rightarrow> string \<Rightarrow> text_line \<Rightarrow> audit_fields" where
  "call_fields ca capability why =
     \<lparr>f_actor = ca_agent ca, f_action = ''route_call'', f_source = ca_src ca, f_target = ca_dst ca,
      f_capability = capability, f_decision = ''deny'', f_reason = why, f_cost = 0\<rparr>"

definition audit_admission ::
  "gw_conf \<Rightarrow> string \<Rightarrow> admission \<Rightarrow> string \<Rightarrow> text_line \<Rightarrow> rat \<Rightarrow> (gw_state, unit) prog" where
  "audit_admission gc time ad decision why cost =
     bindP (gw_record gc time
       \<lparr>f_actor = ad_agent ad, f_action = ''route_call'', f_source = ad_src ad, f_target = ad_dst ad,
        f_capability = ad_capability ad, f_decision = decision, f_reason = why, f_cost = cost\<rparr>) (\<lambda>_. retP ())"

section \<open>Admission\<close>

definition deny_call ::
  "gw_conf \<Rightarrow> call_env \<Rightarrow> gw_call \<Rightarrow> string \<Rightarrow> text_line \<Rightarrow> (gw_state, 'a) prog" where
  "deny_call gc en ca capability why =
     bindP (gw_record gc (ce_time en) (call_fields ca capability why)) (\<lambda>_.
     raiseP GovernanceError (render why))"

definition opt_json :: "string option \<Rightarrow> json" where
  "opt_json x = (case x of None \<Rightarrow> JNull | Some s \<Rightarrow> JStr s)"

text \<open>The signed body says the same as the call, and the signature covers that body.\<close>

definition body_matches :: "gw_call \<Rightarrow> (string \<times> json) list \<Rightarrow> bool" where
  "body_matches ca body \<longleftrightarrow>
     json_eq (jget body ''src'') (JStr (ca_src ca)) \<and> json_eq (jget body ''dst'') (JStr (ca_dst ca))
     \<and> json_eq (jget body ''wire'') (ca_wire ca)
     \<and> json_eq (jget body ''target_id'') (opt_json (ca_target ca))
     \<and> json_eq (jget body ''operation_id'') (opt_json (ca_operation ca))"

text \<open>The digest of the request material, what an approval and an operation are bound to.\<close>

definition request_material :: "gw_call \<Rightarrow> rat \<Rightarrow> json" where
  "request_material ca cost =
     JObj [(''agent_id'', JStr (ca_agent ca)), (''src'', JStr (ca_src ca)), (''dst'', JStr (ca_dst ca)),
           (''wire'', ca_wire ca), (''cost'', JFloat (Fin cost)), (''target_id'', opt_json (ca_target ca)),
           (''operation_id'', opt_json (ca_operation ca))]"

definition request_scope :: "gw_conf \<Rightarrow> gw_call \<Rightarrow> rat \<Rightarrow> string res" where
  "request_scope gc ca cost =
     bindE (dumps_strict (request_material ca cost)) (\<lambda>text. Inr (gc_sha gc (encode text)))"

definition proof_ok :: "gw_conf \<Rightarrow> gw_call \<Rightarrow> db \<Rightarrow> bool" where
  "proof_ok gc ca s =
     (case (ca_body ca, ca_nonce ca, ca_signed ca) of
        (Some text, Some nonce, Some (data, sg)) \<Rightarrow>
          (case loads text of
             Some (JObj body) \<Rightarrow>
               body_matches ca body
               \<and> data = canonical_payload (pc_crypto (gc_policy gc)) (ca_agent ca) nonce text
               \<and> verify_signature (pc_crypto (gc_policy gc)) (gc_ops gc) (ca_agent ca) data sg (reg_of s) = Inr True
           | _ \<Rightarrow> False)
      | _ \<Rightarrow> False)"

definition prod_checks :: "gw_conf \<Rightarrow> call_env \<Rightarrow> gw_call \<Rightarrow> string \<Rightarrow> (gw_state, unit) prog" where
  "prod_checks gc en ca capability =
     (if \<not> is_prod (pc_env (gc_policy gc)) then retP ()
      else if \<not> (case ca_operation ca of None \<Rightarrow> False | Some i \<Rightarrow> 16 \<le> length i \<and> length i \<le> 128)
      then deny_call gc en ca capability [Txt ''durable operation_id required in production'']
      else bindP (getP (\<lambda>st. proof_ok gc ca (fst st))) (\<lambda>ok.
        if \<not> ok then deny_call gc en ca capability [Txt ''request-bound signed agent proof required'']
        else retP ()))"

definition known_operation :: "string \<Rightarrow> string option \<Rightarrow> string \<Rightarrow> (gw_state, unit) prog" where
  "known_operation agent operation scope =
     (case operation of
        None \<Rightarrow> retP ()
      | Some opid \<Rightarrow>
          bindP (getP (\<lambda>st. ledger_get agent opid (fst st))) (\<lambda>existing.
            case existing of
              None \<Rightarrow> retP ()
            | Some r \<Rightarrow>
                if op_fingerprint r \<noteq> scope
                then raiseP OperationConflict ''idempotency key reused for different request''
                else raiseP OperationConflict (''existing operation is '' @ op_state r @ ''; no automatic replay'')))"

text \<open>\<^verbatim>\<open>_admit_transaction\<close>: claim, reservation, link and approval commit together or not at all.\<close>

definition admit_body ::
  "gw_conf \<Rightarrow> call_env \<Rightarrow> string \<Rightarrow> string \<Rightarrow> rat \<Rightarrow> string option \<Rightarrow> string \<Rightarrow> bool \<Rightarrow> (gw_state, string) prog" where
  "admit_body gc en agent capability cost operation scope approval_required =
     bindP (case operation of
              None \<Rightarrow> retP ()
            | Some opid \<Rightarrow> on_store (ledger_claim None agent opid scope None None None (ce_claimed en))) (\<lambda>_.
     bindP (bm_reserve (gc_ops gc) (pc_default (gc_policy gc)) agent (NumFloat (Fin cost)) (ce_reserved en) (ce_token en)) (\<lambda>reply.
     case reply of
       ReserveReply (Some token) why \<Rightarrow>
         bindP (case operation of
                  None \<Rightarrow> retP ()
                | Some opid \<Rightarrow> on_store (attach_reservation agent opid token)) (\<lambda>_.
         bindP (if approval_required
                then (if pc_approvals (gc_policy gc)
                      then on_store (aq_consume (gc_ops gc) agent capability (Some scope))
                      else retP False)
                else retP True) (\<lambda>granted.
         if granted then retP token
         else raiseP AdmissionRejected ''approval grant already consumed''))
     | ReserveReply None why \<Rightarrow> raiseP AdmissionRejected (render why)
     | _ \<Rightarrow> raiseP AdmissionRejected []))"

definition admit_transaction ::
  "gw_conf \<Rightarrow> call_env \<Rightarrow> string \<Rightarrow> string \<Rightarrow> rat \<Rightarrow> string option \<Rightarrow> string \<Rightarrow> bool \<Rightarrow> (gw_state, string) prog" where
  "admit_transaction gc en agent capability cost operation scope approval_required =
     gw_atomic (admit_body gc en agent capability cost operation scope approval_required)"

definition gw_admit :: "gw_conf \<Rightarrow> call_env \<Rightarrow> gw_call \<Rightarrow> (gw_state, admission) prog" where
  "gw_admit gc en ca =
     bindP (liftP (require_legacy_authority (pc_mode (gc_policy gc)))) (\<lambda>_.
     bindP (liftP (checked_cost (ca_cost ca))) (\<lambda>cost.
     bindP (liftP (reg_get (gc_registry gc) (ca_src ca))) (\<lambda>adapter.
     bindP (liftP (reg_get (gc_registry gc) (ca_dst ca))) (\<lambda>_.
     bindP (liftP (to_call adapter (ce_id0 en) (ca_wire ca))) (\<lambda>canonical.
     let capability = cc_capability canonical in
     bindP (liftP (request_scope gc ca cost)) (\<lambda>scope.
     bindP (prod_checks gc en ca capability) (\<lambda>_.
     bindP (known_operation (ca_agent ca) (ca_operation ca) scope) (\<lambda>_.
     bindP (authorize (gc_ops gc) (gc_policy gc) (ce_clock en) (ce_now en) (ca_agent ca) capability cost
              (ca_signed ca) (Some (ca_src ca)) (Some (ca_dst ca)) (Some scope)) (\<lambda>decision.
     if \<not> dec_allowed decision
     then bindP (if dec_needs_approval decision \<and> pc_approvals (gc_policy gc)
                 then bindP (on_store (aq_request (gc_ops gc) (ca_agent ca) capability cost (Some scope)
                               (ce_approval en) (ce_created en))) (\<lambda>_. retP ())
                 else retP ()) (\<lambda>_.
          deny_call gc en ca capability (dec_reason decision))
     else
       bindP (liftP (translate_call (gc_registry gc) (ce_id0 en) (ce_id1 en) (ce_id2 en)
                (ca_wire ca) (ca_src ca) (ca_dst ca))) (\<lambda>dst_wire.
       bindP (handleP (admit_transaction gc en (ca_agent ca) capability cost (ca_operation ca) scope
                         (dec_approval_required decision))
                (\<lambda>e. if exn_class e = AdmissionRejected
                     then deny_call gc en ca capability [Txt (exn_msg e)]
                     else liftP (Inl e))) (\<lambda>token.
       retP \<lparr>ad_agent = ca_agent ca, ad_src = ca_src ca, ad_dst = ca_dst ca, ad_capability = capability,
             ad_cost = cost, ad_token = token, ad_operation = ca_operation ca, ad_wire = dst_wire,
             ad_reason = dec_reason decision\<rparr>)))))))))))"

section \<open>Outcomes\<close>

definition lock_operation :: "admission \<Rightarrow> (gw_state, unit) prog" where
  "lock_operation ad = (case ad_operation ad of
      None \<Rightarrow> retP ()
    | Some opid \<Rightarrow> bindP (on_store (lock_unknown_operation (ad_agent ad) opid)) (\<lambda>_. retP ()))"

definition gw_settle :: "gw_conf \<Rightarrow> rat \<Rightarrow> string \<Rightarrow> admission \<Rightarrow> (gw_state, unit) prog" where
  "gw_settle gc now time ad = gw_atomic (
     bindP (lock_operation ad) (\<lambda>_.
     bindP (case ad_operation ad of
              Some opid \<Rightarrow>
                bindP (settle_owned_reservation (gc_ops gc) (pc_default (gc_policy gc)) (ad_agent ad) opid
                         (ad_token ad) ''succeeded'' (Some (ad_cost ad)) now) (\<lambda>_. retP ())
            | None \<Rightarrow>
                bindP (bm_commit (gc_ops gc) (pc_default (gc_policy gc)) (ad_agent ad) (ad_token ad) now) (\<lambda>r.
                checkP (r = Changed True) RuntimeError
                  ''budget reservation missing after invocation; reconcile outcome'')) (\<lambda>_.
     audit_admission gc time ad ''allow'' (ad_reason ad) (ad_cost ad))))"

definition abort_admission :: "gw_conf \<Rightarrow> rat \<Rightarrow> string \<Rightarrow> admission \<Rightarrow> (gw_state, unit) prog" where
  "abort_admission gc now time ad = gw_atomic (
     bindP (lock_operation ad) (\<lambda>_.
     bindP (bm_release (gc_ops gc) (pc_default (gc_policy gc)) (ad_agent ad) (ad_token ad)) (\<lambda>_.
     bindP (case ad_operation ad of
              None \<Rightarrow> retP ()
            | Some opid \<Rightarrow> on_store (ledger_finish (ad_agent ad) opid ''failed'' now)) (\<lambda>_.
     audit_admission gc time ad ''error'' [Txt ''request canceled before invocation''] 0))))"

definition invocation_failed ::
  "gw_conf \<Rightarrow> string \<Rightarrow> string \<Rightarrow> string \<Rightarrow> admission \<Rightarrow> (gw_state, unit) prog" where
  "invocation_failed gc time message type_nm ad =
     bindP (if ad_operation ad = None
            then bindP (bm_release (gc_ops gc) (pc_default (gc_policy gc)) (ad_agent ad) (ad_token ad)) (\<lambda>_. retP ())
            else retP ()) (\<lambda>_.
     audit_admission gc time ad (if ad_operation ad \<noteq> None then ''unknown'' else ''error'')
       [Txt (if take 200 message = [] then type_nm else take 200 message)] 0)"

text \<open>
  \<^verbatim>\<open>route_call\<close>: the fate of a call is what happens after admission.  Cancellation during the
  settlement lets it finish and then raises; a process that dies after admission does nothing
  more and loses its cache.
\<close>

datatype fate =
    CancelledBeforeInvoke
  | InvokeRaises string string
  | InvokeReturns json bool
  | ProcessDies

definition cancelled :: "('s, 'a) prog" where
  "cancelled = raiseP OtherError ''CancelledError''"

definition route_call ::
  "gw_conf \<Rightarrow> call_env \<Rightarrow> rat \<Rightarrow> string \<Rightarrow> gw_call \<Rightarrow> fate \<Rightarrow> (gw_state, json) prog" where
  "route_call gc en now time ca fate =
     (case fate of
        CancelledBeforeInvoke \<Rightarrow>
          bindP (handleP (bindP (gw_admit gc en ca) (\<lambda>ad. abort_admission gc now time ad)) (\<lambda>_. retP ())) (\<lambda>_.
          cancelled)
      | InvokeRaises message type_nm \<Rightarrow>
          bindP (gw_admit gc en ca) (\<lambda>ad.
          bindP (invocation_failed gc time message type_nm ad) (\<lambda>_.
          raiseP OtherError message))
      | InvokeReturns result late_cancel \<Rightarrow>
          bindP (gw_admit gc en ca) (\<lambda>ad.
          bindP (handleP (gw_settle gc now time ad)
                   (\<lambda>e. bindP (invocation_failed gc time (exn_msg e) ''Exception'' ad) (\<lambda>_.
                        if late_cancel then cancelled else liftP (Inl e)))) (\<lambda>_.
          if late_cancel then cancelled else retP result))
      | ProcessDies \<Rightarrow>
          bindP (gw_admit gc en ca) (\<lambda>_.
          bindP (putP (\<lambda>(s, c). (s, []))) (\<lambda>_. cancelled)))"

section \<open>What an admission transaction does\<close>

lemma claim_plain:
  assumes "ledger_claim None agent opid fp None None None stamp s = (Inr u, s')"
  shows "map_of (t_operations s) (agent, opid) = None \<and>
    s' = s\<lparr>t_operations := t_operations s @
      [((agent, opid), \<lparr>op_fingerprint = fp, op_state = ''unknown'', op_updated = stamp\<rparr>)]\<rparr>"
  using assms
  by (auto simp: ledger_claim_def prog_simps insert_key_def split: if_splits option.splits)

lemma reserve_mut_ok:
  assumes "reserve_mut dflt cache agent cost now tok d = (Inr (ReserveReply (Some t) why), d')"
  shows "t = tok \<and> map_of (reserved_of d') tok = Some cost"
  using assms by (auto simp: reserve_mut_def prog_simps reserved_of_def split: option.splits)

lemma gw_atomic_ok: "gw_atomic m st = (Inr a, st') \<longleftrightarrow> m st = (Inr a, st')"
  by (auto simp: gw_atomic_def split: prod.splits sum.splits)

lemma gw_atomic_exn: "gw_atomic m st = (Inl e, st') \<Longrightarrow> fst st' = fst st"
  by (auto simp: gw_atomic_def split: prod.splits sum.splits)

definition op_row_of :: "call_env \<Rightarrow> string \<Rightarrow> op_row" where
  "op_row_of en scope = \<lparr>op_fingerprint = scope, op_state = ''unknown'', op_updated = ce_claimed en\<rparr>"

locale gateway = sql_store "gc_ops gc" for gc :: gw_conf
begin

lemma consume_loop_writes: "\<exists>rows. snd (consume_loop (gc_ops gc) is s) = s\<lparr>t_approvals := rows\<rparr>"
proof (induction "is" arbitrary: s)
  case Nil
  then show ?case using same_approvals by simp
next
  case (Cons i "is")
  obtain r s1 where r: "consume_approval (gc_ops gc) i s = (r, s1)" by (metis surj_pair)
  with consume_writes [of i s] obtain rows where s1: "s1 = s\<lparr>t_approvals := rows\<rparr>" by auto
  show ?case
  proof (cases r)
    case (Inl e)
    with r s1 show ?thesis by auto
  next
    case (Inr won)
    with r s1 Cons.IH [of s1] show ?thesis by (cases won) auto
  qed
qed

lemma aq_consume_writes: "\<exists>rows. snd (aq_consume (gc_ops gc) agent cap scope s) = s\<lparr>t_approvals := rows\<rparr>"
  using consume_loop_writes [of "candidates (gc_ops gc) agent cap scope s" s] by (simp add: aq_consume_def)

lemma reserve_ok:
  assumes "bm_reserve (gc_ops gc) dflt agent (NumFloat (Fin cost)) now tok (s, c)
             = (Inr (ReserveReply (Some t) why), (s', c'))"
    and "checked_cost (NumFloat (Fin cost)) = Inr cost"
  shows "t = tok" and "\<exists>rows. s' = s\<lparr>t_budgets := rows\<rparr>"
    and "map_of (reserved_of (dict_or_empty (map_of (t_budgets s') agent))) tok = Some cost"
    and "\<And>b. b \<noteq> agent \<Longrightarrow> map_of (t_budgets s') b = map_of (t_budgets s) b"
proof -
  let ?m = "reserve_mut dflt c agent cost now tok" and ?d = "dict_or_empty (get_budget (gc_ops gc) agent s)"
  from assms have mu: "mutate_budget (gc_ops gc) agent ?m s = (Inr (ReserveReply (Some t) why), s')"
    by (auto simp: bm_reserve_def prog_simps on_store_iff invalidate_def)
  then have r: "fst (?m ?d) = Inr (ReserveReply (Some t) why)" using mutate_result [of agent ?m s] by simp
  obtain d' where d': "?m ?d = (Inr (ReserveReply (Some t) why), d')" using r by (metis prod.collapse)
  show "t = tok" using reserve_mut_ok [OF d'] by simp
  show "\<exists>rows. s' = s\<lparr>t_budgets := rows\<rparr>" using mutate_writes [of agent ?m s] mu by simp
  have "map_of (t_budgets s') b = (if b = agent then Some d' else map_of (t_budgets s) b)" for b
    using get_mutate(2) [of ?m agent s "ReserveReply (Some t) why" d' b] d' mu by (simp add: get_budget_table)
  then show "map_of (reserved_of (dict_or_empty (map_of (t_budgets s') agent))) tok = Some cost"
    and "\<And>b. b \<noteq> agent \<Longrightarrow> map_of (t_budgets s') b = map_of (t_budgets s) b"
    using reserve_mut_ok [OF d'] by (simp_all add: dict_or_empty_def)
qed

text \<open>An admission with an operation id: everything it takes is in the database afterwards.\<close>

lemma admit_ok:
  assumes run: "admit_transaction gc en agent capability cost (Some opid) scope required (s, c) = (Inr tok, (s', c'))"
    and cost: "checked_cost (NumFloat (Fin cost)) = Inr cost"
  shows "tok = ce_token en"
    and "map_of (t_operations s) (agent, opid) = None"
    and "t_operations s' = t_operations s @ [((agent, opid), op_row_of en scope)]"
    and "map_of (t_reservations s) (agent, opid) = None" and "\<forall>i. ((agent, i), tok) \<notin> set (t_reservations s)"
    and "t_reservations s' = t_reservations s @ [((agent, opid), tok)]"
    and "map_of (reserved_of (dict_or_empty (map_of (t_budgets s') agent))) tok = Some cost"
    and "\<And>b. b \<noteq> agent \<Longrightarrow> map_of (t_budgets s') b = map_of (t_budgets s) b"
    and "required \<Longrightarrow> pc_approvals (gc_policy gc) \<and>
           (\<exists>s3. t_approvals s3 = t_approvals s \<and>
              aq_consume (gc_ops gc) agent capability (Some scope) s3 = (Inr True, s'))"
    and "\<not> required \<Longrightarrow> t_approvals s' = t_approvals s"
proof -
  from run have body: "admit_body gc en agent capability cost (Some opid) scope required (s, c) = (Inr tok, (s', c'))"
    by (simp add: admit_transaction_def gw_atomic_ok)
  obtain s1 c1 reply s2 c2 where claim: "ledger_claim None agent opid scope None None None (ce_claimed en) s = (Inr (), s1)"
    and res: "bm_reserve (gc_ops gc) (pc_default (gc_policy gc)) agent (NumFloat (Fin cost)) (ce_reserved en) (ce_token en) (s1, c)
        = (Inr reply, (s2, c2))"
    and rest: "(case reply of
       ReserveReply (Some token) why \<Rightarrow>
         bindP (on_store (attach_reservation agent opid token)) (\<lambda>_.
         bindP (if required
                then (if pc_approvals (gc_policy gc)
                      then on_store (aq_consume (gc_ops gc) agent capability (Some scope))
                      else retP False)
                else retP True) (\<lambda>granted.
         if granted then retP token
         else raiseP AdmissionRejected ''approval grant already consumed''))
     | ReserveReply None why \<Rightarrow> raiseP AdmissionRejected (render why)
     | _ \<Rightarrow> raiseP AdmissionRejected []) (s2, c2) = (Inr tok, (s', c'))"
    using body unfolding admit_body_def option.case by (auto elim!: bindP_okE simp: on_store_iff)
  obtain t why where reply: "reply = ReserveReply (Some t) why"
    using rest by (cases reply) (auto split: option.splits)
  note r = reserve_ok [OF res [unfolded reply] cost]
  from rest have "bindP (on_store (attach_reservation agent opid t)) (\<lambda>_.
         bindP (if required
                then (if pc_approvals (gc_policy gc)
                      then on_store (aq_consume (gc_ops gc) agent capability (Some scope))
                      else retP False)
                else retP True) (\<lambda>granted.
         if granted then retP t
         else raiseP AdmissionRejected ''approval grant already consumed'')) (s2, c2) = (Inr tok, (s', c'))"
    by (simp add: reply)
  then obtain s3 c3 where att: "attach_reservation agent opid t s2 = (Inr (), s3)"
    and last: "bindP (if required
                then (if pc_approvals (gc_policy gc)
                      then on_store (aq_consume (gc_ops gc) agent capability (Some scope))
                      else retP False)
                else retP True) (\<lambda>granted.
         if granted then retP t
         else raiseP AdmissionRejected ''approval grant already consumed'') (s3, c3) = (Inr tok, (s', c'))"
    by (rule bindP_okE) (auto simp: on_store_iff)
  from last obtain g s4 c4 where g: "(if required
                then (if pc_approvals (gc_policy gc)
                      then on_store (aq_consume (gc_ops gc) agent capability (Some scope))
                      else retP False)
                else retP True) (s3, c3) = (Inr g, (s4, c4))"
    and e: "(if g then retP t else raiseP AdmissionRejected ''approval grant already consumed'') (s4, c4) = (Inr tok, (s', c'))"
    by (rule bindP_okE) auto
  from e have "g" "tok = t" and s4: "s4 = s'" by (auto split: if_splits)
  from g \<open>g\<close> s4 have con: "if required then pc_approvals (gc_policy gc) \<and>
        aq_consume (gc_ops gc) agent capability (Some scope) s3 = (Inr True, s') else s' = s3"
    by (auto simp: on_store_iff split: if_splits)
  note cl = claim_plain [OF claim] and at = attach_ok [OF att]
  from r(1) \<open>tok = t\<close> show tok: "tok = ce_token en" by simp
  from cl show "map_of (t_operations s) (agent, opid) = None" by simp
  obtain rows where s2: "s2 = s1\<lparr>t_budgets := rows\<rparr>" using r(2) by blast
  have fin: "\<exists>ap. s' = s3\<lparr>t_approvals := ap\<rparr>"
    using con aq_consume_writes [of agent capability "Some scope" s3] same_approvals [of s3] by (auto split: if_splits)
  show "t_operations s' = t_operations s @ [((agent, opid), op_row_of en scope)]"
    using cl s2 at fin by (auto simp: op_row_of_def)
  have rs: "t_reservations s2 = t_reservations s" using cl s2 by auto
  show "map_of (t_reservations s) (agent, opid) = None" "\<forall>i. ((agent, i), tok) \<notin> set (t_reservations s)"
    "t_reservations s' = t_reservations s @ [((agent, opid), tok)]"
    using at fin rs \<open>tok = t\<close> by auto
  have bs: "t_budgets s' = t_budgets s2" using at fin by auto
  show "map_of (reserved_of (dict_or_empty (map_of (t_budgets s') agent))) tok = Some cost"
    using r(3) bs tok by simp
  show "map_of (t_budgets s') b = map_of (t_budgets s) b" if "b \<noteq> agent" for b
    using r(4) [OF that] bs cl by simp
  have ap: "t_approvals s3 = t_approvals s" using at s2 cl by auto
  show "required \<Longrightarrow> pc_approvals (gc_policy gc) \<and> (\<exists>s3. t_approvals s3 = t_approvals s \<and>
      aq_consume (gc_ops gc) agent capability (Some scope) s3 = (Inr True, s'))"
    using con ap by auto
  show "\<not> required \<Longrightarrow> t_approvals s' = t_approvals s" using con ap by auto
qed

end

end
