(* ===== verification/Gateway_World.thy ===== *)
theory Gateway_World
  imports Gateway
begin

text \<open>
  Any number of gateway workers over one database, interleaved at the granularity of store
  transactions: a policy check, an approval request, a denial record, an admission transaction,
  a settlement, an abort and a failure record are one step each.  A worker may die at any point,
  which drops what it had in flight and its cache.

  \<open>gw_sent\<close> lists the operations whose invocation was let through.
\<close>

section \<open>Steps\<close>

record gw_world =
  gw_db :: db
  gw_cache :: "nat \<Rightarrow> bcache"
  gw_flight :: "(nat \<times> admission) list"
  gw_sent :: "(string \<times> string) list"
  gw_tokens :: "string set"

definition operation_key :: "admission \<Rightarrow> (string \<times> string) list" where
  "operation_key ad = (case ad_operation ad of None \<Rightarrow> [] | Some opid \<Rightarrow> [(ad_agent ad, opid)])"

inductive gw_step :: "gw_conf \<Rightarrow> gw_world \<Rightarrow> gw_world \<Rightarrow> bool" for gc where
  Check: "authorize (gc_ops gc) (gc_policy gc) clock now agent capability cost signed src dst scope
            (gw_db w, gw_cache w n) = (r, (s', c')) \<Longrightarrow>
     gw_step gc w (w\<lparr>gw_db := s', gw_cache := (gw_cache w)(n := c')\<rparr>)"
| Ask: "aq_request (gc_ops gc) agent capability cost scope uuid created (gw_db w) = (r1, s') \<Longrightarrow>
     gw_step gc w (w\<lparr>gw_db := s'\<rparr>)"
| Approve: "aq_approve (gc_ops gc) i (gw_db w) = (r2, s') \<Longrightarrow> gw_step gc w (w\<lparr>gw_db := s'\<rparr>)"
| Deny: "aq_deny (gc_ops gc) i (gw_db w) = (r2, s') \<Longrightarrow> gw_step gc w (w\<lparr>gw_db := s'\<rparr>)"
| Note: "append_audit_chained (gc_ops gc) (build_entry (gc_digest gc) f time) (gw_db w) = (r3, s') \<Longrightarrow>
     gw_step gc w (w\<lparr>gw_db := s'\<rparr>)"
| Admit: "admit_transaction gc en agent capability cost operation scope required (gw_db w, gw_cache w n)
            = (Inr tok, (s', c')) \<Longrightarrow>
     checked_cost (NumFloat (Fin cost)) = Inr cost \<Longrightarrow> ce_token en \<notin> gw_tokens w \<Longrightarrow>
     ad_agent ad = agent \<Longrightarrow> ad_operation ad = operation \<Longrightarrow> ad_token ad = tok \<Longrightarrow> ad_cost ad = cost \<Longrightarrow>
     gw_step gc w (w\<lparr>gw_db := s', gw_cache := (gw_cache w)(n := c'), gw_flight := gw_flight w @ [(n, ad)],
                      gw_sent := gw_sent w @ operation_key ad, gw_tokens := insert tok (gw_tokens w)\<rparr>)"
| Reject: "admit_transaction gc en agent capability cost operation scope required (gw_db w, gw_cache w n)
            = (Inl e, (s', c')) \<Longrightarrow>
     gw_step gc w (w\<lparr>gw_db := s', gw_cache := (gw_cache w)(n := c')\<rparr>)"
| Settle: "(n, ad) \<in> set (gw_flight w) \<Longrightarrow>
     gw_settle gc now time ad (gw_db w, gw_cache w n) = (Inr u, (s', c')) \<Longrightarrow>
     gw_step gc w (w\<lparr>gw_db := s', gw_cache := (gw_cache w)(n := c'), gw_flight := remove1 (n, ad) (gw_flight w)\<rparr>)"
| SettleFails: "(n, ad) \<in> set (gw_flight w) \<Longrightarrow>
     gw_settle gc now time ad (gw_db w, gw_cache w n) = (Inl e, (s', c')) \<Longrightarrow>
     gw_step gc w (w\<lparr>gw_db := s', gw_cache := (gw_cache w)(n := c')\<rparr>)"
| Abort: "(n, ad) \<in> set (gw_flight w) \<Longrightarrow>
     abort_admission gc now time ad (gw_db w, gw_cache w n) = (r4, (s', c')) \<Longrightarrow>
     gw_step gc w (w\<lparr>gw_db := s', gw_cache := (gw_cache w)(n := c'), gw_flight := remove1 (n, ad) (gw_flight w)\<rparr>)"
| Fail: "(n, ad) \<in> set (gw_flight w) \<Longrightarrow>
     invocation_failed gc time message type_nm ad (gw_db w, gw_cache w n) = (r5, (s', c')) \<Longrightarrow>
     gw_step gc w (w\<lparr>gw_db := s', gw_cache := (gw_cache w)(n := c'), gw_flight := remove1 (n, ad) (gw_flight w)\<rparr>)"
| Die: "gw_step gc w (w\<lparr>gw_cache := (gw_cache w)(n := []), gw_flight := filter (\<lambda>(m, ad). m \<noteq> n) (gw_flight w)\<rparr>)"

definition gw_start :: "db \<Rightarrow> gw_world" where
  "gw_start s = \<lparr>gw_db = s, gw_cache = (\<lambda>_. []), gw_flight = [], gw_sent = [],
     gw_tokens = {tok. \<exists>d \<in> snd ` set (t_budgets s). tok \<in> fst ` set (reserved_of d)}\<rparr>"

section \<open>What is held for an admission\<close>

definition reserved_for :: "admission \<Rightarrow> db \<Rightarrow> bool" where
  "reserved_for ad s \<longleftrightarrow>
     map_of (reserved_of (dict_or_empty (map_of (t_budgets s) (ad_agent ad)))) (ad_token ad) = Some (ad_cost ad)"

definition claimed_for :: "admission \<Rightarrow> db \<Rightarrow> bool" where
  "claimed_for ad s = (case ad_operation ad of
      None \<Rightarrow> True
    | Some opid \<Rightarrow>
        (\<exists>r. map_of (t_operations s) (ad_agent ad, opid) = Some r \<and> op_state r = ''unknown'')
        \<and> map_of (t_reservations s) (ad_agent ad, opid) = Some (ad_token ad))"

definition held :: "admission \<Rightarrow> db \<Rightarrow> bool" where
  "held ad s \<longleftrightarrow> reserved_for ad s \<and> claimed_for ad s"

text \<open>Each budget mutator keeps every reservation but the one it names.\<close>

lemma reserved_nonempty: "map_of (reserved_of d) tok = Some x \<Longrightarrow> d \<noteq> empty_dict"
  by (auto simp: reserved_of_def empty_dict_def)

lemma seed_reserved: "d \<noteq> empty_dict \<Longrightarrow> reserved_of (seed dflt cache agent d) = reserved_of d"
  by (auto simp: seed_def Let_def reserved_of_def split: option.splits)

lemma d_prune_reserved: "d_prune now d = (r, d') \<Longrightarrow> reserved_of d' = reserved_of d"
  by (auto simp: d_prune_def reserved_of_def split: option.splits)

lemma cap_test_state: "cap_test cost d = (r, d') \<Longrightarrow> d' = d"
  by (cases r) (auto simp: cap_test_def prog_simps keyP_def split: option.splits if_splits)

lemma mut_keeps_reserved:
  assumes "map_of (reserved_of d) tok = Some x"
  shows "can_afford_mut dflt cache agent cost now d = (Inr v, d') \<Longrightarrow> map_of (reserved_of d') tok = Some x"
    and "reserve_mut dflt cache agent cost now tok' d = (Inr v, d') \<Longrightarrow> tok' \<noteq> tok \<Longrightarrow> map_of (reserved_of d') tok = Some x"
    and "commit_mut dflt cache agent tok' now d = (Inr v, d') \<Longrightarrow> tok' \<noteq> tok \<Longrightarrow> map_of (reserved_of d') tok = Some x"
    and "release_mut dflt cache agent tok' d = (Inr v, d') \<Longrightarrow> tok' \<noteq> tok \<Longrightarrow> map_of (reserved_of d') tok = Some x"
proof -
  note se = seed_reserved [OF reserved_nonempty [OF assms], of dflt cache agent]
  show "can_afford_mut dflt cache agent cost now d = (Inr v, d') \<Longrightarrow> map_of (reserved_of d') tok = Some x"
    using assms se by (auto simp: can_afford_mut_def prog_simps split: option.splits
        dest!: d_prune_reserved cap_test_state)
  show "reserve_mut dflt cache agent cost now tok' d = (Inr v, d') \<Longrightarrow> tok' \<noteq> tok \<Longrightarrow> map_of (reserved_of d') tok = Some x"
    using assms se by (auto simp: reserve_mut_def prog_simps reserved_of_def [of "_\<lparr>d_reserved := _\<rparr>"]
        split: option.splits dest!: d_prune_reserved cap_test_state)
  show "commit_mut dflt cache agent tok' now d = (Inr v, d') \<Longrightarrow> tok' \<noteq> tok \<Longrightarrow> map_of (reserved_of d') tok = Some x"
    using assms se by (auto simp: commit_mut_def prog_simps reserved_of_def [of "_\<lparr>d_reserved := _\<rparr>"]
        reserved_of_def [of "_\<lparr>d_calls := _\<rparr>"] reserved_of_def [of "_\<lparr>d_spent := _\<rparr>"] split: option.splits)
  show "release_mut dflt cache agent tok' d = (Inr v, d') \<Longrightarrow> tok' \<noteq> tok \<Longrightarrow> map_of (reserved_of d') tok = Some x"
    using assms se by (auto simp: release_mut_def prog_simps reserved_of_def [of "_\<lparr>d_reserved := _\<rparr>"])
qed

section \<open>Frames\<close>

text \<open>The parts of the database the gateway's bookkeeping lives in.\<close>

definition ledger_view :: "db \<Rightarrow> _" where
  "ledger_view s = (t_operations s, t_reservations s)"

lemma held_cong:
  "ledger_view s' = ledger_view s \<Longrightarrow> t_budgets s' = t_budgets s \<Longrightarrow> held ad s' = held ad s"
  by (simp add: held_def reserved_for_def claimed_for_def ledger_view_def split: option.splits)

lemma claimed_cong: "ledger_view s' = ledger_view s \<Longrightarrow> claimed_for ad s' = claimed_for ad s"
  by (simp add: claimed_for_def ledger_view_def split: option.splits)

text \<open>Invariants of the database, for programs on the gateway's state.\<close>

abbreviation dbP :: "(db \<Rightarrow> bool) \<Rightarrow> gw_state \<Rightarrow> bool" where
  "dbP I \<equiv> \<lambda>st. I (fst st)"

lemma presP_on_store: "presP I m \<Longrightarrow> presP (dbP I) (on_store m)"
  by (auto simp: presP_def on_store_def case_prod_beta)

lemma presP_gw_atomic: "presP (dbP I) m \<Longrightarrow> presP (dbP I) (gw_atomic m)"
  by (auto simp: presP_def gw_atomic_def split: prod.splits sum.splits)
     (metis fst_conv snd_conv)

lemma presP_read: "presP I (\<lambda>st. (f st, st))"
  by (simp add: presP_def)

definition known :: "string \<times> string \<Rightarrow> db \<Rightarrow> bool" where
  "known k s \<longleftrightarrow> map_of (t_operations s) k \<noteq> None"

lemma known_cong: "ledger_view s' = ledger_view s \<Longrightarrow> known k s' = known k s"
  by (simp add: known_def ledger_view_def)

lemma presP_frame:
  assumes "\<And>s. ledger_view (snd (m s)) = ledger_view s \<and> t_budgets (snd (m s)) = t_budgets s"
  shows "presP (held ad) m" and "presP (known k) m"
  using held_cong [of "snd (m _)" _ ad] known_cong [of "snd (m _)" _ k] assms unfolding presP_def by blast+

text \<open>
  An invariant the ledger's statements keep: it is one of \<open>held ad\<close> and \<open>known k\<close>.  \<open>foreign\<close>
  says that the operation named is not the one of the admission.
\<close>

definition foreign :: "admission \<Rightarrow> string \<Rightarrow> string option \<Rightarrow> bool" where
  "foreign ad agent operation \<longleftrightarrow> operation = None \<or> agent \<noteq> ad_agent ad \<or> operation \<noteq> ad_operation ad"

lemma claim_keeps:
  "presP (held ad) (ledger_claim None agent opid fp None None None stamp)"
  "presP (known k) (ledger_claim None agent opid fp None None None stamp)"
proof -
  have "I (snd (ledger_claim None agent opid fp None None None stamp s))"
    if "\<And>row. map_of (t_operations s) (agent, opid) = None \<Longrightarrow>
          I (s\<lparr>t_operations := t_operations s @ [((agent, opid), row)]\<rparr>)" and "I s" for I s
  proof -
    obtain r s' where run: "ledger_claim None agent opid fp None None None stamp s = (r, s')" by (metis surj_pair)
    show ?thesis
      using that run claim_exn [of None agent opid fp None None None stamp s _ s']
        claim_plain [of agent opid fp stamp s _ s'] by (cases r) auto
  qed
  note this [where I = "held ad"] this [where I = "known k"]
  then
  show "presP (held ad) (ledger_claim None agent opid fp None None None stamp)"
    "presP (known k) (ledger_claim None agent opid fp None None None stamp)"
    by (auto simp: presP_def held_def reserved_for_def claimed_for_def known_def map_add_def split: option.splits)
qed

lemma attach_keeps:
  "presP (held ad) (attach_reservation agent opid tok)" "presP (known k) (attach_reservation agent opid tok)"
proof -
  have "I (snd (attach_reservation agent opid tok s))"
    if "map_of (t_reservations s) (agent, opid) = None \<Longrightarrow>
          I (s\<lparr>t_reservations := t_reservations s @ [((agent, opid), tok)]\<rparr>)" and "I s" for I s
  proof -
    obtain r s' where run: "attach_reservation agent opid tok s = (r, s')" by (metis surj_pair)
    show ?thesis
      using that run attach_exn [of agent opid tok s _ s'] attach_ok [of agent opid tok s _ s'] by (cases r) auto
  qed
  note this [where I = "held ad"] this [where I = "known k"]
  then
  show "presP (held ad) (attach_reservation agent opid tok)" "presP (known k) (attach_reservation agent opid tok)"
    by (auto simp: presP_def held_def reserved_for_def claimed_for_def known_def map_add_def split: option.splits)
qed

lemma finish_keeps:
  "foreign ad agent (Some opid) \<Longrightarrow> presP (held ad) (ledger_finish agent opid state stamp)"
  "presP (known k) (ledger_finish agent opid state stamp)"
proof -
  have "I (snd (ledger_finish agent opid state stamp s))"
    if "\<And>row. I (s\<lparr>t_operations := AList.update (agent, opid) row (t_operations s)\<rparr>)" and "I s" for I s
  proof -
    obtain r s' where run: "ledger_finish agent opid state stamp s = (r, s')" by (metis surj_pair)
    show ?thesis
      using that run finish_exn [of agent opid state stamp s _ s'] finish_ok [of agent opid state stamp s _ s']
      by (cases r) auto
  qed
  note this [where I = "held ad"] this [where I = "known k"]
  then
  show "foreign ad agent (Some opid) \<Longrightarrow> presP (held ad) (ledger_finish agent opid state stamp)"
    "presP (known k) (ledger_finish agent opid state stamp)"
    by (auto simp: presP_def held_def reserved_for_def claimed_for_def known_def foreign_def split: option.splits)
qed

lemma lock_keeps: "presP I (lock_unknown_operation agent opid)"
  by (auto simp: presP_def lock_unknown_operation_def split: option.splits)

context gateway
begin

lemma bookkeeping_frame:
  "append_audit_chained (gc_ops gc) b s = (r, s') \<Longrightarrow> ledger_view s' = ledger_view s \<and> t_budgets s' = t_budgets s"
  "insert_approval (gc_ops gc) p s = (u, s') \<Longrightarrow> ledger_view s' = ledger_view s \<and> t_budgets s' = t_budgets s"
  "update_approval_status (gc_ops gc) i st s = (v, s') \<Longrightarrow> ledger_view s' = ledger_view s \<and> t_budgets s' = t_budgets s"
  "aq_consume (gc_ops gc) agent cap scope s = (v, s') \<Longrightarrow> ledger_view s' = ledger_view s \<and> t_budgets s' = t_budgets s"
  using append_writes [of b s] insert_approval_writes [of p s] update_writes [of i st s]
    aq_consume_writes [of agent cap scope s]
  by (auto simp: ledger_view_def)

lemma request_frame:
  "aq_request (gc_ops gc) agent cap cost scope uuid now s = (r, s') \<Longrightarrow>
     ledger_view s' = ledger_view s \<and> t_budgets s' = t_budgets s"
  by (cases r) (auto simp: aq_request_def prog_simps Let_def dest: bookkeeping_frame(2))

lemma mutate_frame_view: "ledger_view (snd (mutate_budget (gc_ops gc) agent m s)) = ledger_view s"
  using mutate_writes [of agent m s] by (auto simp: ledger_view_def)

lemma mutate_reserved:
  assumes "reserved_for ad s"
    and "agent = ad_agent ad \<Longrightarrow> (\<And>d v d'. map_of (reserved_of d) (ad_token ad) = Some (ad_cost ad) \<Longrightarrow>
           m d = (Inr v, d') \<Longrightarrow> map_of (reserved_of d') (ad_token ad) = Some (ad_cost ad))"
  shows "reserved_for ad (snd (mutate_budget (gc_ops gc) agent m s))"
proof (cases "agent = ad_agent ad")
  case False
  then show ?thesis
    using assms(1) mutate_frame [of "ad_agent ad" agent m s] by (simp add: reserved_for_def get_budget_table)
next
  case True
  let ?d = "dict_or_empty (get_budget (gc_ops gc) agent s)"
  have d: "map_of (reserved_of ?d) (ad_token ad) = Some (ad_cost ad)"
    using assms(1) True by (simp add: reserved_for_def get_budget_table)
  obtain r d' where r: "m ?d = (r, d')" by (metis surj_pair)
  show ?thesis
  proof (cases r)
    case (Inl e)
    with r mutate_exn [of m agent s e d'] assms(1) show ?thesis by simp
  next
    case (Inr v)
    with r have "map_of (reserved_of d') (ad_token ad) = Some (ad_cost ad)" using assms(2) [OF True d] by blast
    moreover have "map_of (t_budgets (snd (mutate_budget (gc_ops gc) agent m s))) agent = Some d'"
      using get_mutate(2) [of m agent s v d' agent] r Inr by (simp add: get_budget_table)
    ultimately show ?thesis by (simp add: reserved_for_def True [symmetric] dict_or_empty_def)
  qed
qed

lemma held_mutate:
  assumes "held ad s"
    and "agent = ad_agent ad \<Longrightarrow> (\<And>d v d'. map_of (reserved_of d) (ad_token ad) = Some (ad_cost ad) \<Longrightarrow>
           m d = (Inr v, d') \<Longrightarrow> map_of (reserved_of d') (ad_token ad) = Some (ad_cost ad))"
  shows "held ad (snd (mutate_budget (gc_ops gc) agent m s))"
proof -
  from assms(1) have r: "reserved_for ad s" and c: "claimed_for ad s" by (simp_all add: held_def)
  have "reserved_for ad (snd (mutate_budget (gc_ops gc) agent m s))" using r assms(2) by (rule mutate_reserved)
  with c claimed_cong [OF mutate_frame_view, of ad agent m s] show ?thesis by (simp add: held_def)
qed

text \<open>The manager's operations, as far as the database sees them.\<close>

lemma then_invalidate_db:
  "fst (snd (bindP (on_store m) (\<lambda>result. bindP (invalidate agent) (\<lambda>_. retP result)) (s, c))) = snd (m s)"
proof -
  obtain r s' where "m s = (r, s')" by (metis surj_pair)
  then show ?thesis by (cases r) (simp_all add: bindP_def on_store_def invalidate_def)
qed

lemma bm_db:
  "fst (snd (bm_commit (gc_ops gc) dflt agent tok now (s, c))) = snd (mutate_budget (gc_ops gc) agent (commit_mut dflt c agent tok now) s)"
  "fst (snd (bm_release (gc_ops gc) dflt agent tok (s, c))) = snd (mutate_budget (gc_ops gc) agent (release_mut dflt c agent tok) s)"
  by (simp_all add: bm_commit_def bm_release_def then_invalidate_db)

lemma bm_cost_db:
  assumes "checked_cost cost = Inr x"
  shows "fst (snd (bm_reserve (gc_ops gc) dflt agent cost now tok (s, c)))
      = snd (mutate_budget (gc_ops gc) agent (reserve_mut dflt c agent x now tok) s)"
    and "fst (snd (bm_can_afford (gc_ops gc) dflt agent cost now (s, c)))
      = snd (mutate_budget (gc_ops gc) agent (can_afford_mut dflt c agent x now) s)"
  by (simp_all add: bm_reserve_def bm_can_afford_def assms then_invalidate_db)
    (simp add: on_store_def case_prod_beta)

lemma held_can_afford:
  assumes "held ad s"
  shows "held ad (fst (snd (bm_can_afford (gc_ops gc) dflt agent cost now (s, c))))"
proof (cases "checked_cost cost")
  case (Inl e)
  then show ?thesis using assms by (simp add: bm_can_afford_def)
next
  case (Inr x)
  show ?thesis unfolding bm_cost_db(2) [OF Inr] using assms
    by (rule held_mutate) (rule mut_keeps_reserved(1))
qed

lemma held_reserve:
  assumes "held ad s" and "agent = ad_agent ad \<Longrightarrow> tok \<noteq> ad_token ad"
  shows "held ad (fst (snd (bm_reserve (gc_ops gc) dflt agent cost now tok (s, c))))"
proof (cases "checked_cost cost")
  case (Inl e)
  then show ?thesis using assms by (simp add: bm_reserve_def)
next
  case (Inr x)
  show ?thesis unfolding bm_cost_db(1) [OF Inr] using assms(1)
    by (rule held_mutate) (rule mut_keeps_reserved(2), assumption, assumption, rule assms(2))
qed

lemma held_commit:
  assumes "held ad s" and "agent = ad_agent ad \<Longrightarrow> tok \<noteq> ad_token ad"
  shows "held ad (fst (snd (bm_commit (gc_ops gc) dflt agent tok now (s, c))))"
  unfolding bm_db using assms(1)
  by (rule held_mutate) (rule mut_keeps_reserved(3), assumption, assumption, rule assms(2))

lemma held_release:
  assumes "held ad s" and "agent = ad_agent ad \<Longrightarrow> tok \<noteq> ad_token ad"
  shows "held ad (fst (snd (bm_release (gc_ops gc) dflt agent tok (s, c))))"
  unfolding bm_db using assms(1)
  by (rule held_mutate) (rule mut_keeps_reserved(4), assumption, assumption, rule assms(2))

lemma bm_view:
  "ledger_view (fst (snd (bm_commit (gc_ops gc) dflt agent tok now (s, c)))) = ledger_view s"
  "ledger_view (fst (snd (bm_release (gc_ops gc) dflt agent tok (s, c)))) = ledger_view s"
  by (simp_all only: bm_db mutate_frame_view)

lemma bm_cost_view:
  "ledger_view (fst (snd (bm_reserve (gc_ops gc) dflt agent cost now tok (s, c)))) = ledger_view s"
  "ledger_view (fst (snd (bm_can_afford (gc_ops gc) dflt agent cost now (s, c)))) = ledger_view s"
proof -
  show "ledger_view (fst (snd (bm_reserve (gc_ops gc) dflt agent cost now tok (s, c)))) = ledger_view s"
    by (cases "checked_cost cost") (simp_all add: bm_cost_db mutate_frame_view, simp add: bm_reserve_def)
  show "ledger_view (fst (snd (bm_can_afford (gc_ops gc) dflt agent cost now (s, c)))) = ledger_view s"
    by (cases "checked_cost cost") (simp_all add: bm_cost_db mutate_frame_view, simp add: bm_can_afford_def)
qed

text \<open>The gateway's programs, seen by an admission they do not work for and by a known operation.\<close>

lemma record_keeps:
  "presP (dbP (held ad)) (gw_record gc time f)" "presP (dbP (known k)) (gw_record gc time f)"
proof -
  have fr: "ledger_view (snd (append_audit_chained (gc_ops gc) b s)) = ledger_view s
      \<and> t_budgets (snd (append_audit_chained (gc_ops gc) b s)) = t_budgets s" for b s
    using bookkeeping_frame(1) [of b s] by (metis prod.collapse)
  show "presP (dbP (held ad)) (gw_record gc time f)" "presP (dbP (known k)) (gw_record gc time f)"
    unfolding gw_record_def using fr by (auto intro!: presP_on_store presP_frame)
qed

lemma audit_keeps:
  "presP (dbP (held ad)) (audit_admission gc time ad' decision why cost)"
  "presP (dbP (known k)) (audit_admission gc time ad' decision why cost)"
  unfolding audit_admission_def by (intro presP_bind record_keeps presP_simple)+

lemma budget_keeps:
  assumes "agent \<noteq> ad_agent ad \<or> tok \<noteq> ad_token ad"
  shows "presP (dbP (held ad)) (bm_commit (gc_ops gc) dflt agent tok now)"
    and "presP (dbP (held ad)) (bm_release (gc_ops gc) dflt agent tok)"
    and "presP (dbP (held ad)) (bm_reserve (gc_ops gc) dflt agent cost now tok)"
    and "presP (dbP (held ad)) (bm_can_afford (gc_ops gc) dflt agent cost now)"
  using assms by (auto simp: presP_def intro: held_commit held_release held_reserve held_can_afford)

lemma can_afford_keeps: "presP (dbP (held ad)) (bm_can_afford (gc_ops gc) dflt agent cost now)"
  by (auto simp: presP_def intro: held_can_afford)

lemma budget_known:
  "presP (dbP (known k)) (bm_commit (gc_ops gc) dflt agent tok now)"
  "presP (dbP (known k)) (bm_release (gc_ops gc) dflt agent tok)"
  "presP (dbP (known k)) (bm_reserve (gc_ops gc) dflt agent cost now tok)"
  "presP (dbP (known k)) (bm_can_afford (gc_ops gc) dflt agent cost now)"
  using bm_view bm_cost_view by (auto simp: presP_def known_def ledger_view_def)

lemma authorize_keeps:
  assumes "\<And>agent cost. presP J (bm_can_afford (gc_ops gc) (pc_default (gc_policy gc)) agent cost now)"
  shows "presP J (authorize (gc_ops gc) (gc_policy gc) clock now agent capability cost signed src dst scope)"
  unfolding authorize_def
  by (intro presP_bind presP_read presP_simple assms | split option.split prod.split | intro conjI allI impI)+

lemma settle_keeps:
  assumes "foreign ad agent (Some opid)" and "agent \<noteq> ad_agent ad \<or> tok \<noteq> ad_token ad"
  shows "presP (dbP (held ad)) (settle_owned_reservation (gc_ops gc) dflt agent opid tok outcome expected now)"
  unfolding settle_owned_reservation_def
  using assms
  by (intro presP_bind presP_read presP_simple presP_on_store finish_keeps) (auto intro: budget_keeps)

lemma settle_known:
  "presP (dbP (known k)) (settle_owned_reservation (gc_ops gc) dflt agent opid tok outcome expected now)"
  unfolding settle_owned_reservation_def
  by (intro presP_bind presP_read presP_simple presP_on_store finish_keeps) (auto intro: budget_known)

lemma consume_keeps:
  "presP (held ad) (aq_consume (gc_ops gc) agent cap scope)" "presP (known k) (aq_consume (gc_ops gc) agent cap scope)"
  by (rule presP_frame; metis bookkeeping_frame(4) prod.collapse)+

lemma admit_keeps:
  assumes claim: "\<And>opid fp stamp. presP I (ledger_claim None agent opid fp None None None stamp)"
    and attach: "\<And>opid tok. presP I (attach_reservation agent opid tok)"
    and cons: "\<And>cap scope. presP I (aq_consume (gc_ops gc) agent cap scope)"
    and res: "presP (dbP I) (bm_reserve (gc_ops gc) (pc_default (gc_policy gc)) agent (NumFloat (Fin cost))
                 (ce_reserved en) (ce_token en))"
  shows "presP (dbP I) (admit_transaction gc en agent capability cost operation scope required)"
  unfolding admit_transaction_def admit_body_def
  by (intro presP_gw_atomic presP_bind presP_simple presP_on_store claim attach cons res
      | split option.split budget_reply.split if_split | intro conjI allI impI)+

lemma outcome_keeps:
  assumes settle: "\<And>opid. ad_operation ad' = Some opid \<Longrightarrow>
      presP (dbP I) (settle_owned_reservation (gc_ops gc) (pc_default (gc_policy gc)) (ad_agent ad') opid
               (ad_token ad') ''succeeded'' (Some (ad_cost ad')) now)"
    and commit: "presP (dbP I) (bm_commit (gc_ops gc) (pc_default (gc_policy gc)) (ad_agent ad') (ad_token ad') now)"
    and release: "presP (dbP I) (bm_release (gc_ops gc) (pc_default (gc_policy gc)) (ad_agent ad') (ad_token ad'))"
    and finish: "\<And>opid. ad_operation ad' = Some opid \<Longrightarrow> presP I (ledger_finish (ad_agent ad') opid ''failed'' now)"
    and audit: "\<And>d w c. presP (dbP I) (audit_admission gc time ad' d w c)"
  shows "presP (dbP I) (gw_settle gc now time ad')"
    and "presP (dbP I) (abort_admission gc now time ad')"
    and "presP (dbP I) (invocation_failed gc time message type_nm ad')"
proof -
  have lock: "presP (dbP I) (lock_operation ad')"
    unfolding lock_operation_def
    by (intro presP_bind presP_simple presP_on_store lock_keeps | split option.split | intro conjI allI impI)+
  show "presP (dbP I) (gw_settle gc now time ad')" unfolding gw_settle_def
    by (intro presP_gw_atomic presP_bind presP_simple lock audit settle commit
        | split option.split | intro conjI allI impI)+
  show "presP (dbP I) (abort_admission gc now time ad')" unfolding abort_admission_def
    by (intro presP_gw_atomic presP_bind presP_simple presP_on_store lock audit release finish
        | split option.split | intro conjI allI impI)+
  show "presP (dbP I) (invocation_failed gc time message type_nm ad')" unfolding invocation_failed_def
    by (intro presP_bind presP_simple audit release | split if_split | intro conjI allI impI)+
qed

lemma admit_plain:
  assumes run: "admit_transaction gc en agent capability cost None scope required (s, c) = (Inr tok, (s', c'))"
    and cost: "checked_cost (NumFloat (Fin cost)) = Inr cost"
  shows "tok = ce_token en"
    and "map_of (reserved_of (dict_or_empty (map_of (t_budgets s') agent))) tok = Some cost"
proof -
  from run obtain reply s2 c2 where
    res: "bm_reserve (gc_ops gc) (pc_default (gc_policy gc)) agent (NumFloat (Fin cost)) (ce_reserved en) (ce_token en) (s, c)
        = (Inr reply, (s2, c2))"
    and rest: "(case reply of
       ReserveReply (Some token) why \<Rightarrow>
         bindP (retP ()) (\<lambda>_.
         bindP (if required
                then (if pc_approvals (gc_policy gc)
                      then on_store (aq_consume (gc_ops gc) agent capability (Some scope))
                      else retP False)
                else retP True) (\<lambda>granted.
         if granted then retP token
         else raiseP AdmissionRejected ''approval grant already consumed''))
     | ReserveReply None why \<Rightarrow> raiseP AdmissionRejected (render why)
     | _ \<Rightarrow> raiseP AdmissionRejected []) (s2, c2) = (Inr tok, (s', c'))"
    unfolding admit_transaction_def gw_atomic_ok admit_body_def option.case by (auto elim!: bindP_okE)
  obtain t why where reply: "reply = ReserveReply (Some t) why"
    using rest by (cases reply) (auto split: option.splits)
  note r = reserve_ok [OF res [unfolded reply] cost]
  from rest have "bindP (if required
                then (if pc_approvals (gc_policy gc)
                      then on_store (aq_consume (gc_ops gc) agent capability (Some scope))
                      else retP False)
                else retP True) (\<lambda>granted.
         if granted then retP t
         else raiseP AdmissionRejected ''approval grant already consumed'') (s2, c2) = (Inr tok, (s', c'))"
    by (simp add: reply)
  then have "tok = t \<and> t_budgets s' = t_budgets s2"
    by (rule bindP_okE) (auto simp: on_store_iff split: if_splits dest!: bookkeeping_frame(4))
  with r show "tok = ce_token en"
    and "map_of (reserved_of (dict_or_empty (map_of (t_budgets s') agent))) tok = Some cost" by simp_all
qed

text \<open>An admission holds what it was granted, and its operation was new.\<close>

lemma admit_held:
  assumes run: "admit_transaction gc en (ad_agent ad) capability (ad_cost ad) (ad_operation ad) scope required (s, c)
      = (Inr (ad_token ad), (s', c'))"
    and cost: "checked_cost (NumFloat (Fin (ad_cost ad))) = Inr (ad_cost ad)"
  shows "ad_token ad = ce_token en" and "held ad s'"
    and "\<forall>k \<in> set (operation_key ad). \<not> known k s \<and> known k s'"
proof -
  have "ad_token ad = ce_token en \<and> held ad s' \<and> (\<forall>k \<in> set (operation_key ad). \<not> known k s \<and> known k s')"
  proof (cases "ad_operation ad")
    case None
    with admit_plain [OF run [unfolded None] cost] show ?thesis
      by (simp add: held_def reserved_for_def claimed_for_def operation_key_def)
  next
    case (Some opid)
    note a = admit_ok [OF run [unfolded Some] cost]
    from a(1-7) Some show ?thesis
      by (auto simp: held_def reserved_for_def claimed_for_def operation_key_def known_def op_row_of_def map_add_def)
  qed
  then show "ad_token ad = ce_token en" and "held ad s'"
    and "\<forall>k \<in> set (operation_key ad). \<not> known k s \<and> known k s'" by blast+
qed

end

section \<open>The invariant of the workers\<close>

definition flight_tokens :: "gw_world \<Rightarrow> string list" where
  "flight_tokens w = map (\<lambda>(n, ad). ad_token ad) (gw_flight w)"

definition world_inv :: "db \<Rightarrow> gw_world \<Rightarrow> bool" where
  "world_inv s0 w \<longleftrightarrow>
     distinct (gw_sent w) \<and> (\<forall>k \<in> set (gw_sent w). known k (gw_db w) \<and> \<not> known k s0)
     \<and> (\<forall>k. known k s0 \<longrightarrow> known k (gw_db w))
     \<and> distinct (flight_tokens w) \<and> set (flight_tokens w) \<subseteq> gw_tokens w
     \<and> (\<forall>(n, ad) \<in> set (gw_flight w). held ad (gw_db w))"

lemma world_invI:
  assumes "world_inv s0 w" and "\<And>k. known k (gw_db w) \<Longrightarrow> known k s'" and "\<And>ad. held ad (gw_db w) \<Longrightarrow> held ad s'"
  shows "world_inv s0 (w\<lparr>gw_db := s', gw_cache := c\<rparr>)"
  using assms by (auto simp: world_inv_def flight_tokens_def)

lemma world_inv_start: "world_inv s (gw_start s)"
  by (simp add: world_inv_def gw_start_def flight_tokens_def)

text \<open>A step on behalf of one admission that takes it out of flight.\<close>

lemma world_inv_leave:
  assumes inv: "world_inv s0 w" and fl: "(n, ad) \<in> set (gw_flight w)"
    and kn: "\<And>k. known k (gw_db w) \<Longrightarrow> known k s'"
    and oth: "\<And>ad'. held ad' (gw_db w) \<Longrightarrow> ad_token ad' \<noteq> ad_token ad \<Longrightarrow> held ad' s'"
  shows "world_inv s0 (w\<lparr>gw_db := s', gw_cache := c, gw_flight := remove1 (n, ad) (gw_flight w)\<rparr>)"
proof -
  have d: "distinct (flight_tokens w)" using inv by (simp add: world_inv_def)
  obtain xs ys where sp: "gw_flight w = xs @ (n, ad) # ys" and nx: "(n, ad) \<notin> set xs"
    using split_list_first [OF fl] by blast
  have rm: "remove1 (n, ad) (gw_flight w) = xs @ ys" using nx by (simp add: sp remove1_append)
  have d': "distinct (map (\<lambda>(n, ad). ad_token ad) (xs @ ys))"
    and new: "ad_token ad \<notin> set (map (\<lambda>(n, ad). ad_token ad) (xs @ ys))"
    using d by (simp_all add: flight_tokens_def sp)
  have "held ad' s'" if "(m, ad') \<in> set (xs @ ys)" for m ad'
  proof -
    from imageI [OF that, of "\<lambda>(n, ad). ad_token ad"] new have "ad_token ad' \<noteq> ad_token ad" by auto
    moreover have "(m, ad') \<in> set (gw_flight w)" using that by (auto simp: sp)
    with inv have "held ad' (gw_db w)" unfolding world_inv_def by blast
    ultimately show ?thesis using oth by blast
  qed
  moreover have "set (map (\<lambda>(n, ad). ad_token ad) (xs @ ys)) \<subseteq> gw_tokens w"
    using inv by (simp add: world_inv_def flight_tokens_def sp)
  moreover have "distinct (gw_sent w)" "\<forall>k \<in> set (gw_sent w). known k s' \<and> \<not> known k s0"
    "\<forall>k. known k s0 \<longrightarrow> known k s'"
    using inv kn by (auto simp: world_inv_def)
  ultimately show ?thesis using d' by (auto simp: world_inv_def flight_tokens_def rm)
qed

lemma held_foreign:
  "held ad s \<Longrightarrow> held ad' s \<Longrightarrow> ad_token ad' \<noteq> ad_token ad \<Longrightarrow> foreign ad' (ad_agent ad) (ad_operation ad)"
  by (auto simp: held_def claimed_for_def foreign_def split: option.splits)

lemma world_inv_die: "world_inv s0 w \<Longrightarrow> world_inv s0 (w\<lparr>gw_cache := c, gw_flight := filter P (gw_flight w)\<rparr>)"
  by (auto simp: world_inv_def flight_tokens_def distinct_map intro: inj_on_subset)

lemma world_inv_admit:
  assumes inv: "world_inv s0 w" and fresh: "ad_token ad \<notin> gw_tokens w" and h: "held ad s'"
    and new: "\<forall>k \<in> set (operation_key ad). \<not> known k (gw_db w) \<and> known k s'"
    and kn: "\<And>k. known k (gw_db w) \<Longrightarrow> known k s'"
    and oth: "\<And>ad'. held ad' (gw_db w) \<Longrightarrow> ad_token ad' \<noteq> ad_token ad \<Longrightarrow> held ad' s'"
  shows "world_inv s0 (w\<lparr>gw_db := s', gw_cache := c, gw_flight := gw_flight w @ [(n, ad)],
                      gw_sent := gw_sent w @ operation_key ad, gw_tokens := insert (ad_token ad) (gw_tokens w)\<rparr>)"
proof -
  have "held ad' s'" if "(m, ad') \<in> set (gw_flight w)" for m ad'
  proof -
    have "ad_token ad' \<in> gw_tokens w" using inv imageI [OF that, of "\<lambda>(n, ad). ad_token ad"]
      by (auto simp: world_inv_def flight_tokens_def)
    with fresh have "ad_token ad' \<noteq> ad_token ad" by auto
    moreover from inv that have "held ad' (gw_db w)" unfolding world_inv_def by blast
    ultimately show ?thesis using oth by blast
  qed
  moreover have "distinct (gw_sent w @ operation_key ad)"
    using inv new by (auto simp: world_inv_def operation_key_def split: option.splits)
  moreover have "distinct (flight_tokens w @ [ad_token ad])"
    using inv fresh by (auto simp: world_inv_def)
  moreover have "\<forall>k \<in> set (gw_sent w). known k s' \<and> \<not> known k s0" "\<forall>k. known k s0 \<longrightarrow> known k s'"
    using inv kn by (auto simp: world_inv_def)
  moreover have "\<forall>k \<in> set (operation_key ad). \<not> known k s0" using inv new by (auto simp: world_inv_def)
  moreover have "set (flight_tokens w) \<subseteq> gw_tokens w" using inv by (simp add: world_inv_def)
  ultimately show ?thesis using h new unfolding world_inv_def by (auto simp: flight_tokens_def)
qed

context gateway
begin

lemma outcome_known:
  "presP (dbP (known k)) (gw_settle gc now time ad)"
  "presP (dbP (known k)) (abort_admission gc now time ad)"
  "presP (dbP (known k)) (invocation_failed gc time message type_nm ad)"
  by (rule outcome_keeps; intro settle_known budget_known finish_keeps audit_keeps)+

lemma outcome_held:
  assumes "foreign ad' (ad_agent ad) (ad_operation ad)" and "ad_token ad' \<noteq> ad_token ad"
  shows "presP (dbP (held ad')) (gw_settle gc now time ad)"
    and "presP (dbP (held ad')) (abort_admission gc now time ad)"
    and "presP (dbP (held ad')) (invocation_failed gc time message type_nm ad)"
proof -
  have f: "foreign ad' (ad_agent ad) (Some opid)" if "ad_operation ad = Some opid" for opid
    using assms(1) that by simp
  have t: "ad_agent ad \<noteq> ad_agent ad' \<or> ad_token ad \<noteq> ad_token ad'" using assms(2) by auto
  show "presP (dbP (held ad')) (gw_settle gc now time ad)"
    and "presP (dbP (held ad')) (abort_admission gc now time ad)"
    and "presP (dbP (held ad')) (invocation_failed gc time message type_nm ad)"
    by (rule outcome_keeps; (intro settle_keeps finish_keeps f t budget_keeps(1,2) [OF t] audit_keeps)?; assumption?)+
qed

lemma admit_known: "presP (dbP (known k)) (admit_transaction gc en agent capability cost operation scope required)"
  by (intro admit_keeps claim_keeps attach_keeps consume_keeps budget_known)

lemma admit_holds:
  "ce_token en \<noteq> ad_token ad \<Longrightarrow>
     presP (dbP (held ad)) (admit_transaction gc en agent capability cost operation scope required)"
  by (intro admit_keeps claim_keeps attach_keeps consume_keeps budget_keeps) blast

text \<open>One preservation lemma for each group of steps, then the step relation.\<close>

lemma world_inv_bookkeeping:
  assumes "world_inv s0 w" and "ledger_view s' = ledger_view (gw_db w) \<and> t_budgets s' = t_budgets (gw_db w)"
  shows "world_inv s0 (w\<lparr>gw_db := s'\<rparr>)"
  using world_invI [OF assms(1), of s' "gw_cache w"] held_cong [of s' "gw_db w"] known_cong [of s' "gw_db w"] assms(2)
  by simp

lemma world_inv_check:
  assumes "world_inv s0 w"
    and "authorize (gc_ops gc) (gc_policy gc) clock now agent capability cost signed src dst scope
            (gw_db w, gw_cache w n) = (r, (s', c'))"
  shows "world_inv s0 (w\<lparr>gw_db := s', gw_cache := (gw_cache w)(n := c')\<rparr>)"
  using assms(1)
proof (rule world_invI)
  let ?m = "authorize (gc_ops gc) (gc_policy gc) clock now agent capability cost signed src dst scope"
  show "known k s'" if "known k (gw_db w)" for k
    using presP_D [OF authorize_keeps [OF budget_known(4)], of k "(gw_db w, gw_cache w n)"] assms(2) that by (metis fst_conv snd_conv)
  show "held ad s'" if "held ad (gw_db w)" for ad
    using presP_D [OF authorize_keeps [OF can_afford_keeps], of ad "(gw_db w, gw_cache w n)"] assms(2) that by (metis fst_conv snd_conv)
qed

lemma world_inv_outcome:
  assumes inv: "world_inv s0 w" and fl: "(n, ad) \<in> set (gw_flight w)" and run: "m (gw_db w, gw_cache w n) = (r, (s', c'))"
    and kn: "\<And>k. presP (dbP (known k)) m"
    and oth: "\<And>ad'. foreign ad' (ad_agent ad) (ad_operation ad) \<Longrightarrow> ad_token ad' \<noteq> ad_token ad \<Longrightarrow> presP (dbP (held ad')) m"
  shows "world_inv s0 (w\<lparr>gw_db := s', gw_cache := (gw_cache w)(n := c'), gw_flight := remove1 (n, ad) (gw_flight w)\<rparr>)"
  using inv fl
proof (rule world_inv_leave)
  have h: "held ad (gw_db w)" using inv fl unfolding world_inv_def by blast
  show "known k s'" if "known k (gw_db w)" for k
    using presP_D [OF kn, of k "(gw_db w, gw_cache w n)"] run that by simp
  show "held ad' s'" if "held ad' (gw_db w)" "ad_token ad' \<noteq> ad_token ad" for ad'
    using presP_D [OF oth [OF held_foreign [OF h that] that(2)], of "(gw_db w, gw_cache w n)"] run that by simp
qed

lemma world_inv_admission:
  assumes inv: "world_inv s0 w"
    and run: "admit_transaction gc en (ad_agent ad) capability (ad_cost ad) (ad_operation ad) scope required
      (gw_db w, gw_cache w n) = (Inr (ad_token ad), (s', c'))"
    and cost: "checked_cost (NumFloat (Fin (ad_cost ad))) = Inr (ad_cost ad)" and fresh: "ce_token en \<notin> gw_tokens w"
  shows "world_inv s0 (w\<lparr>gw_db := s', gw_cache := (gw_cache w)(n := c'), gw_flight := gw_flight w @ [(n, ad)],
                      gw_sent := gw_sent w @ operation_key ad, gw_tokens := insert (ad_token ad) (gw_tokens w)\<rparr>)"
proof (rule world_inv_admit [OF inv])
  note h = admit_held [OF run cost]
  show "ad_token ad \<notin> gw_tokens w" "held ad s'"
    "\<forall>k \<in> set (operation_key ad). \<not> known k (gw_db w) \<and> known k s'" using h fresh by auto
  show "known k s'" if "known k (gw_db w)" for k
    using presP_D [OF admit_known [of k], of "(gw_db w, gw_cache w n)"] run that by (metis fst_conv snd_conv)
  show "held ad' s'" if "held ad' (gw_db w)" "ad_token ad' \<noteq> ad_token ad" for ad'
    using presP_D [OF admit_holds [of en ad'], of "(gw_db w, gw_cache w n)"] run that h(1) by (metis fst_conv snd_conv)
qed

lemma world_inv_step: "gw_step gc w w' \<Longrightarrow> world_inv s0 w \<Longrightarrow> world_inv s0 w'"
proof (induction rule: gw_step.induct)
  case (Admit en agent capability cost operation scope required w n tok s' c' ad)
  have "admit_transaction gc en (ad_agent ad) capability (ad_cost ad) (ad_operation ad) scope required
      (gw_db w, gw_cache w n) = (Inr (ad_token ad), (s', c'))"
    and "checked_cost (NumFloat (Fin (ad_cost ad))) = Inr (ad_cost ad)" using Admit.hyps by (simp_all only:)
  from world_inv_admission [OF Admit.prems this Admit.hyps(3)] show ?case using Admit.hyps(6) by (simp only:)
next
  case (Reject en agent capability cost operation scope required w n e s' c')
  then have "s' = gw_db w" unfolding admit_transaction_def by (auto dest: gw_atomic_exn)
  then show ?case using world_invI [OF Reject.prems, of s' "(gw_cache w)(n := c')"] by (simp only:)
next
  case (SettleFails n ad w now time e s' c')
  then have "s' = gw_db w" unfolding gw_settle_def by (auto dest: gw_atomic_exn)
  then show ?case using world_invI [OF SettleFails.prems, of s' "(gw_cache w)(n := c')"] by (simp only:)
next
  case (Settle n ad w now time u s' c')
  show ?case
    using Settle.prems Settle.hyps outcome_known(1) outcome_held(1) by (rule world_inv_outcome)
next
  case (Abort n ad w now time r s' c')
  show ?case
    using Abort.prems Abort.hyps outcome_known(2) outcome_held(2) by (rule world_inv_outcome)
next
  case (Fail n ad w time message type_nm r s' c')
  show ?case
    using Fail.prems Fail.hyps outcome_known(3) outcome_held(3) by (rule world_inv_outcome)
next
  case (Die w n)
  then show ?case by (rule world_inv_die)
next
  case Check
  show ?case using Check.prems Check.hyps by (rule world_inv_check)
next
  case Ask
  show ?case using Ask.prems request_frame [OF Ask.hyps] by (rule world_inv_bookkeeping)
next
  case Approve
  show ?case using Approve.prems bookkeeping_frame(3) [OF Approve.hyps [unfolded aq_approve_def]] by (rule world_inv_bookkeeping)
next
  case Deny
  show ?case using Deny.prems bookkeeping_frame(3) [OF Deny.hyps [unfolded aq_deny_def]] by (rule world_inv_bookkeeping)
next
  case Note
  show ?case using Note.prems bookkeeping_frame(1) [OF Note.hyps] by (rule world_inv_bookkeeping)
qed

lemma world_inv_run: "(gw_step gc)\<^sup>*\<^sup>* (gw_start s) w \<Longrightarrow> world_inv s w"
  by (induction rule: rtranclp_induct) (auto intro: world_inv_start world_inv_step)

text \<open>An operation whose invocation failed keeps its claim and its reservation.\<close>

lemma failed_keeps_own:
  assumes "ad_operation ad \<noteq> None"
  shows "presP (dbP (held ad)) (invocation_failed gc time message type_nm ad)"
  using assms unfolding invocation_failed_def by (auto intro!: presP_bind audit_keeps)

text \<open>
  A dispatched operation can be settled from what is held for it; only the audit record can
  stand in the way.
\<close>

lemma settle_succeeds:
  assumes h: "held ad s" and op: "ad_operation ad = Some opid"
    and cost: "checked_cost (NumFloat (Fin (ad_cost ad))) = Inr (ad_cost ad)"
    and doc: "map_of (t_budgets s) (ad_agent ad) = Some (b_state b)"
    and exn: "fst (gw_settle gc now time ad (s, c)) = Inl e"
  shows "\<exists>f s1. fst (append_audit_chained (gc_ops gc) (build_entry (gc_digest gc) f time) s1) = Inl e"
proof -
  let ?settle = "settle_owned_reservation (gc_ops gc) (pc_default (gc_policy gc)) (ad_agent ad) opid
      (ad_token ad) ''succeeded'' (Some (ad_cost ad)) now"
  from h op obtain r where r: "map_of (t_operations s) (ad_agent ad, opid) = Some r" "op_state r = ''unknown''"
    and res: "map_of (t_reservations s) (ad_agent ad, opid) = Some (ad_token ad)"
    by (auto simp: held_def claimed_for_def)
  from h doc have amt: "map_of (reserved b) (ad_token ad) = Some (ad_cost ad)"
    by (simp add: held_def reserved_for_def dict_or_empty_def)
  have lock: "lock_operation ad (s, c) = (Inr (), (s, c))"
    using r op by (simp add: lock_operation_def lock_unknown_operation_def on_store_def bindP_def)
  have own: "owned_amount (gc_ops gc) (ad_agent ad) opid (ad_token ad) s = Inr (ad_cost ad)"
    using res doc amt cost by (simp add: owned_amount_def get_budget_table bindE_def)
  have "commit_mut (pc_default (gc_policy gc)) c (ad_agent ad) (ad_token ad) now (b_state b)
      = (Inr (Changed True), b_state (snd (b_commit (ad_token ad) now b)))"
    using amt by (simp add: commit_mut_complete b_commit_def)
  from bm_mutate_doc [of s "ad_agent ad" b "commit_mut (pc_default (gc_policy gc)) c (ad_agent ad) (ad_token ad) now",
      OF doc this, of c] obtain s1 rows where
    bm: "bm_commit (gc_ops gc) (pc_default (gc_policy gc)) (ad_agent ad) (ad_token ad) now (s, c)
          = (Inr (Changed True), (s1, AList.delete (ad_agent ad) c))" and s1: "s1 = s\<lparr>t_budgets := rows\<rparr>"
    by (auto simp: bm_commit_def)
  obtain s2 where fin: "ledger_finish (ad_agent ad) opid ''succeeded'' now s1 = (Inr (), s2)"
    using r s1 by (simp add: ledger_finish_def)
  have st: "?settle (s, c) = (Inr (ad_cost ad), (s2, AList.delete (ad_agent ad) c))"
    using own bm fin by (simp add: settle_owned_reservation_def bindP_def on_store_def)
  obtain f where au: "audit_admission gc time ad ''allow'' (ad_reason ad) (ad_cost ad)
      = bindP (gw_record gc time f) (\<lambda>_. retP ())" by (auto simp: audit_admission_def)
  have "fst (gw_record gc time f (s2, AList.delete (ad_agent ad) c)) = Inl e"
    using exn lock st op
    by (simp add: gw_settle_def gw_atomic_def bindP_def au split: prod.splits sum.splits)
  then show ?thesis by (auto simp: gw_record_def on_store_def case_prod_beta)
qed

end

interpretation gw_sqlite: gateway "gc\<lparr>gc_ops := sqlite_ops env esize\<rparr>" for gc env esize
  by (simp add: gateway_def sqlite.sql_store_axioms)

interpretation gw_pg: gateway "gc\<lparr>gc_ops := pg_ops env esize\<rparr>" for gc env esize
  by (simp add: gateway_def pg.sql_store_axioms)

section \<open>Calls that are not admitted\<close>

text \<open>A program that raises without touching an observation of the state.\<close>

definition exnP :: "('s \<Rightarrow> 'v) \<Rightarrow> ('s, 'a) prog \<Rightarrow> bool" where
  "exnP f m \<longleftrightarrow> (\<forall>s e s'. m s = (Inl e, s') \<longrightarrow> f s' = f s)"

lemma exnP_keeps: "keepsP f m \<Longrightarrow> exnP f m"
  by (metis exnP_def keepsP_D)

lemma exnP_bind:
  assumes "keepsP f m" and "\<And>a. exnP f (g a)" shows "exnP f (bindP m g)"
  unfolding exnP_def
proof (intro allI impI)
  fix s e s'' assume "bindP m g s = (Inl e, s'')"
  then consider "m s = (Inl e, s'')" | a s' where "m s = (Inr a, s')" "g a s' = (Inl e, s'')"
    by (auto simp: bindP_exn_iff)
  then show "f s'' = f s"
  proof cases
    case 1
    with assms(1) show ?thesis by (rule keepsP_D)
  next
    case 2
    with assms(2) have "f s'' = f s'" by (auto simp: exnP_def)
    also have "f s' = f s" using assms(1) 2(1) by (rule keepsP_D)
    finally show ?thesis .
  qed
qed

lemma exnP_ret: "exnP f m \<Longrightarrow> exnP f (bindP m (\<lambda>a. retP (g a)))"
  by (auto simp: exnP_def bindP_exn_iff)

lemma exnP_handle:
  assumes "exnP f m" and "\<And>e. keepsP f (h e)" shows "exnP f (handleP m h)"
  unfolding exnP_def
proof (intro allI impI)
  fix s e s'' assume "handleP m h s = (Inl e, s'')"
  then obtain e' s' where m: "m s = (Inl e', s')" and h: "h e' s' = (Inl e, s'')"
    by (auto simp: handleP_def split: prod.splits sum.splits)
  have "f s'' = f s'" using assms(2) h by (rule keepsP_D)
  also have "f s' = f s" using assms(1) m by (auto simp: exnP_def)
  finally show "f s'' = f s" .
qed

lemma if_keeps:
  "(b \<Longrightarrow> keepsP f m) \<Longrightarrow> (\<not> b \<Longrightarrow> keepsP f n) \<Longrightarrow> keepsP f (if b then m else n)"
  "(b \<Longrightarrow> exnP f m) \<Longrightarrow> (\<not> b \<Longrightarrow> exnP f n) \<Longrightarrow> exnP f (if b then m else n)"
  by simp_all

abbreviation ledger_of :: "gw_state \<Rightarrow> _" where
  "ledger_of \<equiv> \<lambda>st. ledger_view (fst st)"

context gateway
begin

lemma record_ledger: "keepsP ledger_of (gw_record gc time f)"
  unfolding gw_record_def keepsP_def on_store_def using bookkeeping_frame(1)
  by (auto split: prod.splits)

lemma deny_ledger: "keepsP ledger_of (deny_call gc en ca capability why)"
  unfolding deny_call_def by (intro keepsP_bind record_ledger keepsP_simple)

lemma prod_checks_ledger: "keepsP ledger_of (prod_checks gc en ca capability)"
  unfolding prod_checks_def
  by (intro keepsP_bind deny_ledger keepsP_simple | split if_split | intro conjI impI)+

lemma known_ledger: "keepsP ledger_of (known_operation agent operation scope)"
  unfolding known_operation_def
  by (intro keepsP_bind keepsP_simple | split if_split option.split | intro conjI impI allI)+

lemma authorize_ledger:
  "keepsP ledger_of (authorize (gc_ops gc) (gc_policy gc) clock now agent capability cost signed src dst scope)"
  unfolding keepsP_presP
  by (intro allI authorize_keeps) (auto simp: presP_def bm_cost_view)

lemma request_ledger: "keepsP ledger_of (on_store (aq_request (gc_ops gc) agent capability cost scope uuid created))"
  unfolding keepsP_def on_store_def using request_frame by (auto split: prod.splits)

lemma admit_exn_ledger: "exnP ledger_of (admit_transaction gc en agent capability cost operation scope required)"
  unfolding exnP_def admit_transaction_def by (auto dest!: gw_atomic_exn)

lemma refused_ledger:
  "exnP ledger_of (bindP (if b
       then bindP (on_store (aq_request (gc_ops gc) agent capability cost scope uuid created)) (\<lambda>_. retP ()) else retP ())
     (\<lambda>_. deny_call gc en ca capability why))"
  by (rule exnP_keeps) (intro keepsP_bind if_keeps(1) deny_ledger request_ledger keepsP_simple)

lemma admitted_ledger:
  "exnP ledger_of (bindP (liftP wire) (\<lambda>dst_wire.
     bindP (handleP (admit_transaction gc en agent capability cost operation scope required)
       (\<lambda>e. if exn_class e = AdmissionRejected then deny_call gc en ca capability [Txt (exn_msg e)] else liftP (Inl e)))
     (\<lambda>token. retP (g dst_wire token))))"
  by (rule exnP_bind [OF keepsP_simple(4)], rule exnP_ret, rule exnP_handle [OF admit_exn_ledger], rule if_keeps(1))
    (rule deny_ledger keepsP_simple)+

lemma gw_admit_exn: "exnP ledger_of (gw_admit gc en ca)"
  unfolding gw_admit_def Let_def
  by (rule refused_ledger admitted_ledger | rule if_keeps(2) | rule exnP_bind keepsP_simple prod_checks_ledger
      known_ledger authorize_ledger)+

end

section \<open>Properties of the gateway\<close>

text \<open>C1: However any number of gateway workers interleave their calls over one SQL database, and whichever of
  them die, no operation is let through twice, and none that was in the ledger before they
  started; every admitted call that is still in flight has its claim, its reservation and the
  link between them in the database.\<close>

theorem dispatched_at_most_once:
  assumes "(gw_step (gc\<lparr>gc_ops := sqlite_ops env esize\<rparr>))\<^sup>*\<^sup>* (gw_start s) w
      \<or> (gw_step (gc\<lparr>gc_ops := pg_ops env esize\<rparr>))\<^sup>*\<^sup>* (gw_start s) w"
  shows "distinct (gw_sent w) \<and> (\<forall>k \<in> set (gw_sent w). map_of (t_operations s) k = None)
    \<and> (\<forall>(n, ad) \<in> set (gw_flight w). held ad (gw_db w))"
proof -
  have "world_inv s w" using assms gw_sqlite.world_inv_run gw_pg.world_inv_run by blast
  then show ?thesis by (auto simp: world_inv_def known_def)
qed

definition demo_gc :: gw_conf where
  "demo_gc = \<lparr>gc_policy = demo_policy, gc_ops = sqlite_ops [] (\<lambda>_. 1), gc_digest = toy_digest, gc_registry = [],
     gc_sha = (\<lambda>_. ''scope'')\<rparr>"

definition demo_env :: call_env where
  "demo_env = \<lparr>ce_clock = (0, 0), ce_now = 1, ce_claimed = 2, ce_reserved = 3, ce_token = ''tok'', ce_approval = ''ap'',
     ce_created = ''c'', ce_time = ''t'', ce_id0 = ''i'', ce_id1 = ''j'', ce_id2 = ''k''\<rparr>"

definition demo_ad :: admission where
  "demo_ad = \<lparr>ad_agent = ''a'', ad_src = ''mcp'', ad_dst = ''a2a'', ad_capability = ''pay'', ad_cost = 7, ad_token = ''tok'',
     ad_operation = Some ''op'', ad_wire = JNull, ad_reason = []\<rparr>"

definition admitted_db :: db where
  "admitted_db = empty_db\<lparr>t_budgets := [(''a'', b_state (default_budget\<lparr>reserved := [(''tok'', 7)]\<rparr>))],
     t_operations := [((''a'', ''op''), \<lparr>op_fingerprint = ''scope'', op_state = ''unknown'', op_updated = 2\<rparr>)],
     t_reservations := [((''a'', ''op''), ''tok'')]\<rparr>"

lemma demo_admission:
  "admit_transaction demo_gc demo_env ''a'' ''pay'' 7 (Some ''op'') ''scope'' False (empty_db, []) = (Inr ''tok'', (admitted_db, []))"
  by (simp add: admit_transaction_def admit_body_def gw_atomic_def ledger_claim_def attach_reservation_def insert_reservation_def
      insert_key_def valid_text_def demo_gc_def demo_env_def demo_policy_def admitted_db_def budget_eval
      sqlite_ops_def sqlite_mutate_budget_def sqlite_get_budget_def sql_atomic_def empty_db_def empty_tables_def
      gov_tables.defs sql_tables.defs)

theorem dispatched_at_most_once_witness:
  "\<exists>w. (gw_step (demo_gc\<lparr>gc_ops := sqlite_ops [] (\<lambda>_. 1)\<rparr>))\<^sup>*\<^sup>* (gw_start empty_db) w
     \<and> gw_sent w = [(''a'', ''op'')] \<and> (\<forall>(n, ad) \<in> set (gw_flight w). held ad (gw_db w))"
proof -
  let ?gc = "demo_gc\<lparr>gc_ops := sqlite_ops [] (\<lambda>_. 1)\<rparr>"
  have gc: "?gc = demo_gc" by (simp add: demo_gc_def)
  let ?w = "(gw_start empty_db)\<lparr>gw_db := admitted_db, gw_cache := (\<lambda>_. [])(0 := []), gw_flight := [(0, demo_ad)],
      gw_sent := [(''a'', ''op'')], gw_tokens := {''tok''}\<rparr>"
  have e: "ce_token demo_env = ''tok''" "t_budgets empty_db = []"
    by (simp_all add: demo_env_def empty_db_def empty_tables_def gov_tables.defs)
  have "gw_step ?gc (gw_start empty_db) ?w"
    using gw_step.Admit [of ?gc demo_env "''a''" "''pay''" 7 "Some ''op''" "''scope''" False "gw_start empty_db" 0 "''tok''"
        admitted_db "[]" demo_ad]
    unfolding gc using e by (simp add: demo_admission demo_ad_def gw_start_def operation_key_def)
  then have run: "(gw_step ?gc)\<^sup>*\<^sup>* (gw_start empty_db) ?w" by (rule r_into_rtranclp)
  from dispatched_at_most_once [where gc = demo_gc and env = "[]" and esize = "\<lambda>_. 1" and s = empty_db and w = ?w] run
  have "\<forall>(n, ad) \<in> set (gw_flight ?w). held ad (gw_db ?w)" by blast
  with run show ?thesis by (intro exI [of _ ?w]) simp
qed


lemma demo_held: "held demo_ad admitted_db"
  by (simp add: held_def reserved_for_def claimed_for_def demo_ad_def admitted_db_def dict_or_empty_def b_state_def reserved_of_def)


text \<open>C8: An operation whose outcome is unknown stays claimed: when the invocation of an operation fails, its
  claim and its reservation stay in the database, and whoever asks for the operation again is
  refused without effect.\<close>

theorem unknown_outcome_is_kept:
  assumes "held ad s" and "ad_operation ad = Some opid" and "gc_ops gc = sqlite_ops env esize"
    and "invocation_failed gc time message type_nm ad (s, c) = (r, (s', c'))"
  shows "held ad s' \<and> (\<exists>e c''. admit_transaction gc en (ad_agent ad) capability cost (Some opid) scope required (s', c1) = (Inl e, (s', c'')))"
proof -
  have gc: "gc\<lparr>gc_ops := sqlite_ops env esize\<rparr> = gc" using assms(3) by (metis gw_conf.surjective gw_conf.update_convs(2))
  have "presP (dbP (held ad)) (invocation_failed gc time message type_nm ad)"
    using gw_sqlite.failed_keeps_own [where gc = gc and env = env and esize = esize, of ad time message type_nm] assms(2) unfolding gc by simp
  from presP_D [OF this, of "(s, c)"] assms(1,4) have h: "held ad s'" by simp
  then obtain row where "map_of (t_operations s') (ad_agent ad, opid) = Some row"
    using assms(2) by (auto simp: held_def claimed_for_def)
  from claim_present [OF this, of None scope None None None "ce_claimed en"]
  have "\<exists>e c''. admit_transaction gc en (ad_agent ad) capability cost (Some opid) scope required (s', c1) = (Inl e, (s', c''))"
    by (auto simp: admit_transaction_def admit_body_def gw_atomic_def on_store_def)
  with h show ?thesis by blast
qed

theorem unknown_outcome_is_kept_witness:
  "held demo_ad (fst (snd (invocation_failed demo_gc ''t'' ''boom'' ''E'' demo_ad (admitted_db, []))))"
proof -
  obtain r s' c' where run: "invocation_failed demo_gc ''t'' ''boom'' ''E'' demo_ad (admitted_db, []) = (r, (s', c'))" by (metis surj_pair)
  from unknown_outcome_is_kept [OF demo_held _ _ run, of "''op''" "[]" "\<lambda>_. 1" demo_env "''pay''" 7 "''scope''" False "[]"] run
  show ?thesis by (simp add: demo_ad_def demo_gc_def)
qed

text \<open>C21: A call that is not admitted, for whatever reason, leaves no claim and no link to a reservation behind:
  the ledger is as it was.\<close>

theorem refused_call_leaves_no_claim:
  assumes "gw_admit gc en ca (s, c) = (Inl e, (s', c'))" and "gc_ops gc \<in> {sqlite_ops env esize, pg_ops env esize}"
  shows "t_operations s' = t_operations s \<and> t_reservations s' = t_reservations s"
proof -
  have u: "gc\<lparr>gc_ops := x\<rparr> = gc" if "gc_ops gc = x" for x using that by (metis gw_conf.surjective gw_conf.update_convs(2))
  have "exnP ledger_of (gw_admit gc en ca)"
    using assms(2) u gw_sqlite.gw_admit_exn [where gc = gc and env = env and esize = esize]
      gw_pg.gw_admit_exn [where gc = gc and env = env and esize = esize] by (metis insertE singletonD)
  then have "ledger_of (s', c') = ledger_of (s, c)" using assms(1) unfolding exnP_def by blast
  then show ?thesis by (simp add: ledger_view_def)
qed

definition refused_call :: gw_call where
  "refused_call = \<lparr>ca_agent = ''a'', ca_src = ''mcp'', ca_dst = ''a2a'', ca_wire = JNull, ca_cost = NumInt 1, ca_target = None,
     ca_operation = Some ''op'', ca_signed = None, ca_body = None, ca_nonce = None\<rparr>"

theorem refused_call_leaves_no_claim_witness:
  "\<exists>e s' c'. gw_admit demo_gc demo_env refused_call (admitted_db, []) = (Inl e, (s', c')) \<and> t_operations s' = t_operations admitted_db"
proof -
  have "\<exists>e s' c'. gw_admit demo_gc demo_env refused_call (admitted_db, []) = (Inl e, (s', c'))"
    by (simp add: gw_admit_def refused_call_def demo_gc_def demo_policy_def require_legacy_authority_def authority_mode_def
        checked_cost_int reg_get_def bindP_def bindE_def)
  then obtain e s' c' where run: "gw_admit demo_gc demo_env refused_call (admitted_db, []) = (Inl e, (s', c'))" by blast
  from refused_call_leaves_no_claim [OF run, of "[]" "\<lambda>_. 1"] run show ?thesis by (auto simp: demo_gc_def)
qed

end
