(* ===== verification/Py_FloatText.thy ===== *)
theory Py_FloatText
  imports Py_JsonText
begin

text \<open>
  The decimal text of a float reads back as the float: \<open>repr\<close> tries up to seventeen significant digits,
  and the seventeen-digit decimal next to a binary64 value is closer to it than to any other.  With
  this the round trip of \<open>Py_JsonText\<close> holds for every JSON value of Python (\<open>py_json\<close>), and whatever
  \<open>loads\<close> returns is such a value.
\<close>

section \<open>Rounding of a value close to a binary64 value\<close>

lemma round_even_near: "\<bar>y - of_int m\<bar> < 1 / 2 \<Longrightarrow> round_even y = m"
proof -
  assume a: "\<bar>y - of_int m\<bar> < 1 / 2"
  show ?thesis
  proof (cases "of_int m \<le> y")
    case True
    with a have "\<lfloor>y\<rfloor> = m" "y - of_int m < 1 / 2" by (simp_all add: floor_eq_iff)
    then show ?thesis by (simp add: round_even_def Let_def)
  next
    case False
    with a have "\<lfloor>y\<rfloor> = m - 1" "y - of_int (m - 1) > 1 / 2" by (simp_all add: floor_eq_iff)
    then show ?thesis by (simp add: round_even_def Let_def)
  qed
qed

lemma ilog2_eq: "power_int 2 e \<le> x \<Longrightarrow> x < power_int 2 (e + 1) \<Longrightarrow> ilog2 x = e"
proof -
  assume a: "power_int 2 e \<le> x" "x < power_int 2 (e + 1)"
  have pos: "0 < x" using a(1) by (rule less_le_trans [rotated]) simp
  have "ilog2 x < e + 1"
  proof (rule ccontr)
    assume "\<not> ilog2 x < e + 1"
    then have "power_int 2 (e + 1) \<le> (power_int 2 (ilog2 x) :: rat)" by (intro power_int_increasing) auto
    with ilog2_bounds(1) [OF pos] a(2) show False by linarith
  qed
  with ilog2_ge [OF a(1) pos] show ?thesis by simp
qed

text \<open>Two positive values in one binade, or both where the spacing is smallest, are rounded to the same grid.\<close>

definition grid :: "int \<Rightarrow> int" where
  "grid e = max (-1074) (e - 52)"

lemma fl_on_grid:
  assumes "0 < d" and "ilog2 d = e"
  shows "fl d = of_int (round_even (d / power_int 2 (grid e))) * power_int 2 (grid e)"
  using assms by (simp add: fl_def Let_def grid_def)

lemma double_multiple:
  assumes "0 < a" and "fl a = a"
  obtains m where "a = of_int m * power_int 2 (grid (ilog2 a))"
  using fl_on_grid [OF assms(1) refl] assms(2) by metis

lemma near_rounds:
  fixes a d :: rat
  assumes a: "a = of_int m * power_int 2 g" and d: "\<bar>d - a\<bar> < power_int 2 g / 2"
  shows "of_int (round_even (d / power_int 2 g)) * power_int 2 g = a"
proof -
  have p: "(0 :: rat) < power_int 2 g" by simp
  have "d / power_int 2 g - of_int m = (d - a) / power_int 2 g" using p by (simp add: a field_simps)
  then have "\<bar>d / power_int 2 g - of_int m\<bar> = \<bar>d - a\<bar> / power_int 2 g" using p by (simp add: abs_divide)
  also have "\<dots> < 1 / 2" using d p by (simp add: divide_less_eq)
  finally show ?thesis using a by (simp add: round_even_near)
qed

lemma fl_near:
  fixes a d :: rat
  assumes pos: "0 < a" and dbl: "fl a = a" and near: "\<bar>d - a\<bar> < a / 2 ^ 54"
  shows "fl d = a"
proof -
  define e where "e = ilog2 a"
  have lo: "power_int 2 e \<le> a" and hi: "a < power_int 2 (e + 1)" using ilog2_bounds [OF pos] by (simp_all add: e_def)
  obtain m where m: "a = of_int m * power_int 2 (grid e)" using double_multiple [OF pos dbl] by (auto simp: e_def)
  have ge: "e - 52 \<le> grid e" by (simp add: grid_def)
  have U: "power_int 2 (e - 52) \<le> (power_int 2 (grid e) :: rat)" using ge by (intro power_int_increasing) auto
  have e54: "power_int 2 (e + 1) / 2 ^ 54 = (power_int 2 (e - 52) / 2 :: rat)"
    by (simp add: power_int_add power_int_diff)
  have half: "\<bar>d - a\<bar> < power_int 2 (grid e) / 2"
  proof -
    have "a / 2 ^ 54 < power_int 2 (e + 1) / 2 ^ 54" using hi by (intro divide_strict_right_mono) auto
    with near U e54 show ?thesis by linarith
  qed
  have dpos: "0 < d"
  proof -
    have "a / 2 ^ 54 < a" using pos by simp
    with near show ?thesis by linarith
  qed
  have same: "fl d = a" if "grid (ilog2 d) = grid e"
    using fl_on_grid [OF dpos refl] near_rounds [OF m half] that by simp
  show ?thesis
  proof (cases "power_int 2 e \<le> d")
    case True
    show ?thesis
    proof (cases "d < power_int 2 (e + 1)")
      case True
      with \<open>power_int 2 e \<le> d\<close> same ilog2_eq [of e d] show ?thesis by simp
    next
      case False
      then have "ilog2 d = e + 1"
        using near hi by (intro ilog2_eq) (simp_all add: power_int_add)
      moreover have "\<not> -1022 \<le> e"
      proof
        assume "-1022 \<le> e"
        then have g: "grid e = e - 52" by (simp add: grid_def)
        have p: "power_int 2 (e + 1) = of_int (2 ^ 53) * (power_int 2 (grid e) :: rat)"
          by (simp add: g power_int_add power_int_diff)
        from hi m p have "of_int m < (of_int (2 ^ 53) :: rat)" by (metis mult_less_cancel_right_pos zero_less_power_int zero_less_numeral)
        then have "m + 1 \<le> 2 ^ 53" by linarith
        then have "(of_int (m + 1) :: rat) * power_int 2 (grid e) \<le> of_int (2 ^ 53) * power_int 2 (grid e)"
          by (intro mult_right_mono) (simp_all only: of_int_le_iff, simp)
        moreover have "(of_int (m + 1) :: rat) * power_int 2 (grid e) = a + power_int 2 (grid e)"
          by (simp only: m of_int_add of_int_1 distrib_right mult_1)
        ultimately have "a + power_int 2 (grid e) \<le> d" using p False by linarith
        with half zero_less_power_int [of "2 :: rat" "grid e"] show False by linarith
      qed
      ultimately show ?thesis using same by (simp add: grid_def)
    qed
  next
    case False
    have ld: "ilog2 d = e - 1"
      using near lo False by (intro ilog2_eq) (simp_all add: power_int_diff)
    show ?thesis
    proof (cases "e \<le> -1022")
      case True
      with ld same show ?thesis by (simp add: grid_def)
    next
      case False
      then have g: "grid e = e - 52" and g': "grid (ilog2 d) = e - 53" by (simp_all add: grid_def ld)
      have p: "power_int 2 e = of_int (2 ^ 52) * (power_int 2 (grid e) :: rat)" by (simp add: g power_int_diff)
      have "m < 2 ^ 52 + 1"
      proof (rule ccontr)
        assume "\<not> m < 2 ^ 52 + 1"
        then have "(of_int (2 ^ 52 + 1) :: rat) * power_int 2 (grid e) \<le> of_int m * power_int 2 (grid e)"
          by (intro mult_right_mono) (simp_all only: of_int_le_iff, simp_all)
        moreover have "(of_int (2 ^ 52 + 1) :: rat) * power_int 2 (grid e) = power_int 2 e + power_int 2 (grid e)"
          by (simp only: p of_int_add of_int_1 distrib_right mult_1)
        ultimately have "d + power_int 2 (grid e) \<le> a" using \<open>\<not> power_int 2 e \<le> d\<close> m by linarith
        with half zero_less_power_int [of "2 :: rat" "grid e"] show False by linarith
      qed
      moreover have "2 ^ 52 \<le> m"
      proof (rule ccontr)
        assume "\<not> 2 ^ 52 \<le> m"
        then have "(of_int m :: rat) * power_int 2 (grid e) < of_int (2 ^ 52) * power_int 2 (grid e)"
          by (intro mult_strict_right_mono) (simp_all only: of_int_less_iff, simp_all)
        with p lo m show False by simp
      qed
      ultimately have "m = 2 ^ 52" by simp
      with m g have a: "a = of_int (2 ^ 53) * power_int 2 (e - 53)" by (simp add: power_int_diff)
      then have "\<bar>d - a\<bar> < power_int 2 (e - 53) / 2" using near by simp
      from near_rounds [OF a this] fl_on_grid [OF dpos refl] g' show ?thesis by simp
    qed
  qed
qed


section \<open>Decimal magnitude\<close>

lemma nat_text_length:
  assumes "0 < n"
  shows "10 ^ (length (nat_text n) - 1) \<le> n" and "n < 10 ^ length (nat_text n)" and "0 < length (nat_text n)"
proof -
  have "0 < n \<Longrightarrow> 10 ^ (length (nat_text n) - 1) \<le> n \<and> n < 10 ^ length (nat_text n) \<and> 0 < length (nat_text n)"
  proof (induction n rule: nat_text.induct)
    case (1 n)
    show ?case
    proof (cases "n < 10")
      case True
      with 1 show ?thesis by (subst (1 2 3) nat_text.simps) simp
    next
      case False
      let ?l = "length (nat_text (n div 10))"
      have IH: "10 ^ (?l - 1) \<le> n div 10" "n div 10 < 10 ^ ?l" "0 < ?l" using 1 False by auto
      have "(10 :: nat) ^ ?l = 10 * 10 ^ (?l - 1)" using IH(3) by (cases ?l) simp_all
      with IH have "10 ^ ?l \<le> n" "n < 10 * 10 ^ ?l" by linarith+
      with False show ?thesis by (subst (1 2 3) nat_text.simps) simp
    qed
  qed
  with assms show "10 ^ (length (nat_text n) - 1) \<le> n" "n < 10 ^ length (nat_text n)" "0 < length (nat_text n)" by simp_all
qed

lemma rat_nat_pow: "(10 :: nat) ^ k \<le> n \<Longrightarrow> (10 :: rat) ^ k \<le> of_nat n" "n < 10 ^ k \<Longrightarrow> of_nat n + 1 \<le> (10 :: rat) ^ k"
proof -
  show "10 ^ k \<le> n \<Longrightarrow> (10 :: rat) ^ k \<le> of_nat n"
    by (metis of_nat_le_iff of_nat_numeral of_nat_power)
  assume "n < 10 ^ k"
  then have "n + 1 \<le> 10 ^ k" by simp
  then have "(of_nat (n + 1) :: rat) \<le> of_nat (10 ^ k)" by (rule of_nat_mono)
  then show "of_nat n + 1 \<le> (10 :: rat) ^ k" by simp
qed

lemma log10_floor_bounds:
  assumes "0 < x"
  shows "power_int 10 (log10_floor x) \<le> x" and "x < power_int 10 (log10_floor x + 1)"
proof -
  have "power_int 10 (log10_floor x) \<le> x \<and> x < power_int 10 (log10_floor x + 1)"
  proof (cases "x \<ge> 1")
    case True
    define n where "n = nat \<lfloor>x\<rfloor>"
    have f: "of_nat n \<le> x" "x < of_nat n + 1" "0 < n" using True by (simp_all add: n_def) linarith+
    define l where "l = length (nat_text n)"
    have l: "10 ^ (l - 1) \<le> n" "n < 10 ^ l" "0 < l" using nat_text_length [OF f(3)] by (simp_all add: l_def)
    have k: "log10_floor x = int l - 1" using True by (simp add: log10_floor_def n_def l_def)
    have "power_int 10 (int l - 1) = (10 ^ (l - 1) :: rat)" using l(3) by (simp add: power_int_def nat_diff_distrib)
    moreover have "power_int 10 (int l - 1 + 1) = (10 ^ l :: rat)" by simp
    ultimately show ?thesis using rat_nat_pow(1) [OF l(1)] rat_nat_pow(2) [OF l(2)] f k by (metis order.trans less_le_trans)
  next
    case False
    define n where "n = nat (\<lceil>1 / x\<rceil> - 1)"
    have "1 < 1 / x" using False assms by simp
    then have c: "1 < \<lceil>1 / x\<rceil>" by linarith
    then have f: "of_nat n < 1 / x" "1 / x \<le> of_nat n + 1" "0 < n" by (simp_all add: n_def) linarith+
    define l where "l = length (nat_text n)"
    have l: "10 ^ (l - 1) \<le> n" "n < 10 ^ l" "0 < l" using nat_text_length [OF f(3)] by (simp_all add: l_def)
    have k: "log10_floor x = - int l" using False by (simp add: log10_floor_def n_def l_def)
    have p: "power_int 10 (- int l) = 1 / (10 ^ l :: rat)" by (simp add: power_int_minus inverse_eq_divide)
    have q: "power_int 10 (- int l + 1) = 1 / (10 ^ (l - 1) :: rat)"
    proof -
      have "- int l + 1 = - int (l - 1)" using l(3) by simp
      then show ?thesis by (simp only: power_int_minus power_int_of_nat inverse_eq_divide)
    qed
    have "1 / x \<le> 10 ^ l" using rat_nat_pow(2) [OF l(2)] f(2) by linarith
    then have "1 / 10 ^ l \<le> x" using assms by (simp add: field_simps)
    moreover have "10 ^ (l - 1) < 1 / x" using rat_nat_pow(1) [OF l(1)] f(1) by linarith
    then have "x < 1 / 10 ^ (l - 1)" using assms by (simp add: field_simps)
    ultimately show ?thesis using k p q by simp
  qed
  then show "power_int 10 (log10_floor x) \<le> x" "x < power_int 10 (log10_floor x + 1)" by simp_all
qed

section \<open>Seventeen digits are enough\<close>

lemma round_even_error: "\<bar>of_int (round_even y) - y\<bar> \<le> 1 / 2"
proof -
  have "of_int \<lfloor>y\<rfloor> \<le> y" "y < of_int \<lfloor>y\<rfloor> + 1" by linarith+
  then show ?thesis by (simp add: round_even_def Let_def abs_le_iff)
qed

lemma seventeen_digits:
  assumes pos: "0 < a" and dbl: "fl a = a" and k: "power_int 10 k \<le> a"
  shows "fl (of_int (nearest_digits a k 17) * power_int 10 (k + 1 - 17)) = a"
proof (rule fl_near [OF pos dbl])
  let ?p = "power_int 10 (k - 16) :: rat"
  have p: "0 < ?p" by simp
  have "nearest_digits a k 17 = round_even (a / ?p)"
    by (simp add: nearest_digits_def power_int_diff)
  then have "\<bar>of_int (nearest_digits a k 17) - a / ?p\<bar> \<le> 1 / 2" using round_even_error by simp
  moreover have "of_int (nearest_digits a k 17) * ?p - a = (of_int (nearest_digits a k 17) - a / ?p) * ?p"
    using p by (simp add: algebra_simps)
  ultimately have e: "\<bar>of_int (nearest_digits a k 17) * ?p - a\<bar> \<le> 1 / 2 * ?p"
    using p by (simp only: abs_mult) (intro mult_mono, auto)
  have "?p = power_int 10 k / 10 ^ 16" by (simp add: power_int_diff)
  with k have "1 / 2 * ?p \<le> a / 10 ^ 16 / 2" by simp
  also have "\<dots> < a / 2 ^ 54" using pos by simp
  finally show "\<bar>of_int (nearest_digits a k 17) * power_int 10 (k + 1 - 17) - a\<bar> < a / 2 ^ 54" using e by simp
qed

lemma shortest_from_reads_back:
  assumes "0 < a" and "fl a = a" and "power_int 10 k \<le> a" and "n + fuel = 17" and "shortest_from a k n fuel = (d, n')"
  shows "fl (of_int d * power_int 10 (k + 1 - int n')) = a"
  using assms(4,5)
proof (induction fuel arbitrary: n)
  case 0
  with seventeen_digits [OF assms(1-3)] show ?case by simp
next
  case (Suc fuel)
  then show ?case using Suc.IH [of "Suc n"] by (auto split: if_splits)
qed

section \<open>Reading the decimal text\<close>

definition plain :: "char \<Rightarrow> bool" where
  "plain c \<longleftrightarrow> is_digit c \<or> c = CHR ''.'' \<or> c = CHR ''e'' \<or> c = CHR ''+'' \<or> c = CHR ''-''"

lemma plain_char: "plain c \<Longrightarrow> \<not> py_space c \<and> c \<noteq> CHR ''_''"
  by (auto simp: plain_def py_space_def is_digit_def)

lemma py_strip_plain: "list_all plain s \<Longrightarrow> py_strip s = s"
proof -
  assume s: "list_all plain s"
  then have "dropWhile py_space s = s" by (cases s) (auto dest: plain_char)
  moreover have "dropWhile py_space (rev s) = rev s"
    using s by (cases "rev s") (auto dest!: plain_char simp: list_all_iff)
  ultimately show ?thesis by (simp add: py_strip_def)
qed

lemma drop_underscores_plain: "list_all plain s \<Longrightarrow> p \<noteq> CHR ''_'' \<Longrightarrow> drop_underscores p s = Some s"
  by (induction s arbitrary: p) (auto dest: plain_char)

lemma digit_facts:
  "is_digit c \<Longrightarrow> c \<noteq> CHR ''-'' \<and> c \<noteq> CHR ''+'' \<and> c \<noteq> CHR ''.'' \<and> c \<noteq> CHR ''e'' \<and> c \<noteq> CHR ''E'' \<and> lower_char c = c \<and> c \<noteq> CHR ''i'' \<and> c \<noteq> CHR ''n''"
  by (auto simp: is_digit_def lower_char_def)

text \<open>A number text of digits, an optional fraction and an optional exponent, as \<open>float_repr\<close> makes them.\<close>

definition exp_text :: "int option \<Rightarrow> string \<Rightarrow> bool" where
  "exp_text x e = (case x of None \<Rightarrow> e = [] | Some z \<Rightarrow>
     (\<exists>sg ds. e = CHR ''e'' # sg # ds \<and> list_all is_digit ds \<and> ds \<noteq> [] \<and>
        (sg = CHR ''-'' \<and> z = - int (digits_val ds) \<or> sg = CHR ''+'' \<and> z = int (digits_val ds))))"

definition exp_value :: "int option \<Rightarrow> int" where
  "exp_value x = (case x of None \<Rightarrow> 0 | Some z \<Rightarrow> z)"

lemma parse_exponent_text: "exp_text x e \<Longrightarrow> parse_exponent e = Some (exp_value x)"
  by (auto simp: exp_text_def exp_value_def parse_exponent_def split_sign_def split: option.splits)

lemma exp_text_first: "exp_text x e \<Longrightarrow> takeWhile is_digit e = [] \<and> dropWhile is_digit e = e \<and> (\<forall>cs. e \<noteq> CHR ''.'' # cs)"
  by (auto simp: exp_text_def is_digit_def split: option.splits)

lemma takeWhile_digits: "list_all is_digit ds \<Longrightarrow> takeWhile is_digit (ds @ r) = ds @ takeWhile is_digit r \<and> dropWhile is_digit (ds @ r) = dropWhile is_digit r"
  by (induction ds) auto

lemma all_digits: "list_all is_digit ds \<Longrightarrow> takeWhile is_digit ds = ds \<and> dropWhile is_digit ds = []"
  by (induction ds) auto

lemma parse_decimal_text:
  assumes "list_all is_digit ip" and "ip \<noteq> []" and "list_all is_digit fp" and "exp_text x e"
  shows "parse_decimal (ip @ (if fp = [] then [] else CHR ''.'' # fp) @ e)
    = Some (of_nat (digits_val (ip @ fp)) * power_int 10 (exp_value x - int (length fp)))"
proof -
  note t = takeWhile_digits [OF assms(1)] takeWhile_digits [OF assms(3)] exp_text_first [OF assms(4)] parse_exponent_text [OF assms(4)]
  have dot: "\<not> is_digit CHR ''.''" by (simp add: is_digit_def)
  show ?thesis
  proof (cases "fp = []")
    case True
    with t assms(2) show ?thesis by (cases e) (auto simp: parse_decimal_def Let_def all_digits [OF assms(1)])
  next
    case False
    with t assms(2) dot show ?thesis by (simp add: parse_decimal_def Let_def)
  qed
qed

lemma exp_text_plain: "exp_text x e \<Longrightarrow> list_all plain e"
  by (auto simp: exp_text_def plain_def list_all_iff split: option.splits)

lemma digits_plain: "list_all is_digit ds \<Longrightarrow> list_all plain ds"
  by (auto simp: plain_def list_all_iff)

definition clip :: "rat \<Rightarrow> pyfloat" where
  "clip x = (if x \<ge> float_max then PInf else if x \<le> - float_max then NInf else Fin x)"

lemma float_of_text:
  assumes "list_all is_digit ip" and "ip \<noteq> []" and "list_all is_digit fp" and "exp_text x e"
    and v: "v = of_nat (digits_val (ip @ fp)) * power_int 10 (exp_value x - int (length fp))"
  shows "float_of_string ((if neg then ''-'' else []) @ ip @ (if fp = [] then [] else CHR ''.'' # fp) @ e)
    = Some (clip (fl (if neg then - v else v)))"
proof -
  let ?b = "ip @ (if fp = [] then [] else CHR ''.'' # fp) @ e"
  have pl: "list_all plain ((if neg then ''-'' else []) @ ?b)"
    using digits_plain [OF assms(1)] digits_plain [OF assms(3)] exp_text_plain [OF assms(4)] by (simp add: plain_def)
  obtain c cs where ip: "ip = c # cs" and c: "is_digit c" using assms(1,2) by (cases ip) auto
  have sg: "split_sign ((if neg then ''-'' else []) @ ?b) = (neg, ?b)"
    using digit_facts [OF c] by (simp add: split_sign_def ip)
  have nf: "py_lower ?b \<noteq> ''inf'' \<and> py_lower ?b \<noteq> ''infinity'' \<and> py_lower ?b \<noteq> ''nan''"
    using digit_facts [OF c] by (simp add: py_lower_def ip)
  show ?thesis
    using py_strip_plain [OF pl] drop_underscores_plain [OF pl, of "CHR '' ''"] sg nf
      parse_decimal_text [OF assms(1-4)] v
    by (simp add: float_of_string_def clip_def Let_def)
qed

lemma scan_exp_text:
  assumes "exp_text x e"
  shows "scan_exp e = (e, [])"
proof (cases x)
  case None
  with assms show ?thesis by (simp add: exp_text_def scan_exp_def)
next
  case (Some z)
  with assms obtain sg ds where e: "e = CHR ''e'' # sg # ds" and ds: "list_all is_digit ds" "ds \<noteq> []" and sg: "sg = CHR ''-'' \<or> sg = CHR ''+''"
    by (auto simp: exp_text_def)
  from ds(2) sg show ?thesis by (auto simp: e scan_exp_def all_digits [OF ds(1)])
qed

lemma scan_frac_text:
  assumes "list_all is_digit fp" and "exp_text x e"
  shows "scan_frac ((if fp = [] then [] else CHR ''.'' # fp) @ e) = ((if fp = [] then [] else CHR ''.'' # fp), e)"
proof (cases fp)
  case Nil
  with exp_text_first [OF assms(2)] show ?thesis by (auto simp: scan_frac_def split: list.splits)
next
  case (Cons d ds)
  with assms(1) takeWhile_digits [of ds e] exp_text_first [OF assms(2)] show ?thesis by (simp add: scan_frac_def)
qed

lemma scan_text:
  assumes ip: "list_all is_digit ip" "ip \<noteq> []" "ip = ''0'' \<or> hd ip \<noteq> CHR ''0''"
    and fp: "list_all is_digit fp" and e: "exp_text x e" and float: "fp \<noteq> [] \<or> x \<noteq> None"
    and v: "v = of_nat (digits_val (ip @ fp)) * power_int 10 (exp_value x - int (length fp))"
  shows "scan_unsigned neg (ip @ (if fp = [] then [] else CHR ''.'' # fp) @ e) = Some (JFloat (clip (fl (if neg then - v else v))), [])"
proof -
  let ?f = "if fp = [] then [] else CHR ''.'' # fp"
  have nd: "takeWhile is_digit (?f @ e) = []" using exp_text_first [OF e] by (auto simp: is_digit_def)
  have ipart: "int_part (ip @ ?f @ e) = ip"
    using ip(2,3) takeWhile_digits [OF ip(1), of "?f @ e"] nd by (cases ip) (auto simp: int_part_def)
  have ne: "\<not> (?f = [] \<and> e = [])" using float e by (auto simp: exp_text_def split: option.splits if_splits)
  show ?thesis
    using float_of_text [OF ip(1,2) fp e v, of neg] ip(2) ne scan_frac_text [OF fp e]
    by (simp add: scan_unsigned_def Let_def ipart scan_exp_text [OF e])
qed

lemma digits_val_app: "digits_val (s @ t) = digits_val s * 10 ^ length t + digits_val t"
proof (induction t rule: rev_induct)
  case Nil
  then show ?case by (simp add: digits_val_def)
next
  case (snoc c t)
  have "digits_val (s @ t @ [c]) = 10 * digits_val (s @ t) + ((of_char c :: nat) - 48)"
    using digits_val_snoc [of "s @ t" c] by simp
  with snoc show ?case by (simp add: digits_val_snoc algebra_simps)
qed

lemma digits_val_zeros: "digits_val (replicate n CHR ''0'') = 0"
  by (induction n) (simp_all add: digits_val_def)

lemma zeros_digits: "list_all is_digit (replicate n CHR ''0'')" "is_digit CHR ''0''"
  by (simp_all add: is_digit_def list_all_iff)

text \<open>What \<open>decimal_text\<close> writes is read as the decimal it stands for.\<close>

lemma scan_decimal_text:
  assumes ds: "list_all is_digit ds" "ds \<noteq> []" "hd ds \<noteq> CHR ''0''"
    and v: "v = of_nat (digits_val ds) * power_int 10 (decpt - int (length ds))"
  shows "scan_unsigned neg (decimal_text ds decpt) = Some (JFloat (clip (fl (if neg then - v else v))), [])"
proof (cases "-4 < decpt \<and> decpt \<le> 16")
  case near: True
  have none: "exp_text None []" "exp_value None = 0" by (simp_all add: exp_text_def exp_value_def)
  show ?thesis
  proof (cases "decpt \<le> 0")
    case True
    let ?fp = "replicate (nat (- decpt)) CHR ''0'' @ ds"
    have l: "int (length ?fp) = int (length ds) - decpt" using True by simp
    have d: "digits_val (''0'' @ ?fp) = digits_val ds"
      using digits_val_zeros [of 1] digits_val_zeros [of "nat (- decpt)"] by (simp only: digits_val_app) simp
    have "v = of_nat (digits_val (''0'' @ ?fp)) * power_int 10 (exp_value None - int (length ?fp))"
      unfolding d l none by (simp add: v)
    from scan_text [of "''0''" ?fp None "[]" v neg, OF _ _ _ _ none(1) _ this] ds zeros_digits near True
    show ?thesis by (simp add: decimal_text_def)
  next
    case pos: False
    show ?thesis
    proof (cases "int (length ds) \<le> decpt")
      case True
      let ?ip = "ds @ replicate (nat decpt - length ds) CHR ''0''"
      have "of_nat (digits_val (?ip @ ''0'')) * power_int 10 (0 - int (length ''0''))
          = (of_nat (digits_val ds) * 10 ^ (nat decpt - length ds) :: rat)"
        using digits_val_zeros [of 1] digits_val_zeros [of "nat decpt - length ds"]
        by (simp only: digits_val_app) (simp add: power_int_minus)
      moreover have "power_int 10 (decpt - int (length ds)) = (10 ^ (nat decpt - length ds) :: rat)"
        using True by (simp add: power_int_def nat_diff_distrib)
      ultimately have "v = of_nat (digits_val (?ip @ ''0'')) * power_int 10 (exp_value None - int (length ''0''))"
        by (simp add: v none)
      from scan_text [of ?ip "''0''" None "[]" v neg, OF _ _ _ _ none(1) _ this] ds zeros_digits near True pos
      show ?thesis by (simp add: decimal_text_def)
    next
      case False
      let ?n = "nat decpt"
      have n: "0 < ?n" "?n < length ds" using pos False by auto
      have "list_all is_digit (take ?n ds)" "list_all is_digit (drop ?n ds)" "take ?n ds \<noteq> []" "drop ?n ds \<noteq> []" "hd (take ?n ds) \<noteq> CHR ''0''"
        using ds n by (auto simp: list_all_iff dest: in_set_takeD in_set_dropD)
      moreover have "v = of_nat (digits_val (take ?n ds @ drop ?n ds)) * power_int 10 (exp_value None - int (length (drop ?n ds)))"
        using n pos by (simp add: v none of_nat_diff)
      ultimately show ?thesis using scan_text [of "take ?n ds" "drop ?n ds" None "[]" v neg] none near pos False
        by (simp add: decimal_text_def)
    qed
  qed
next
  case far: False
  define e where "e = decpt - 1"
  define t where "t = (let t = nat_text (nat \<bar>e\<bar>) in if length t < 2 then CHR ''0'' # t else t)"
  have t: "list_all is_digit t" "t \<noteq> []" "digits_val t = nat \<bar>e\<bar>"
    using nat_text_digits [of "nat \<bar>e\<bar>"] digits_val_app [of "''0''" "nat_text (nat \<bar>e\<bar>)"] digits_val_zeros [of 1]
    by (auto simp: t_def Let_def zeros_digits)
  let ?e = "CHR ''e'' # (if e < 0 then CHR ''-'' else CHR ''+'') # t"
  have ex: "exp_text (Some e) ?e" using t by (auto simp: exp_text_def)
  have "length (drop 1 ds) = length ds - 1" "take 1 ds @ drop 1 ds = ds" by simp_all
  then have "v = of_nat (digits_val (take 1 ds @ drop 1 ds)) * power_int 10 (exp_value (Some e) - int (length (drop 1 ds)))"
    using ds(2) by (cases ds) (simp_all add: v exp_value_def e_def diff_diff_eq)
  moreover have "list_all is_digit (take 1 ds)" "list_all is_digit (drop 1 ds)" "take 1 ds \<noteq> []" "hd (take 1 ds) \<noteq> CHR ''0''"
    using ds by (cases ds; simp)+
  ultimately have "scan_unsigned neg (take 1 ds @ (if drop 1 ds = [] then [] else CHR ''.'' # drop 1 ds) @ ?e)
      = Some (JFloat (clip (fl (if neg then - v else v))), [])"
    using scan_text [of "take 1 ds" "drop 1 ds" "Some e" ?e v neg] ex by blast
  moreover have "decimal_text ds decpt = take 1 ds @ (if drop 1 ds = [] then [] else CHR ''.'' # drop 1 ds) @ ?e"
    using far by (auto simp: decimal_text_def Let_def e_def t_def)
  ultimately show ?thesis by simp
qed

text \<open>Dropping trailing zeros moves the decimal point, not the value.\<close>

lemma strip_zeros_value:
  assumes "ds \<noteq> []" and "hd ds \<noteq> CHR ''0''"
  obtains z where "ds = strip_zeros ds @ replicate z CHR ''0''" and "strip_zeros ds \<noteq> []" and "hd (strip_zeros ds) = hd ds"
proof -
  define w where "w = takeWhile (\<lambda>c. c = CHR ''0'') (rev ds)"
  have w: "rev ds = w @ dropWhile (\<lambda>c. c = CHR ''0'') (rev ds)" by (simp add: w_def)
  have "w = replicate (length w) CHR ''0''"
    by (rule replicate_eqI [symmetric, OF refl, symmetric]) (auto simp: w_def dest: set_takeWhileD)
  then have e: "ds = strip_zeros ds @ replicate (length w) CHR ''0''"
    using arg_cong [OF w, of rev] by (metis rev_append rev_replicate rev_rev_ident strip_zeros_def)
  moreover have "strip_zeros ds \<noteq> []"
  proof
    assume "strip_zeros ds = []"
    with e assms show False by (cases "length w") (metis append_Nil replicate_0, metis append_Nil hd_replicate replicate_empty)
  qed
  ultimately show ?thesis using that by (metis hd_append2)
qed

lemma scan_number_digit:
  "scan_unsigned False s = Some x \<Longrightarrow> s \<noteq> [] \<Longrightarrow> hd s \<noteq> CHR ''-'' \<Longrightarrow> scan_number s = Some x"
  by (cases s) (simp_all add: scan_number_def)

lemma decimal_text_first:
  assumes "list_all is_digit ds" and "ds \<noteq> []"
  shows "decimal_text ds p \<noteq> [] \<and> hd (decimal_text ds p) \<noteq> CHR ''-''"
proof -
  obtain c cs where "ds = c # cs" "is_digit c" using assms by (cases ds) auto
  with digit_facts [of c] show ?thesis by (cases "nat p") (auto simp: decimal_text_def Let_def)
qed

definition double :: "rat \<Rightarrow> bool" where
  "double q \<longleftrightarrow> fl q = q \<and> \<bar>q\<bar> < float_max"

lemma scan_abs_repr:
  assumes pos: "0 < a" and dbl: "double a" and s: "shortest_from a (log10_floor a) 1 16 = (d, n)"
    and neg: "neg \<longleftrightarrow> x < 0" and x: "\<bar>x\<bar> = a"
  shows "scan_unsigned neg (decimal_text (strip_zeros (nat_text (nat d))) (log10_floor a + 1 + int (length (nat_text (nat d))) - int n))
    = Some (JFloat (Fin x), [])"
    and "0 < d"
proof -
  let ?k = "log10_floor a" and ?ds = "nat_text (nat d)"
  have reads: "fl (of_int d * power_int 10 (?k + 1 - int n)) = a"
    using shortest_from_reads_back [OF pos _ log10_floor_bounds(1) [OF pos] _ s] dbl by (simp add: double_def)
  show d: "0 < d"
  proof (rule ccontr)
    assume "\<not> 0 < d"
    then have "0 \<le> - (of_int d * power_int 10 (?k + 1 - int n) :: rat)" by (simp add: mult_nonpos_nonneg)
    from fl_nonneg [OF this] reads pos show False by (simp add: fl_minus)
  qed
  have ds: "list_all is_digit ?ds" "?ds \<noteq> []" "hd ?ds \<noteq> CHR ''0''"
    using nat_text_digits [of "nat d"] hd_nat_text [of "nat d"] d by auto
  obtain z where z: "?ds = strip_zeros ?ds @ replicate z CHR ''0''" "strip_zeros ?ds \<noteq> []" "hd (strip_zeros ?ds) = hd ?ds"
    using strip_zeros_value [OF ds(2,3)] by blast
  have sd: "list_all is_digit (strip_zeros ?ds)" using ds(1) z(1) by (metis list_all_append)
  have val: "of_int d = (of_nat (digits_val (strip_zeros ?ds)) * 10 ^ z :: rat)"
  proof -
    have "nat d = digits_val (strip_zeros ?ds @ replicate z CHR ''0'')" using z(1) by (metis digits_val_nat_text)
    then have "nat d = digits_val (strip_zeros ?ds) * 10 ^ z" by (simp add: digits_val_app digits_val_zeros)
    then have "(of_nat (nat d) :: rat) = of_nat (digits_val (strip_zeros ?ds) * 10 ^ z)" by simp
    then show ?thesis using d by simp
  qed
  have len: "length ?ds = length (strip_zeros ?ds) + z" using arg_cong [OF z(1), of length] by simp
  let ?p = "?k + 1 + int (length ?ds) - int n"
  have "power_int 10 (?p - int (length (strip_zeros ?ds))) = (10 ^ z * power_int 10 (?k + 1 - int n) :: rat)"
  proof -
    have "?p - int (length (strip_zeros ?ds)) = int z + (?k + 1 - int n)" using len by simp
    moreover have "power_int 10 (int z + (?k + 1 - int n)) = (power_int 10 (int z) * power_int 10 (?k + 1 - int n) :: rat)"
      by (rule power_int_add) simp
    ultimately show ?thesis by (simp only: power_int_of_nat)
  qed
  then have v: "of_int d * power_int 10 (?k + 1 - int n)
      = (of_nat (digits_val (strip_zeros ?ds)) * power_int 10 (?p - int (length (strip_zeros ?ds))) :: rat)"
    by (simp add: val)
  have "clip (fl (if neg then - (of_int d * power_int 10 (?k + 1 - int n)) else of_int d * power_int 10 (?k + 1 - int n))) = Fin x"
    using reads neg x dbl by (auto simp: fl_minus clip_def double_def abs_if split: if_splits)
  with scan_decimal_text [OF sd z(2) _ v, of neg] z(3) ds(3)
  show "scan_unsigned neg (decimal_text (strip_zeros ?ds) ?p) = Some (JFloat (Fin x), [])" by simp
qed

lemma float_repr_reads_back:
  assumes "double q"
  shows "scan_number (float_repr q) = Some (JFloat (Fin q), [])"
proof (cases "q = 0")
  case True
  then show ?thesis by simp code_simp
next
  case False
  define a where "a = \<bar>q\<bar>"
  have a: "0 < a" "double a" using False assms by (auto simp: a_def double_def abs_if fl_minus)
  obtain d n where s: "shortest_from a (log10_floor a) 1 16 = (d, n)" by (cases "shortest_from a (log10_floor a) 1 16")
  note r = scan_abs_repr [OF a s refl, of q] a_def
  let ?t = "decimal_text (strip_zeros (nat_text (nat d))) (log10_floor a + 1 + int (length (nat_text (nat d))) - int n)"
  have t: "float_repr q = (if q < 0 then ''-'' else []) @ ?t"
    using False s by (simp add: float_repr_def Let_def a_def)
  have "list_all is_digit (strip_zeros (nat_text (nat d)))" "strip_zeros (nat_text (nat d)) \<noteq> []"
    using nat_text_digits [of "nat d"] hd_nat_text [of "nat d"] r strip_zeros_value [of "nat_text (nat d)"]
    by (metis list_all_append zero_less_nat_eq)+
  note first = decimal_text_first [OF this]
  show ?thesis
  proof (cases "q < 0")
    case True
    with r t show ?thesis by (simp add: scan_number_def)
  next
    case False
    with r t first scan_number_digit [of ?t] show ?thesis by simp
  qed
qed

section \<open>The JSON round trip without side conditions\<close>

text \<open>The values of Python a JSON text can stand for: unique keys, and floats that are binary64 values.\<close>

fun py_json :: "json \<Rightarrow> bool" where
  "py_json (JFloat x) = (case x of Fin q \<Rightarrow> double q | _ \<Rightarrow> True)"
| "py_json (JArr xs) = list_all py_json xs"
| "py_json (JObj d) = (distinct (map fst d) \<and> list_all (\<lambda>(k, v). py_json v) d)"
| "py_json _ = True"

lemma py_json_ok: "py_json j \<Longrightarrow> json_ok j"
proof (induction j)
  case (JFloat x)
  then show ?case by (auto simp: float_ok_def float_repr_reads_back split: pyfloat.splits)
next
  case (JObj d)
  then show ?case by (auto simp: list_all_iff Basic_BNFs.snds.simps)
qed (auto simp: list_all_iff)

text \<open>Reading yields such values.\<close>

lemma fl_idem: "fl (fl q) = fl q"
proof -
  have pos: "fl (fl x) = fl x" if x: "0 < x" for x
  proof -
    let ?g = "grid (ilog2 x)" and ?r = "round_even (x / power_int 2 (grid (ilog2 x)))"
    have f: "fl x = of_int ?r * power_int 2 ?g" by (rule fl_on_grid [OF x refl])
    have g: "-1074 \<le> ?g" "ilog2 x - 52 \<le> ?g" by (simp_all add: grid_def)
    have "x / power_int 2 ?g \<le> of_int (2 ^ 53)"
    proof -
      have "x < power_int 2 (ilog2 x + 1)" by (rule ilog2_bounds(2) [OF x])
      also have "\<dots> \<le> power_int 2 (53 + ?g)" using g(2) by (intro power_int_increasing) auto
      also have "\<dots> = of_int (2 ^ 53) * power_int 2 ?g" by (simp add: power_int_add)
      finally show ?thesis by (simp add: divide_le_eq)
    qed
    then have hi: "?r \<le> 2 ^ 53" by (rule round_even_bounds(2))
    have lo: "0 \<le> ?r" using x by (intro round_even_bounds(1)) simp
    show ?thesis
    proof (cases "?r = 2 ^ 53")
      case True
      then have "fl x = of_int (2 ^ 52) * power_int 2 (?g + 1)" by (simp add: f power_int_add)
      with fl_exact [of "2 ^ 52" "?g + 1"] g show ?thesis by simp
    next
      case False
      with hi lo have "\<bar>?r\<bar> < 2 ^ 53" by simp
      from fl_exact [OF this g(1)] show ?thesis by (simp add: f)
    qed
  qed
  show ?thesis
  proof (cases "q = 0 \<or> 0 < q")
    case True
    with pos show ?thesis by auto
  next
    case False
    with pos [of "- q"] show ?thesis by (simp add: fl_minus)
  qed
qed

lemma clip_double: "clip (fl q) = Fin x \<Longrightarrow> double x"
  by (auto simp: clip_def double_def fl_idem split: if_splits)

lemma float_of_string_double: "float_of_string s = Some (Fin x) \<Longrightarrow> double x"
  by (auto simp: float_of_string_def Let_def double_def fl_idem split: option.splits prod.splits if_splits)

lemma scan_number_py: "scan_number s = Some (j, r) \<Longrightarrow> py_json j"
  by (auto simp: scan_number_def scan_unsigned_def Let_def float_of_string_double
      split: list.splits if_splits prod.splits pyfloat.splits)

lemma scan_atom_py: "scan_atom s = Some (j, r) \<Longrightarrow> py_json j"
  by (auto simp: scan_atom_def scan_number_py split: option.splits)

lemma dict_of_py: "list_all (\<lambda>(k, v). py_json v) ps \<Longrightarrow> py_json (JObj (dict_of ps))"
proof (induction ps rule: rev_induct)
  case Nil
  then show ?case by (simp add: dict_of_def)
next
  case (snoc p ps)
  obtain k v where p: "p = (k, v)" by (cases p)
  have "set (AList.update k v d) \<subseteq> insert (k, v) (set d)" for d :: "(string \<times> json) list"
    by (induction d) auto
  with snoc p show ?case by (auto simp: dict_of_def list_all_iff) fast+
qed

lemma scan_py:
  "(scan_value n s = Some (j, r) \<longrightarrow> py_json j) \<and> (scan_items n s = Some (xs, r) \<longrightarrow> list_all py_json xs)
   \<and> (scan_members n s = Some (ps, r) \<longrightarrow> list_all (\<lambda>(k, v). py_json v) ps)"
proof (induction n arbitrary: s j r xs ps)
  case 0
  then show ?case by simp
next
  case (Suc n)
  have v: "scan_value n s = Some (j, r) \<Longrightarrow> py_json j" for s j r using Suc.IH by blast
  have i: "scan_items n s = Some (xs, r) \<Longrightarrow> list_all py_json xs" for s xs r using Suc.IH by blast
  have m: "scan_members n s = Some (ps, r) \<Longrightarrow> list_all (\<lambda>(k, v). py_json v) ps" for s ps r using Suc.IH by blast
  have "scan_value (Suc n) s = Some (j, r) \<longrightarrow> py_json j"
    using i m [THEN dict_of_py] scan_atom_py by (auto split: list.splits if_splits simp del: py_json.simps) (auto)
  moreover have "scan_items (Suc n) s = Some (xs, r) \<longrightarrow> list_all py_json xs"
    using v i by (auto split: list.splits if_splits option.splits prod.splits)
  moreover have "scan_members (Suc n) s = Some (ps, r) \<longrightarrow> list_all (\<lambda>(k, v). py_json v) ps"
    using v m by (auto split: list.splits if_splits option.splits prod.splits)
  ultimately show ?case by blast
qed

lemma loads_py: "loads s = Some j \<Longrightarrow> py_json j"
  using scan_py by (auto simp: loads_def split: option.splits if_splits)

lemma sort_json_py: "py_json j \<Longrightarrow> py_json (sort_json j)"
proof (induction j)
  case (JObj d)
  have "list_all (\<lambda>(k, v). py_json v) (sort_key fst (sorted_values d))"
    using JObj by (auto simp: list_all_iff Basic_BNFs.snds.simps sorted_values_def)
  with JObj.prems sort_keys_distinct [of d] show ?case by (simp add: sorted_values_def)
qed (auto simp: list_all_iff)

lemma sort_json_idem: "sort_json (sort_json j) = sort_json j"
proof (induction j)
  case (JObj d)
  have "map (\<lambda>(k, v). (k, sort_json v)) (sort_key fst (sorted_values d)) = sort_key fst (sorted_values d)"
    by (rule map_idI) (auto simp: sorted_values_def intro!: JObj simp: Basic_BNFs.snds.simps)
  then show ?case using sorted_sort_key [of fst "sorted_values d"] by (simp add: sorted_values_def sort_key_id_if_sorted)
qed auto

lemma dumps_compact_sort: "dumps_compact (sort_json j) = dumps_compact j"
  by (simp add: dumps_compact_def sort_json_idem)

section \<open>The canonical text is ASCII\<close>

definition ascii :: "char \<Rightarrow> bool" where
  "ascii c \<longleftrightarrow> (of_char c :: nat) < 128"

lemma ascii_Char [simp]: "ascii (Char b0 b1 b2 b3 b4 b5 b6 b7) \<longleftrightarrow> \<not> b7"
  by (cases b0; cases b1; cases b2; cases b3; cases b4; cases b5; cases b6; cases b7) (simp_all add: ascii_def)

lemma ascii_encode: "list_all ascii s \<Longrightarrow> encode s = s"
  by (induction s) (auto simp: utf8_char_def ascii_def)

lemma digit_ascii: "is_digit c \<Longrightarrow> ascii c"
  by (simp add: is_digit_def ascii_def)

lemma nat_text_ascii: "list_all ascii (nat_text n)"
  using nat_text_digits [of n] digit_ascii by (auto simp: list_all_iff)

lemma ascii_parts:
  "list_all ascii s \<Longrightarrow> list_all ascii (take n s)" "list_all ascii s \<Longrightarrow> list_all ascii (drop n s)"
  "list_all ascii s \<Longrightarrow> list_all ascii (strip_zeros s)" "ascii c \<Longrightarrow> list_all ascii (replicate n c)"
  by (auto simp: list_all_iff strip_zeros_def dest: in_set_takeD in_set_dropD set_dropWhileD)

lemma float_repr_ascii: "list_all ascii (float_repr q)"
  using nat_text_ascii
  by (auto simp: float_repr_def decimal_text_def Let_def ascii_parts split: prod.splits)

lemma json_string_ascii: "list_all ascii (json_string s)"
proof -
  have h: "ascii (hex_digit n)" if "n < 16" for n
    using that by (simp add: ascii_def hex_digit_def)
  have "list_all ascii (json_char c)" for c
  proof -
    have x: "ascii (hex_digit (of_char c div 16))" "ascii (hex_digit (of_char c mod 16))"
      using of_char_256 [of c] h [of "of_char c div 16"] h [of "of_char c mod 16"] by (simp_all add: div_less_iff_less_mult)
    have "(of_char c :: nat) = 34 \<or> (of_char c :: nat) = 92 \<or> (of_char c :: nat) \<le> 126 \<Longrightarrow> ascii c" by (auto simp: ascii_def)
    with x show ?thesis by (simp add: json_char_def Let_def bslash_def)
  qed
  then show ?thesis by (induction s) (auto simp: json_string_def quote_def)
qed

lemma sep_join_ascii: "list_all ascii sep \<Longrightarrow> list_all (list_all ascii) xs \<Longrightarrow> list_all ascii (sep_join sep xs)"
  by (induction sep xs rule: sep_join.induct) auto

lemma dumps_ascii:
  assumes "list_all ascii isep" and "list_all ascii ksep"
  shows "list_all ascii (dumps_with isep ksep j)"
proof (induction j)
  case (JArr xs)
  then show ?case using assms by (auto simp: list_all_iff [of "list_all ascii"] intro!: sep_join_ascii)
next
  case (JObj d)
  then show ?case using assms json_string_ascii
    by (auto simp: list_all_iff [of "list_all ascii"] Basic_BNFs.snds.simps intro!: sep_join_ascii)
next
  case (JFloat x)
  then show ?case by (auto simp: json_float_def float_repr_ascii split: pyfloat.splits)
qed (simp_all add: int_text_def nat_text_ascii json_string_ascii)

lemma compact_length: "length (encode (dumps_compact j)) = length (dumps_compact j)"
  using dumps_ascii [of "'',''" "'':''" "sort_json j"] by (simp add: dumps_compact_def ascii_encode)

end
