(* ===== verification/Principals.thy ===== *)
theory Principals
  imports Identity Py_FloatText
begin

text \<open>
  What identifies a caller in tenant mode: the bounded identifiers and scopes, the signed payload of
  a tenant request and the immutable context \<^verbatim>\<open>Principal\<close> of \<^verbatim>\<open>src/governance/authority.py\<close>, with
  the keyed digest that seals it.

  Values whose Python type the dataclass declares have that type here; \<open>None\<close> is \<open>None\<close>.  An expiry
  is \<open>json\<close>, because it is an \<open>int\<close> or a \<open>float\<close> as the token had it.  SHA-256 and Ed25519 are the
  record \<open>crypto\<close>; HMAC is built from SHA-256 as RFC 2104 says.
\<close>

section \<open>Identifiers, subjects and scopes\<close>

definition id_start :: "char \<Rightarrow> bool" where
  "id_start c \<longleftrightarrow> (let n = (of_char c :: nat) in (48 \<le> n \<and> n \<le> 57) \<or> (65 \<le> n \<and> n \<le> 90) \<or> (97 \<le> n \<and> n \<le> 122))"

definition id_char :: "char \<Rightarrow> bool" where
  "id_char c \<longleftrightarrow> id_start c \<or> c \<in> {CHR ''_'', CHR ''.'', CHR '':'', CHR ''-''}"

definition au_identifier :: "string \<Rightarrow> string \<Rightarrow> string res" where
  "au_identifier label v =
     (if v \<noteq> [] \<and> length v \<le> 128 \<and> id_start (hd v) \<and> list_all id_char (tl v) then Inr v
      else Inl (Exn ValueError (''invalid bounded '' @ label)))"

definition au_subject :: "string \<Rightarrow> string res" where
  "au_subject v =
     (if 1 \<le> length v \<and> length v \<le> 256 \<and> py_strip v = v \<and> list_all (\<lambda>c. (of_char c :: nat) \<ge> 32) v then Inr v
      else Inl (Exn ValueError ''invalid bounded subject''))"

definition scope_ok :: "string \<Rightarrow> bool" where
  "scope_ok v \<longleftrightarrow> 1 \<le> length v \<and> length v \<le> 128 \<and> py_strip v = v \<and> CHR ''*'' \<notin> set v
     \<and> list_all (\<lambda>c. (of_char c :: nat) \<ge> 32) v"

definition au_scopes :: "string list \<Rightarrow> string list res" where
  "au_scopes values =
     (if length values > 128 then Inl (Exn ValueError ''explicit bounded scopes required'')
      else if \<not> list_all scope_ok values then Inl (Exn ValueError ''invalid scope; wildcards are prohibited'')
      else Inr (sort (remdups values)))"

text \<open>A column of scopes holds their JSON text.\<close>

definition scope_text :: "string list \<Rightarrow> string" where
  "scope_text xs = dumps_compact (JArr (map JStr xs))"

fun strings_of :: "json list \<Rightarrow> string list option" where
  "strings_of [] = Some []"
| "strings_of (JStr s # js) = map_option (Cons s) (strings_of js)"
| "strings_of (_ # js) = None"

definition read_scopes :: "string \<Rightarrow> string list res" where
  "read_scopes t = (case loads t of
       Some (JArr js) \<Rightarrow> (case strings_of js of Some xs \<Rightarrow> Inr xs | None \<Rightarrow> Inl (Exn TypeError ''scopes''))
     | Some _ \<Rightarrow> Inl (Exn TypeError ''scopes'')
     | None \<Rightarrow> Inl (Exn ValueError ''JSONDecodeError''))"

section \<open>The signed tenant request\<close>

definition text_or_null :: "string option \<Rightarrow> json" where
  "text_or_null v = (case v of None \<Rightarrow> JNull | Some s \<Rightarrow> JStr s)"

definition canonical_tenant_payload ::
  "crypto \<Rightarrow> string \<Rightarrow> string \<Rightarrow> string \<Rightarrow> string \<Rightarrow> string option \<Rightarrow> string res" where
  "canonical_tenant_payload C tenant agent nonce body delegation =
     bindE (au_identifier ''tenant_id'' tenant) (\<lambda>_.
     bindE (au_identifier ''agent_id'' agent) (\<lambda>_.
     bindE (case delegation of None \<Rightarrow> Inr [] | Some d \<Rightarrow> au_identifier ''delegation_id'' d) (\<lambda>_.
       Inr (encode (dumps_compact (JObj
         [(''domain'', JStr ''agentbridge.tenant-request.v2''), (''tenant_id'', JStr tenant), (''agent_id'', JStr agent),
          (''delegation_id'', text_or_null delegation), (''nonce'', JStr nonce), (''body_sha256'', JStr (sha_hex C body))]))))))"

definition sign_tenant_request ::
  "crypto \<Rightarrow> agent_identity \<Rightarrow> string \<Rightarrow> string \<Rightarrow> string \<Rightarrow> string option \<Rightarrow> string res" where
  "sign_tenant_request C ident tenant nonce body delegation =
     bindE (canonical_tenant_payload C tenant (ag_id ident) nonce body delegation) (\<lambda>data.
     bindE (ident_sign C ident data) (\<lambda>sg. Inr (to_hex sg)))"

section \<open>The principal\<close>

record principal =
  p_tenant :: "string option"
  p_subject :: string
  p_issuer :: string
  p_kind :: string
  p_revision :: int
  p_tenant_revision :: int
  p_agent :: "string option"
  p_agent_revision :: int
  p_delegation :: "string option"
  p_delegation_revision :: int
  p_user_revision :: int
  p_grantor_revision :: int
  p_valid_until :: json
  p_capabilities :: "string list"
  p_targets :: "string list"
  p_body_sha256 :: string
  p_nonce :: string
  p_proof :: string

text \<open>The defaults of the dataclass.\<close>

definition plain_principal :: "string option \<Rightarrow> string \<Rightarrow> string \<Rightarrow> string \<Rightarrow> int \<Rightarrow> principal" where
  "plain_principal tenant subject issuer kind revision =
     \<lparr>p_tenant = tenant, p_subject = subject, p_issuer = issuer, p_kind = kind, p_revision = revision,
      p_tenant_revision = 0, p_agent = None, p_agent_revision = 0, p_delegation = None, p_delegation_revision = 0,
      p_user_revision = 0, p_grantor_revision = 0, p_valid_until = JInt 0, p_capabilities = [], p_targets = [],
      p_body_sha256 = [], p_nonce = [], p_proof = []\<rparr>"

definition binding :: "principal \<Rightarrow> (string \<times> json) list" where
  "binding p =
     [(''tenant_id'', text_or_null (p_tenant p)), (''subject'', JStr (p_subject p)), (''issuer'', JStr (p_issuer p)),
      (''kind'', JStr (p_kind p)), (''revision'', JInt (p_revision p)), (''tenant_revision'', JInt (p_tenant_revision p)),
      (''agent_id'', text_or_null (p_agent p)), (''agent_revision'', JInt (p_agent_revision p)),
      (''delegation_id'', text_or_null (p_delegation p)), (''delegation_revision'', JInt (p_delegation_revision p)),
      (''user_revision'', JInt (p_user_revision p)), (''grantor_revision'', JInt (p_grantor_revision p)),
      (''capabilities'', JArr (map JStr (p_capabilities p))), (''targets'', JArr (map JStr (p_targets p)))]"

definition sealed_values :: "principal \<Rightarrow> (string \<times> json) list" where
  "sealed_values p = binding p @ [(''valid_until'', p_valid_until p),
      (''request_body_sha256'', JStr (p_body_sha256 p)), (''request_nonce'', JStr (p_nonce p))]"

definition xor_pad :: "nat \<Rightarrow> string \<Rightarrow> string" where
  "xor_pad n key = map (\<lambda>c. char_of (xor (of_char c :: nat) n)) (key @ replicate (64 - length key) CHR 0x00)"

definition hmac_sha256 :: "crypto \<Rightarrow> string \<Rightarrow> string \<Rightarrow> string" where
  "hmac_sha256 C key msg =
     (let k = (if length key > 64 then sha256 C key else key)
      in sha256 C (xor_pad 92 k @ sha256 C (xor_pad 54 k @ msg)))"

definition au_seal :: "crypto \<Rightarrow> string \<Rightarrow> principal \<Rightarrow> string res" where
  "au_seal C key p = bindE (dumps_strict (JObj (sealed_values p))) (\<lambda>t. Inr (hmac_sha256 C key (encode t)))"

definition au_mint :: "crypto \<Rightarrow> string \<Rightarrow> principal \<Rightarrow> principal res" where
  "au_mint C key p = bindE (au_seal C key p) (\<lambda>proof. Inr (p\<lparr>p_proof := proof\<rparr>))"

text \<open>\<^verbatim>\<open>math.isfinite(v) and v > now\<close>; where \<^verbatim>\<open>isfinite\<close> raises, the context is refused too.\<close>

definition finite_after :: "rat \<Rightarrow> json \<Rightarrow> bool" where
  "finite_after now v = (case v of
       JBool b \<Rightarrow> (if b then 1 else 0) > now
     | JInt n \<Rightarrow> to_float (NumInt n) \<noteq> None \<and> of_int n > now
     | JFloat (Fin q) \<Rightarrow> q > now
     | _ \<Rightarrow> False)"

definition verify_seal :: "crypto \<Rightarrow> string \<Rightarrow> rat \<Rightarrow> principal \<Rightarrow> unit res" where
  "verify_seal C key now p =
     (if au_seal C key p = Inr (p_proof p) \<and> finite_after now (p_valid_until p) then Inr ()
      else Inl (Exn AuthorityDenied ''unverified, altered or expired principal context''))"

end
