(* ===== verification/Admission_Quotas.thy ===== *)
theory Admission_Quotas
  imports Operation_Ledger Principals
begin

text \<open>
  \<^verbatim>\<open>src/governance/admission_quotas.py\<close>: tenant-wide admission caps, checked inside the transaction
  that claims the operation.

  \<open>sqlsum\<close> is the database's \<open>SUM\<close> over double-precision values, a parameter; \<open>C\<close> gives
  SHA-256, which names an owner by the canonical JSON of its attributes.  The stored policy row is \<open>None\<close> when
  it is missing or not a complete valid policy, and \<open>tenant\<close> is the tenant the store is bound to.
\<close>

section \<open>Limits\<close>

definition default_limits :: quota_limits where
  "default_limits = \<lparr>q_enabled = False, q_spend = 1000, q_user_spend = 100, q_rate = 10000, q_user_rate = 1000,
     q_window = 3600, q_active = 128, q_user_active = 32, q_records = 100000\<rparr>"

definition in_bounds :: "int \<Rightarrow> int \<Rightarrow> bool" where
  "in_bounds m x \<longleftrightarrow> 1 \<le> x \<and> x \<le> m"

definition limits_validated :: "quota_limits \<Rightarrow> quota_limits res" where
  "limits_validated l =
     bindE (checked_cost (NumFloat (Fin (q_spend l)))) (\<lambda>_.
     bindE (checked_cost (NumFloat (Fin (q_user_spend l)))) (\<lambda>_.
       if \<not> in_bounds 1000000 (q_rate l) then Inl (Exn ValueError ''invalid bounded quota rate_limit'')
       else if \<not> in_bounds 1000000 (q_user_rate l) then Inl (Exn ValueError ''invalid bounded quota user_rate_limit'')
       else if \<not> in_bounds 31536000 (q_window l) then Inl (Exn ValueError ''invalid bounded quota window_seconds'')
       else if \<not> in_bounds 1000000 (q_active l) then Inl (Exn ValueError ''invalid bounded quota max_active'')
       else if \<not> in_bounds 1000000 (q_user_active l) then Inl (Exn ValueError ''invalid bounded quota user_max_active'')
       else if \<not> in_bounds 10000000 (q_records l) then Inl (Exn ValueError ''invalid bounded quota max_records'')
       else Inr l))"

definition quota_policy :: "db \<Rightarrow> quota_limits res" where
  "quota_policy s =
     (case t_quota_policy s of
        None \<Rightarrow> Inl (Exn QuotaDenied ''missing, altered or unsupported quota policy'')
      | Some l \<Rightarrow>
          (case limits_validated l of
             Inl e \<Rightarrow> Inl (Exn QuotaDenied ''missing, altered or unsupported quota policy'')
           | Inr l' \<Rightarrow> Inr l'))"

definition quota_set_policy :: "quota_limits \<Rightarrow> (db, unit) prog \<Rightarrow> (db, unit) prog" where
  "quota_set_policy limits audit =
     bindP (liftP (limits_validated limits)) (\<lambda>_.
     sql_atomic (
       bindP (\<lambda>s. (quota_policy s, s)) (\<lambda>_.
       bindP (putP (\<lambda>s. s\<lparr>t_quota_policy := Some limits\<rparr>)) (\<lambda>_.
       audit))))"

section \<open>Owners\<close>

definition au_identifier_opt :: "string \<Rightarrow> string option \<Rightarrow> string res" where
  "au_identifier_opt label v =
     (case v of Some s \<Rightarrow> au_identifier label s | None \<Rightarrow> Inl (Exn ValueError (''invalid bounded '' @ label)))"

definition quota_owner :: "crypto \<Rightarrow> principal \<Rightarrow> string res" where
  "quota_owner C p =
     (if p_kind p \<notin> {''machine'', ''delegated_human''} then Inl (Exn AuthorityDenied ''agent quota owner required'')
      else if \<not> (1 \<le> length (p_issuer p) \<and> length (p_issuer p) \<le> 2048
                 \<and> list_all (\<lambda>c. (of_char c :: nat) \<ge> 32) (p_issuer p))
      then Inl (Exn AuthorityDenied ''invalid quota issuer'')
      else bindE (au_identifier_opt ''tenant_id'' (p_tenant p)) (\<lambda>t.
           bindE (au_subject (p_subject p)) (\<lambda>sub.
           Inr (sha_hex C (encode (dumps_compact (JObj
             [(''domain'', JStr ''agentbridge.quota-owner.v1''), (''tenant_id'', JStr t), (''kind'', JStr (p_kind p)),
              (''issuer'', JStr (p_issuer p)), (''subject'', JStr sub)])))))))"

section \<open>Usage\<close>

record usage =
  u_spend :: rat
  u_user_spend :: rat
  u_unattributed :: rat
  u_active :: int
  u_user_active :: int
  u_recent :: int
  u_user_recent :: int
  u_records :: int

text \<open>The budget totals: spent and reserved of every agent, added in table order.\<close>

fun checked_costs :: "(string \<times> rat) list \<Rightarrow> rat list res" where
  "checked_costs [] = Inr []"
| "checked_costs ((t, c) # rest) =
     bindE (checked_cost (NumFloat (Fin c))) (\<lambda>x. bindE (checked_costs rest) (\<lambda>xs. Inr (x # xs)))"

fun budget_total :: "rat \<Rightarrow> budget_dict list \<Rightarrow> rat res" where
  "budget_total acc [] = Inr acc"
| "budget_total acc (d # ds) =
     bindE (checked_cost (NumFloat (Fin (spent_of d)))) (\<lambda>sp.
     bindE (checked_costs (reserved_of d)) (\<lambda>cs.
     budget_total (fadd (fadd acc sp) (fsum cs)) ds))"

text \<open>A quota record joined with its operation's row.\<close>

definition joined :: "db \<Rightarrow> (quota_row \<times> op_row) list" where
  "joined s = List.map_filter (\<lambda>(k, q). map_option (Pair q) (map_of (t_operations s) k)) (t_quota_records s)"

definition unlinked :: "db \<Rightarrow> op_row list" where
  "unlinked s = map snd (filter (\<lambda>(k, r). map_of (t_quota_records s) k = None) (t_operations s))"

definition counts :: "op_row \<Rightarrow> bool" where
  "counts r \<longleftrightarrow> op_state r = ''unknown'' \<or> op_state r = ''succeeded''"

definition charged_rows :: "db \<Rightarrow> quota_row list" where
  "charged_rows s = map fst (filter (\<lambda>(q, r). counts r) (joined s))"

definition count_if :: "('a \<Rightarrow> bool) \<Rightarrow> 'a list \<Rightarrow> int" where
  "count_if P xs = int (length (filter P xs))"

definition quota_usage ::
  "(rat list \<Rightarrow> rat) \<Rightarrow> string \<Rightarrow> rat \<Rightarrow> quota_limits \<Rightarrow> db \<Rightarrow> usage res" where
  "quota_usage sqlsum owner now limits s =
     bindE (budget_total 0 (map snd (t_budgets s))) (\<lambda>total.
     let since = fsub now (of_int (q_window limits));
         attributed = sqlsum (map qr_cost (charged_rows s));
         owned = sqlsum (map qr_cost (filter (\<lambda>q. qr_owner q = owner) (charged_rows s)));
         legacy_active = count_if (\<lambda>r. op_state r = ''unknown'') (unlinked s);
         legacy_recent = count_if (\<lambda>r. op_state r = ''unknown'' \<or> op_updated r > since) (unlinked s);
         unattributed = max 0 (fsub total attributed)
     in Inr \<lparr>u_spend = total,
             u_user_spend = fadd owned unattributed,
             u_unattributed = unattributed,
             u_active = count_if (\<lambda>(q, r). op_state r = ''unknown'') (joined s) + legacy_active,
             u_user_active = count_if (\<lambda>(q, r). qr_owner q = owner \<and> op_state r = ''unknown'') (joined s) + legacy_active,
             u_recent = count_if (\<lambda>(q, r). qr_admitted q > since) (joined s) + legacy_recent,
             u_user_recent = count_if (\<lambda>(q, r). qr_owner q = owner \<and> qr_admitted q > since) (joined s) + legacy_recent,
             u_records = int (length (joined s))\<rparr>)"

section \<open>Admission\<close>

definition quota_checks :: "usage \<Rightarrow> rat \<Rightarrow> quota_limits \<Rightarrow> string option" where
  "quota_checks u cost l =
     (if fadd (u_spend u) cost > q_spend l then Some ''tenant spend''
      else if fadd (u_user_spend u) cost > q_user_spend l then Some ''user spend''
      else if u_recent u + 1 > q_rate l then Some ''tenant rate''
      else if u_user_recent u + 1 > q_user_rate l then Some ''user rate''
      else if u_active u + 1 > q_active l then Some ''tenant active operations''
      else if u_user_active u + 1 > q_user_active l then Some ''user active operations''
      else None)"

definition insert_quota_record :: "string \<Rightarrow> string \<Rightarrow> quota_row \<Rightarrow> (db, unit) prog" where
  "insert_quota_record agent opid q s =
     (case insert_key (agent, opid) q (t_quota_records s) of
        None \<Rightarrow> (Inl (Exn IntegrityError ''admission_quota_records_v1''), s)
      | Some rows \<Rightarrow> (Inr (), s\<lparr>t_quota_records := rows\<rparr>))"

definition quota_admit ::
  "crypto \<Rightarrow> (rat list \<Rightarrow> rat) \<Rightarrow> string \<Rightarrow> principal \<Rightarrow> string \<Rightarrow> string \<Rightarrow> string
     \<Rightarrow> pynum \<Rightarrow> rat \<Rightarrow> (db, unit) prog" where
  "quota_admit C sqlsum tenant p agent opid fingerprint c now =
     bindP (checkP (p_tenant p = Some tenant \<and> p_agent p = Some agent) AuthorityDenied
              ''quota principal does not own admission'') (\<lambda>_.
     bindP (liftP (checked_cost c)) (\<lambda>cost.
     bindP (liftP (quota_owner C p)) (\<lambda>owner.
     bindP (\<lambda>s. (quota_policy s, s)) (\<lambda>limits.
     bindP (getP (\<lambda>s. int (length (t_quota_records s)))) (\<lambda>records.
     bindP (checkP (\<not> records \<ge> q_records limits) QuotaDenied
              ''quota history capacity reached; reviewed archival required'') (\<lambda>_.
     bindP (if \<not> q_enabled limits then retP ()
            else bindP (\<lambda>s. (quota_usage sqlsum owner now limits s, s)) (\<lambda>u.
                 case quota_checks u cost limits of
                   None \<Rightarrow> retP ()
                 | Some label \<Rightarrow> raiseP QuotaDenied (label @ '' quota exceeded''))) (\<lambda>_.
     insert_quota_record agent opid
       \<lparr>qr_fingerprint = fingerprint, qr_owner = owner, qr_cost = cost, qr_admitted = now\<rparr>)))))))"

text \<open>
  The trigger on the operations table: while quotas are enabled (or the policy is unreadable)
  an operation is inserted only with its quota record.
\<close>

definition claim_guard :: "string \<Rightarrow> string \<Rightarrow> string \<Rightarrow> db \<Rightarrow> bool" where
  "claim_guard agent opid fingerprint s \<longleftrightarrow>
     (case t_quota_policy s of None \<Rightarrow> False | Some l \<Rightarrow> \<not> q_enabled l)
     \<or> (\<exists>q. map_of (t_quota_records s) (agent, opid) = Some q \<and> qr_fingerprint q = fingerprint)"

definition quota_inspect ::
  "(rat list \<Rightarrow> rat) \<Rightarrow> rat \<Rightarrow> db \<Rightarrow> (quota_limits \<times> usage) res" where
  "quota_inspect sqlsum now s =
     bindE (quota_policy s) (\<lambda>limits. bindE (quota_usage sqlsum [] now limits s) (\<lambda>u. Inr (limits, u)))"

section \<open>What an admission guarantees\<close>

lemma quota_admit_exn:
  "quota_admit oh ss tenant p agent opid fp c now s = (Inl e, s') \<Longrightarrow> s' = s"
  by (auto simp: quota_admit_def prog_simps insert_quota_record_def split: if_splits option.splits)

text \<open>An admitted operation is recorded, and under enabled caps its cost fitted every limit.\<close>

lemma quota_admit_ok:
  assumes "quota_admit oh ss tenant p agent opid fp c now s = (Inr u, s')"
  obtains cost owner limits where "checked_cost c = Inr cost" "quota_owner oh p = Inr owner"
    and "quota_policy s = Inr limits" "int (length (t_quota_records s)) < q_records limits"
    and "p_tenant p = Some tenant" "p_agent p = Some agent"
    and "q_enabled limits \<Longrightarrow> \<exists>us. quota_usage ss owner now limits s = Inr us \<and> quota_checks us cost limits = None"
    and "map_of (t_quota_records s) (agent, opid) = None"
    and "s' = s\<lparr>t_quota_records := t_quota_records s @ [((agent, opid),
           \<lparr>qr_fingerprint = fp, qr_owner = owner, qr_cost = cost, qr_admitted = now\<rparr>)]\<rparr>"
proof -
  from assms obtain cost owner limits where c: "p_tenant p = Some tenant" "p_agent p = Some agent" "checked_cost c = Inr cost"
      "quota_owner oh p = Inr owner" "quota_policy s = Inr limits" "\<not> int (length (t_quota_records s)) \<ge> q_records limits"
    and en: "q_enabled limits \<Longrightarrow> \<exists>us. quota_usage ss owner now limits s = Inr us \<and> quota_checks us cost limits = None"
    and ins: "insert_quota_record agent opid
        \<lparr>qr_fingerprint = fp, qr_owner = owner, qr_cost = cost, qr_admitted = now\<rparr> s = (Inr u, s')"
    unfolding quota_admit_def
    by (elim bindP_okE) (auto simp: checkP_ok_iff prog_simps simp del: checkP_apply split: if_splits option.splits)
  from ins have "map_of (t_quota_records s) (agent, opid) = None"
    and "s' = s\<lparr>t_quota_records := t_quota_records s @ [((agent, opid),
           \<lparr>qr_fingerprint = fp, qr_owner = owner, qr_cost = cost, qr_admitted = now\<rparr>)]\<rparr>"
    by (auto simp: insert_quota_record_def insert_key_def split: if_splits)
  with c en show thesis by (intro that) auto
qed

lemma quota_checks_None:
  "quota_checks u cost l = None \<longleftrightarrow>
     fadd (u_spend u) cost \<le> q_spend l \<and> fadd (u_user_spend u) cost \<le> q_user_spend l
     \<and> u_recent u < q_rate l \<and> u_user_recent u < q_user_rate l
     \<and> u_active u < q_active l \<and> u_user_active u < q_user_active l"
  by (auto simp: quota_checks_def)

text \<open>The user's share never exceeds the tenant's for the counted quantities.\<close>

lemma count_if_mono: "(\<And>x. P x \<Longrightarrow> Q x) \<Longrightarrow> count_if P xs \<le> count_if Q xs"
  unfolding count_if_def by (induction xs) auto

lemma quota_usage_user_le:
  assumes "quota_usage ss owner now limits s = Inr u"
  shows "u_user_active u \<le> u_active u \<and> u_user_recent u \<le> u_recent u"
  using assms by (auto simp: quota_usage_def Let_def bindE_Inr_iff intro!: count_if_mono)

text \<open>The guard refuses exactly what an admission in the same transaction lets through.\<close>

lemma quota_admit_passes_guard:
  "quota_admit oh ss tenant p agent opid fp c now s = (Inr u, s') \<Longrightarrow> claim_guard agent opid fp s'"
  by (erule quota_admit_ok) (auto simp: claim_guard_def map_add_def)

section \<open>Properties of the quotas\<close>


definition demo_principal :: principal where
  "demo_principal = (plain_principal (Some ''t'') ''s'' ''i'' ''machine'' 1)\<lparr>p_agent := Some ''a''\<rparr>"

definition quota_db :: db where
  "quota_db = empty_db\<lparr>t_quota_policy := Some (default_limits\<lparr>q_enabled := True\<rparr>)\<rparr>"

lemma demo_admit:
  "\<exists>s'. quota_admit toy_crypto fsum ''t'' demo_principal ''a'' ''op'' ''f'' (NumInt 5) 10 quota_db = (Inr (), s')"
  by (simp add: quota_admit_def quota_policy_def limits_validated_def in_bounds_def default_limits_def quota_db_def
      demo_principal_def plain_principal_def quota_owner_def au_identifier_opt_def au_identifier_def au_subject_def id_start_def py_strip_def py_space_def checked_cost_int
      quota_usage_def quota_checks_def charged_rows_def joined_def unlinked_def count_if_def fsum_def fadd_def fsub_def
      insert_quota_record_def insert_key_def List.map_filter_simps bindP_def bindE_def Let_def
      empty_db_def empty_tables_def gov_tables.defs sql_tables.defs)


end
