(* ===== verification/Controls.thy ===== *)
theory Controls
  imports Identity
begin

text \<open>
  The small guards of the control plane: operator roles (\<^verbatim>\<open>src/governance/rbac.py\<close>), the
  fixed-window rate limiter (\<^verbatim>\<open>src/api/ratelimit.py\<close>) and bounded retry of transient store
  failures (\<^verbatim>\<open>src/governance/resilience.py\<close>).
\<close>

section \<open>Operator roles\<close>

definition PERMISSIONS :: "string list" where
  "PERMISSIONS = [''identities:read'', ''identities:write'', ''budgets:read'', ''budgets:write'',
     ''approvals:read'', ''approvals:write'', ''audit:read'', ''audit:export'', ''policy:read'', ''policy:write'']"

definition ROLE_PERMISSIONS :: "(string \<times> string list) list" where
  "ROLE_PERMISSIONS = [
     (''admin'', [''*'']),
     (''operator'', [''identities:read'', ''identities:write'', ''budgets:read'', ''budgets:write'',
        ''approvals:read'', ''approvals:write'', ''audit:read'', ''audit:export'', ''policy:read'']),
     (''viewer'', [''identities:read'', ''budgets:read'', ''approvals:read'', ''audit:read'', ''policy:read''])]"

definition role_can :: "string \<Rightarrow> string \<Rightarrow> bool" where
  "role_can role permission =
     (let perms = (case map_of ROLE_PERMISSIONS role of None \<Rightarrow> [] | Some ps \<Rightarrow> ps)
      in ''*'' \<in> set perms \<or> permission \<in> set perms)"

definition require_role :: "string \<Rightarrow> string \<Rightarrow> unit res" where
  "require_role role permission =
     (if \<not> role_can role permission
      then Inl (Exn AccessDenied (''role '' @ [CHR 0x27] @ role @ [CHR 0x27] @ '' lacks permission ''
                  @ [CHR 0x27] @ permission @ [CHR 0x27]))
      else Inr ())"

section \<open>The rate limiter\<close>

type_synonym hits = "(string \<times> (rat \<times> int)) list"

definition rl_window :: "int \<Rightarrow> rat \<Rightarrow> (rat \<times> int) option \<Rightarrow> rat \<times> int" where
  "rl_window window now hit =
     (let (start, count) = (case hit of None \<Rightarrow> (now, 0) | Some h \<Rightarrow> h)
      in if fsub now start \<ge> of_int window then (now, 0) else (start, count))"

definition rl_allow :: "int \<Rightarrow> int \<Rightarrow> rat \<Rightarrow> string \<Rightarrow> hits \<Rightarrow> bool \<times> hits" where
  "rl_allow max_requests window now key hits =
     (let (start, count) = rl_window window now (map_of hits key);
          count = count + 1
      in (count \<le> max_requests, AList.update key (start, count) hits))"

definition rl_reset :: "hits \<Rightarrow> hits" where
  "rl_reset hits = []"

text \<open>The answers to a sequence of requests, each with its time and key.\<close>

fun rl_run :: "int \<Rightarrow> int \<Rightarrow> (rat \<times> string) list \<Rightarrow> hits \<Rightarrow> bool list" where
  "rl_run m w [] h = []"
| "rl_run m w ((now, key) # es) h = (case rl_allow m w now key h of (ok, h') \<Rightarrow> ok # rl_run m w es h')"

definition rl_admitted :: "int \<Rightarrow> int \<Rightarrow> string \<Rightarrow> (rat \<times> string) list \<Rightarrow> hits \<Rightarrow> nat" where
  "rl_admitted m w key es h = length (filter (\<lambda>((now, k), ok). ok \<and> k = key) (zip es (rl_run m w es h)))"

text \<open>One key on its own.\<close>

fun key_run :: "int \<Rightarrow> int \<Rightarrow> rat list \<Rightarrow> (rat \<times> int) option \<Rightarrow> nat" where
  "key_run m w [] st = 0"
| "key_run m w (t # ts) st =
     (let (start, count) = rl_window w t st
      in (if count + 1 \<le> m then 1 else 0) + key_run m w ts (Some (start, count + 1)))"

lemma rl_admitted_key_run:
  "rl_admitted m w key es h = key_run m w (map fst (filter (\<lambda>e. snd e = key) es)) (map_of h key)"
proof (induction es arbitrary: h)
  case Nil
  then show ?case by (simp add: rl_admitted_def)
next
  case (Cons e es)
  obtain now k where e: "e = (now, k)" by (cases e)
  obtain ok h' where a: "rl_allow m w now k h = (ok, h')" by (cases "rl_allow m w now k h")
  have step: "rl_admitted m w key (e # es) h = (if ok \<and> k = key then 1 else 0) + rl_admitted m w key es h'"
    by (simp add: rl_admitted_def e a)
  show ?case
  proof (cases "k = key")
    case True
    with a have "ok = (case rl_window w now (map_of h key) of (start, c) \<Rightarrow> c + 1 \<le> m)"
      and "map_of h' key = (case rl_window w now (map_of h key) of (start, c) \<Rightarrow> Some (start, c + 1))"
      by (auto simp: rl_allow_def Let_def split: prod.splits)
    with True Cons.IH step show ?thesis by (simp add: e Let_def split: prod.splits)
  next
    case False
    with a have "map_of h' key = map_of h key" by (auto simp: rl_allow_def Let_def split: prod.splits)
    with False Cons.IH step show ?thesis by (simp add: e)
  qed
qed

definition room :: "int \<Rightarrow> int \<Rightarrow> nat" where
  "room m c = nat (m - c)"

lemma key_run_one_window:
  assumes "\<And>t. t \<in> set ts \<Longrightarrow> \<not> fsub t start \<ge> of_int w"
  shows "key_run m w ts (Some (start, c)) \<le> room m c"
  using assms
proof (induction ts arbitrary: c)
  case (Cons t ts)
  from Cons.IH [of "c + 1"] Cons.prems show ?case by (force simp: room_def rl_window_def)
qed simp

lemma clock_diff_exact:
  assumes "clock_ok t" and "clock_ok u" shows "fsub t u = t - u"
proof (rule fsub_grid)
  show "on_grid (-22) (t - u)"
    using assms by (intro on_gridI multiple_of_unit_diff) (auto simp: clock_ok_def)
qed

text \<open>Within one window length the limiter starts at most one new window, so it admits at most twice its maximum.\<close>

lemma key_run_two_windows:
  assumes "sorted ts" and "\<And>t. t \<in> set ts \<Longrightarrow> clock_ok t \<and> a \<le> t \<and> t < a + of_int w"
  shows "key_run m w ts (Some (start, c)) \<le> room m c + room m 0"
  using assms
proof (induction ts arbitrary: c)
  case (Cons t ts)
  show ?case
  proof (cases "fsub t start \<ge> of_int w")
    case True
    have "\<not> fsub u t \<ge> of_int w" if "u \<in> set ts" for u
    proof -
      have "clock_ok u" "u < a + of_int w" "clock_ok t" "a \<le> t" using Cons.prems(2) that by auto
      then show ?thesis using clock_diff_exact [of u t] by simp
    qed
    then have "key_run m w ts (Some (t, 1)) \<le> room m 1" by (intro key_run_one_window)
    with True show ?thesis by (auto simp: room_def rl_window_def)
  next
    case False
    from Cons.IH [of "c + 1"] Cons.prems False show ?thesis by (force simp: room_def rl_window_def)
  qed
qed simp

lemma key_run_bound:
  assumes "sorted ts" and "\<And>t. t \<in> set ts \<Longrightarrow> clock_ok t \<and> a \<le> t \<and> t < a + of_int w"
    and "\<And>start c. st = Some (start, c) \<Longrightarrow> 0 \<le> c"
  shows "key_run m w ts st \<le> 2 * room m 0"
proof (cases st)
  case (Some h)
  obtain start c where h: "h = (start, c)" by (cases h)
  have "room m c \<le> room m 0" using assms(3) Some h by (simp add: room_def)
  with key_run_two_windows [OF assms(1,2), of m start c] show ?thesis by (simp add: Some h)
next
  case None
  show ?thesis
  proof (cases ts)
    case (Cons t us)
    have "key_run m w ts None = key_run m w ts (Some (t, 0))" by (simp add: Cons rl_window_def)
    with key_run_two_windows [OF assms(1,2), of m t 0] show ?thesis by (simp add: None)
  qed simp
qed

section \<open>Retry\<close>

text \<open>
  \<^verbatim>\<open>retry_transient\<close>: attempt \<open>n\<close> runs \<open>fn n\<close>; an exception of a transient class leads to the
  next attempt while there is one.  Sleeping between attempts has no effect on the state.
\<close>

definition transient :: "exc_class list \<Rightarrow> exn \<Rightarrow> bool" where
  "transient extra e \<longleftrightarrow> exn_class e = OperationalError \<or> exn_class e \<in> set extra"

function retry_from :: "(exn \<Rightarrow> bool) \<Rightarrow> nat \<Rightarrow> (nat \<Rightarrow> ('s, 'a) prog) \<Rightarrow> nat \<Rightarrow> exn option \<Rightarrow> ('s, 'a) prog" where
  "retry_from tr k fn attempt last_exc s =
     (if attempt > k
      then (case last_exc of
              None \<Rightarrow> (Inl (Exn OtherError ''AssertionError''), s)
            | Some e \<Rightarrow> (Inl e, s))
      else (case fn attempt s of
              (Inr a, s') \<Rightarrow> (Inr a, s')
            | (Inl e, s') \<Rightarrow>
                if tr e then retry_from tr k fn (attempt + 1) (Some e) s' else (Inl e, s')))"
  by pat_completeness auto
termination by (relation "measure (\<lambda>(tr, k, fn, attempt, _, _). k + 1 - attempt)") auto

declare retry_from.simps [simp del]

definition retry_transient :: "exc_class list \<Rightarrow> nat \<Rightarrow> (nat \<Rightarrow> ('s, 'a) prog) \<Rightarrow> ('s, 'a) prog" where
  "retry_transient extra max_attempts fn = retry_from (transient extra) max_attempts fn 1 None"

text \<open>When failing attempts leave no trace, the whole retry has the effect of one attempt or none.\<close>

lemma retry_from_effect:
  assumes clean: "\<And>n s e s'. fn n s = (Inl e, s') \<Longrightarrow> s' = s"
  shows "(\<exists>n a s'. attempt \<le> n \<and> n \<le> k \<and> fn n s = (Inr a, s') \<and>
            retry_from tr k fn attempt le s = (Inr a, s'))
       \<or> (\<exists>e. retry_from tr k fn attempt le s = (Inl e, s))"
proof (induction "k + 1 - attempt" arbitrary: attempt le)
  case 0
  then show ?case by (subst (2) retry_from.simps) (auto split: option.splits)
next
  case (Suc x)
  then have le: "attempt \<le> k" by simp
  obtain r s' where r: "fn attempt s = (r, s')" by (metis surj_pair)
  show ?case
  proof (cases r)
    case (Inr a)
    have "retry_from tr k fn attempt le s = (Inr a, s')"
      using \<open>attempt \<le> k\<close> r Inr by (subst retry_from.simps) simp
    with r Inr \<open>attempt \<le> k\<close> show ?thesis by blast
  next
    case (Inl e)
    with clean r have s': "s' = s" by blast
    have step: "retry_from tr k fn attempt le s =
        (if tr e then retry_from tr k fn (attempt + 1) (Some e) s else (Inl e, s))"
      using \<open>attempt \<le> k\<close> r Inl s' by (subst retry_from.simps) simp
    show ?thesis
    proof (cases "tr e")
      case True
      from Suc(2) have "x = k + 1 - (attempt + 1)" by simp
      from Suc(1) [OF this, of "Some e"] True step show ?thesis
        by (metis Suc_eq_plus1 Suc_leD)
    qed (simp add: step)
  qed
qed

section \<open>Properties of the controls\<close>

text \<open>C35: Within any stretch of one window length, whatever the other keys do, the rate limiter admits at most
  twice its maximum for a key.\<close>

theorem rate_limiter_bound:
  assumes "sorted (map fst es)" and "\<forall>e \<in> set es. clock_ok (fst e) \<and> a \<le> fst e \<and> fst e < a + of_int w"
    and "\<forall>(k, start, c) \<in> set h. 0 \<le> c"
  shows "rl_admitted m w key es h \<le> 2 * nat m"
proof -
  have "sorted (map fst (filter (\<lambda>e. snd e = key) es))" using assms(1) by (rule sorted_filter)
  moreover have "clock_ok t \<and> a \<le> t \<and> t < a + of_int w" if "t \<in> set (map fst (filter (\<lambda>e. snd e = key) es))" for t
    using assms(2) that by auto
  moreover have "0 \<le> c" if "map_of h key = Some (start, c)" for start c
    using assms(3) map_of_SomeD [OF that] by auto
  ultimately have "key_run m w (map fst (filter (\<lambda>e. snd e = key) es)) (map_of h key) \<le> 2 * room m 0"
    by (rule key_run_bound)
  then show ?thesis by (simp add: rl_admitted_key_run room_def)
qed

theorem rate_limiter_bound_witness:
  "rl_admitted 1 60 ''k'' [(1700000059, ''k''), (1700000061, ''k'')] [(''k'', 1700000000, 0)] = 2
   \<and> rl_admitted 1 60 ''k'' [(1700000059, ''k''), (1700000061, ''k'')] [(''k'', 1700000000, 0)] \<le> 2 * nat 1"
proof -
  have "rl_admitted 1 60 ''k'' [(1700000059, ''k''), (1700000061, ''k'')] [(''k'', 1700000000, 0)] = 2"
    by (simp add: rl_admitted_def rl_allow_def rl_window_def fsub_def Let_def)
  moreover have "rl_admitted 1 60 ''k'' [(1700000059, ''k''), (1700000061, ''k'')] [(''k'', 1700000000, 0)] \<le> 2 * nat 1"
    by (rule rate_limiter_bound [where a = 1700000010]) (simp_all add: clock_ok_def multiple_of_unit_def)
  ultimately show ?thesis by blast
qed

text \<open>C36: Retrying an operation whose failed attempts leave no trace has the effect of one attempt that
  succeeded, within the allowed number of attempts, or no effect.\<close>

theorem retry_once_effect:
  assumes "\<And>n s e s'. fn n s = (Inl e, s') \<Longrightarrow> s' = s"
  shows "(\<exists>n a s'. 1 \<le> n \<and> n \<le> max_attempts \<and> fn n s = (Inr a, s') \<and> retry_transient extra max_attempts fn s = (Inr a, s'))
       \<or> (\<exists>e. retry_transient extra max_attempts fn s = (Inl e, s))"
  unfolding retry_transient_def using assms by (rule retry_from_effect)

definition flaky :: "nat \<Rightarrow> (int, unit) prog" where
  "flaky n s = (if n < 3 then (Inl (Exn OperationalError ''locked''), s) else (Inr (), s + 1))"

theorem retry_once_effect_witness: "retry_transient [] 5 flaky 0 = (Inr (), 1)"
proof -
  have *: "(\<exists>n a s'. 1 \<le> n \<and> n \<le> 5 \<and> flaky n 0 = (Inr a, s') \<and> retry_transient [] 5 flaky 0 = (Inr a, s'))
      \<or> (\<exists>e. retry_transient [] 5 flaky 0 = (Inl e, 0))"
    by (rule retry_once_effect) (auto simp: flaky_def split: if_splits)
  have "retry_transient [] 5 flaky 0 \<noteq> (Inl e, 0)" for e
    by (simp add: retry_transient_def retry_from.simps flaky_def transient_def)
  then obtain n where "flaky n 0 = (Inr (), 1)" "retry_transient [] 5 flaky 0 = (Inr (), 1)"
    using * by (auto simp: flaky_def split: if_splits)
  then show ?thesis by blast
qed

text \<open>The roles are ordered: what a viewer may do an operator may, what an operator may do an
  administrator may, an operator may do everything but change policy, and an unknown role may do nothing.\<close>

theorem role_hierarchy:
  "(role_can ''viewer'' p \<longrightarrow> role_can ''operator'' p) \<and> role_can ''admin'' p
   \<and> (p \<in> set PERMISSIONS \<longrightarrow> role_can ''operator'' p = (p \<noteq> ''policy:write''))
   \<and> (role \<notin> {''viewer'', ''operator'', ''admin''} \<longrightarrow> require_role role p \<noteq> Inr ())"
  by (auto simp: role_can_def ROLE_PERMISSIONS_def PERMISSIONS_def require_role_def)

theorem role_hierarchy_witness:
  "role_can ''operator'' ''audit:read'' \<and> \<not> role_can ''operator'' ''policy:write'' \<and> require_role ''guest'' ''audit:read'' \<noteq> Inr ()"
  using role_hierarchy [of "''audit:read''" "''guest''"] role_hierarchy [of "''policy:write''" "''guest''"]
  by (simp add: PERMISSIONS_def role_can_def ROLE_PERMISSIONS_def)

end
