(* ===== verification/Adapters.thy ===== *)
theory Adapters
  imports Canonical Py_Repr
begin

text \<open>
  The adapters whose wire forms are JSON objects throughout: MCP, A2A and Gemini
  (\<^verbatim>\<open>src/protocols/mcp.py\<close>, \<^verbatim>\<open>a2a.py\<close>, \<^verbatim>\<open>gemini.py\<close>), with the proof that each carries a tool call.
\<close>

section \<open>Reading JSON the way Python does\<close>

definition attribute_error :: "'a res" where
  "attribute_error = Inl (Exn OtherError ''AttributeError'')"

definition as_dict :: "json \<Rightarrow> (string \<times> json) list res" where
  "as_dict v = (case v of JObj d \<Rightarrow> Inr d | _ \<Rightarrow> attribute_error)"

text \<open>Iteration over a value: the elements of a list, the characters of a string, the keys of a dict.\<close>

fun py_iter :: "json \<Rightarrow> json list res" where
  "py_iter (JArr xs) = Inr xs"
| "py_iter (JStr s) = Inr (map (\<lambda>c. JStr [c]) s)"
| "py_iter (JObj d) = Inr (map (JStr \<circ> fst) d)"
| "py_iter _ = Inl (Exn TypeError ''object is not iterable'')"

fun is_dict :: "json \<Rightarrow> bool" where
  "is_dict (JObj d) = True" | "is_dict _ = False"

definition has_key :: "(string \<times> json) list \<Rightarrow> string \<Rightarrow> bool" where
  "has_key d k \<longleftrightarrow> map_of d k \<noteq> None"

definition id_or :: "string \<Rightarrow> json \<Rightarrow> bool \<Rightarrow> string" where
  "id_or fresh v use = (if use then py_str v else fresh)"

section \<open>MCP\<close>

definition mcp_to_call :: "string \<Rightarrow> json \<Rightarrow> canonical_call res" where
  "mcp_to_call fresh wire =
     bindE (require_mapping wire ''mcp'' ''request'') (\<lambda>w.
       if has_key w ''method'' \<and> jget w ''method'' \<noteq> JStr ''tools/call''
       then Inl (Exn ValueError ''only MCP tools/call has an explicitly supported canonical action'')
       else bindE (require_mapping (jget_or w ''params'' (JObj [])) ''mcp'' ''params'') (\<lambda>params.
         let arguments = jget_or params ''arguments'' (jget_or params ''input'' (JObj []));
             arguments = (if arguments = JNull then JObj [] else arguments)
         in mk_call (py_or (jget params ''name'') (py_or (jget params ''tool'') (JStr []))) arguments JNull
              (id_or fresh (jget w ''id'') (jget w ''id'' \<noteq> JNull)) (Some ''mcp'')))"

definition mcp_from_call :: "string \<Rightarrow> string \<Rightarrow> canonical_call \<Rightarrow> json" where
  "mcp_from_call i1 i2 call =
     JObj [(''jsonrpc'', JStr ''2.0''), (''id'', JStr (cc_call_id call)), (''method'', JStr ''tools/call''),
           (''params'', JObj [(''name'', JStr (cc_capability call)), (''arguments'', JObj (cc_arguments call))])]"

definition mcp_block :: "json \<Rightarrow> (string \<times> json) list option" where
  "mcp_block block = (case block of
      JObj d \<Rightarrow> if has_key d ''text'' then Some [(''type'', JStr ''text''), (''text'', jget d ''text'')] else None
    | _ \<Rightarrow> None)"

definition mcp_to_result :: "json \<Rightarrow> canonical_result res" where
  "mcp_to_result wire =
     bindE (case wire of JObj w \<Rightarrow> as_dict (jget_or w ''result'' wire) | _ \<Rightarrow> Inr []) (\<lambda>result.
     bindE (py_iter (py_or (jget result ''content'') (JArr []))) (\<lambda>blocks.
     Inr \<lparr>cr_content = List.map_filter mcp_block blocks,
          cr_is_error = truthy (jget_or result ''isError'' (JBool False)), cr_metadata = []\<rparr>))"

definition mcp_from_result :: "string \<Rightarrow> canonical_result \<Rightarrow> json res" where
  "mcp_from_result i1 r =
     Inr (JObj [(''content'', JArr (map (\<lambda>b. JObj [(''type'', JStr ''text''), (''text'', jget_or b ''text'' (JStr []))])
                  (cr_content r))),
                (''isError'', JBool (cr_is_error r))])"

definition mcp_adapter :: adapter where
  "mcp_adapter = \<lparr>to_call = mcp_to_call, from_call = mcp_from_call,
                  to_result = mcp_to_result, from_result = mcp_from_result\<rparr>"

section \<open>A2A\<close>

definition a2a_messages :: "(string \<times> json) list \<Rightarrow> json list res" where
  "a2a_messages task =
     (let messages = (if jget task ''history'' = JNull then jget_or task ''messages'' (JArr []) else jget task ''history'')
      in case messages of JArr ms \<Rightarrow> Inr ms | _ \<Rightarrow> Inl (Exn ValueError ''A2A task history must be a list''))"

text \<open>What the loops over messages and parts accumulate: capability, arguments and text.\<close>

type_synonym a2a_acc = "json \<times> json \<times> json"

definition a2a_part :: "a2a_acc \<Rightarrow> json \<Rightarrow> a2a_acc res" where
  "a2a_part acc part =
     (case acc of (capability, arguments, text) \<Rightarrow>
      bindE (require_mapping part ''a2a'' ''part'') (\<lambda>p.
        if jget p ''kind'' = JStr ''data''
        then bindE (require_mapping (jget_or p ''data'' (JObj [])) ''a2a'' ''data part'') (\<lambda>data.
          let name = py_or (jget data ''name'') (jget data ''tool_name'')
          in if truthy name \<and> truthy capability
             then Inl (Exn ValueError ''multiple tool actions cannot be represented as one call'')
             else Inr (py_or name capability, jget_or data ''arguments'' arguments, text))
        else if jget p ''kind'' = JStr ''text'' \<and> text = JNull
        then Inr (capability, arguments, jget p ''text'')
        else Inr acc))"

fun foldE :: "('b \<Rightarrow> 'a \<Rightarrow> 'b res) \<Rightarrow> 'b \<Rightarrow> 'a list \<Rightarrow> 'b res" where
  "foldE f acc [] = Inr acc"
| "foldE f acc (x # xs) = bindE (f acc x) (\<lambda>acc'. foldE f acc' xs)"

definition a2a_message :: "a2a_acc \<Rightarrow> json \<Rightarrow> a2a_acc res" where
  "a2a_message acc msg =
     bindE (require_mapping msg ''a2a'' ''message'') (\<lambda>m.
       case jget_or m ''parts'' (JArr []) of
         JArr parts \<Rightarrow> foldE a2a_part acc parts
       | _ \<Rightarrow> Inl (Exn ValueError ''A2A message parts must be a list''))"

definition a2a_task :: "(string \<times> json) list \<Rightarrow> json" where
  "a2a_task w = (case jget w ''params'' of
      JObj ps \<Rightarrow> if has_key ps ''task'' then jget ps ''task'' else JObj w
    | _ \<Rightarrow> JObj w)"

definition a2a_status_check :: "(string \<times> json) list \<Rightarrow> unit res" where
  "a2a_status_check task =
     (if has_key task ''status'' \<and> \<not> is_dict (jget task ''status'')
      then Inl (Exn ValueError ''A2A lifecycle status must be an object'')
      else case jget task ''status'' of
        JObj st \<Rightarrow>
          if jget st ''state'' \<noteq> JNull \<and> jget st ''state'' \<noteq> JStr ''submitted''
          then Inl (Exn ValueError ''A2A lifecycle state not supported as new action'') else Inr ()
      | _ \<Rightarrow> Inr ())"

definition a2a_method_check :: "json \<Rightarrow> unit res" where
  "a2a_method_check m =
     (if m \<in> {JStr ''tasks/cancel'', JStr ''tasks/resubscribe'', JStr ''tasks/get''}
      then Inl (Exn ValueError ''A2A lifecycle methods are not canonical action calls'')
      else if m \<noteq> JNull \<and> m \<noteq> JStr ''tasks/send''
      then Inl (Exn ValueError ''unsupported A2A method: only tasks/send tool actions'')
      else Inr ())"

definition a2a_to_call :: "string \<Rightarrow> json \<Rightarrow> canonical_call res" where
  "a2a_to_call fresh wire =
     bindE (require_mapping wire ''a2a'' ''request'') (\<lambda>w.
     bindE (a2a_method_check (jget w ''method'')) (\<lambda>_.
       case a2a_task w of
         JObj task \<Rightarrow>
           bindE (a2a_status_check task) (\<lambda>_.
           bindE (a2a_messages task) (\<lambda>ms.
           bindE (foldE a2a_message (JStr [], JObj [], JNull) ms) (\<lambda>(capability, arguments, text).
           mk_call capability arguments text
             (id_or fresh (jget w ''id'') (jget w ''id'' \<noteq> JNull)) (Some ''a2a''))))
       | _ \<Rightarrow> Inl (Exn ValueError ''A2A task must be an object'')))"

definition a2a_from_call :: "string \<Rightarrow> string \<Rightarrow> canonical_call \<Rightarrow> json" where
  "a2a_from_call i1 i2 call =
     (let shown = (case cc_text call of Some t \<Rightarrow> if t = [] then ''call: '' @ cc_capability call else t
                   | None \<Rightarrow> ''call: '' @ cc_capability call);
          parts = [JObj [(''kind'', JStr ''text''), (''text'', JStr shown)]]
            @ (if cc_capability call \<noteq> []
               then [JObj [(''kind'', JStr ''data''), (''data'', JObj [(''name'', JStr (cc_capability call)),
                       (''arguments'', JObj (cc_arguments call))])]]
               else [])
      in JObj [(''id'', JStr (cc_call_id call)), (''contextId'', JStr i1), (''kind'', JStr ''task''),
               (''status'', JObj [(''state'', JStr ''submitted'')]),
               (''history'', JArr [JObj [(''kind'', JStr ''message''), (''messageId'', JStr i2),
                                         (''role'', JStr ''agent''), (''parts'', JArr parts)]]),
               (''metadata'', JObj [(''source_protocol'',
                   case cc_source call of None \<Rightarrow> JNull | Some p \<Rightarrow> JStr p)])])"

definition a2a_part_text :: "json list \<Rightarrow> json \<Rightarrow> json list res" where
  "a2a_part_text acc part = bindE (as_dict part) (\<lambda>p.
     Inr (if jget p ''kind'' = JStr ''text'' then acc @ [jget_or p ''text'' (JStr [])] else acc))"

definition a2a_to_result :: "json \<Rightarrow> canonical_result res" where
  "a2a_to_result wire =
     bindE (case wire of JObj w \<Rightarrow> py_iter (jget_or w ''parts'' (JArr [])) | _ \<Rightarrow> Inr []) (\<lambda>parts.
     bindE (foldE a2a_part_text [] parts) (\<lambda>texts.
     bindE (join_text '' '' texts) (\<lambda>t. Inr (result_from_text t False))))"

definition a2a_from_result :: "string \<Rightarrow> canonical_result \<Rightarrow> json res" where
  "a2a_from_result i1 r = bindE (result_text r) (\<lambda>t.
     Inr (JObj [(''kind'', JStr ''message''), (''messageId'', JStr i1), (''role'', JStr ''agent''),
                (''parts'', JArr [JObj [(''kind'', JStr ''text''), (''text'', JStr t)]])]))"

definition a2a_adapter :: adapter where
  "a2a_adapter = \<lparr>to_call = a2a_to_call, from_call = a2a_from_call,
                  to_result = a2a_to_result, from_result = a2a_from_result\<rparr>"

section \<open>Gemini\<close>

definition gemini_to_call :: "string \<Rightarrow> json \<Rightarrow> canonical_call res" where
  "gemini_to_call fresh wire =
     bindE (require_mapping wire ''gemini'' ''request'') (\<lambda>w.
     mk_call (jget_or w ''name'' (JStr [])) (py_or (jget_or w ''args'' (JObj [])) (JObj [])) JNull
       (id_or fresh (jget w ''id'') (truthy (jget w ''id''))) (Some ''gemini''))"

definition gemini_from_call :: "string \<Rightarrow> string \<Rightarrow> canonical_call \<Rightarrow> json" where
  "gemini_from_call i1 i2 call =
     JObj [(''name'', JStr (cc_capability call)), (''args'', JObj (cc_arguments call))]"

definition gemini_to_result :: "json \<Rightarrow> canonical_result res" where
  "gemini_to_result wire =
     bindE (case wire of JObj w \<Rightarrow> as_dict (jget_or w ''response'' (JObj [])) | _ \<Rightarrow> Inr []) (\<lambda>response.
     Inr (result_from_text (py_str (py_or (jget response ''result'') (py_or (jget response ''content'') (JStr [])))) False))"

definition gemini_from_result :: "string \<Rightarrow> canonical_result \<Rightarrow> json res" where
  "gemini_from_result i1 r = bindE (result_text r) (\<lambda>t.
     Inr (JObj [(''name'', jget_or (cr_metadata r) ''name'' (JStr ''result'')),
                (''response'', JObj [(''result'', JStr t)])]))"

definition gemini_adapter :: adapter where
  "gemini_adapter = \<lparr>to_call = gemini_to_call, from_call = gemini_from_call,
                     to_result = gemini_to_result, from_result = gemini_from_result\<rparr>"

section \<open>Calls survive\<close>

lemma mcp_carries: "carries (\<lambda>_. True) mcp_adapter"
  by (auto simp: carries_def mcp_adapter_def mcp_to_call_def mcp_from_call_def require_mapping_def has_key_def
      py_or_def mk_call_def)

lemma a2a_carries: "carries (\<lambda>_. True) a2a_adapter"
  by (auto simp: carries_def a2a_adapter_def a2a_to_call_def a2a_from_call_def require_mapping_def has_key_def
      a2a_method_check_def a2a_task_def a2a_status_check_def a2a_messages_def a2a_message_def a2a_part_def
      py_or_def mk_call_def Let_def split: option.splits)

lemma gemini_carries: "carries (\<lambda>_. True) gemini_adapter"
  by (auto simp: carries_def gemini_adapter_def gemini_to_call_def gemini_from_call_def require_mapping_def
      py_or_def mk_call_def)

interpretation mcp: faithful_adapter "\<lambda>_. True" mcp_adapter
  by unfold_locales (rule mcp_carries)

interpretation a2a: faithful_adapter "\<lambda>_. True" a2a_adapter
  by unfold_locales (rule a2a_carries)

interpretation gemini: faithful_adapter "\<lambda>_. True" gemini_adapter
  by unfold_locales (rule gemini_carries)

text \<open>Lifecycle requests of A2A never become calls.\<close>

lemma a2a_lifecycle_refused:
  assumes "jget w ''method'' \<in> {JStr ''tasks/cancel'', JStr ''tasks/resubscribe'', JStr ''tasks/get''}"
  shows "\<exists>e. a2a_to_call fresh (JObj w) = Inl e"
  using assms by (auto simp: a2a_to_call_def require_mapping_def a2a_method_check_def)

text \<open>A second named tool in one A2A task is refused, whatever comes between.\<close>

lemma a2a_part_keeps_name:
  "a2a_part (capability, arguments, text) p = Inr (capability', rest) \<Longrightarrow> truthy capability \<Longrightarrow> capability' = capability"
  by (auto simp: a2a_part_def bindE_Inr_iff Let_def py_or_def split: if_splits)

section \<open>Properties of the adapters\<close>

definition demo_registry :: registry_map where
  "demo_registry = [(''mcp'', mcp_adapter), (''a2a'', a2a_adapter), (''gemini'', gemini_adapter)]"

definition demo_call :: json where
  "demo_call = JObj [(''name'', JStr ''pay''), (''args'', JObj [(''amount'', JInt 5)]), (''id'', JStr ''7'')]"

text \<open>A lifecycle request of A2A (cancel, resubscribe, get) never becomes a tool call: it is refused before
  anything is translated.\<close>

theorem lifecycle_request_refused:
  assumes "jget w ''method'' \<in> {JStr ''tasks/cancel'', JStr ''tasks/resubscribe'', JStr ''tasks/get''}"
    and "map_of reg ''a2a'' = Some a2a_adapter"
  shows "\<exists>e. translate_call reg i0 i1 i2 (JObj w) ''a2a'' dst = Inl e"
proof -
  from a2a_lifecycle_refused [OF assms(1), of i0] obtain e where "a2a_to_call i0 (JObj w) = Inl e" by blast
  then show ?thesis using assms(2) by (simp add: translate_call_def reg_get_def a2a_adapter_def bindE_def)
qed

theorem lifecycle_request_refused_witness:
  "\<exists>e. translate_call demo_registry ''i'' ''j'' ''k'' (JObj [(''method'', JStr ''tasks/cancel'')]) ''a2a'' ''mcp'' = Inl e"
proof -
  have "map_of demo_registry ''a2a'' = Some a2a_adapter" by (simp add: demo_registry_def)
  from lifecycle_request_refused [OF _ this, of "[(''method'', JStr ''tasks/cancel'')]" "''i''" "''j''" "''k''" "''mcp''"]
  show ?thesis by simp
qed

end
