(* ===== verification/Text_Adapters.thy ===== *)
theory Text_Adapters
  imports Adapters Py_FloatText
begin

text \<open>
  The adapters whose wire forms carry JSON text: OpenAI function calling, ACP and AGNTCY
  (\<^verbatim>\<open>src/protocols/openai_fc.py\<close>, \<^verbatim>\<open>acp.py\<close>, \<^verbatim>\<open>agntcy_acp.py\<close>), and the registry of all six protocols.
  Each carries every tool call whose arguments are JSON values of Python (\<open>py_json\<close>).
\<close>

section \<open>OpenAI function calling\<close>

text \<open>\<^verbatim>\<open>json.loads(v)\<close> of a value that need not be a string; \<open>None\<close> is an exception.\<close>

definition loads_value :: "json \<Rightarrow> json option" where
  "loads_value v = (case v of JStr s \<Rightarrow> loads s | _ \<Rightarrow> None)"

definition openai_arguments :: "json \<Rightarrow> json" where
  "openai_arguments raw = (case raw of
     JStr s \<Rightarrow> (case loads s of None \<Rightarrow> JObj [] | Some v \<Rightarrow> v)
   | _ \<Rightarrow> py_or raw (JObj []))"

definition openai_to_call :: "string \<Rightarrow> json \<Rightarrow> canonical_call res" where
  "openai_to_call fresh wire =
     bindE (require_mapping wire ''openai'' ''request'') (\<lambda>w.
     bindE (as_dict (py_or (jget_or w ''function'' (JObj [])) (JObj []))) (\<lambda>fn.
     mk_call (jget_or fn ''name'' (JStr [])) (openai_arguments (jget_or fn ''arguments'' (JStr ''{}''))) JNull
       (id_or fresh (jget w ''id'') (truthy (jget w ''id''))) (Some ''openai'')))"

definition openai_from_call :: "string \<Rightarrow> string \<Rightarrow> canonical_call \<Rightarrow> json" where
  "openai_from_call i1 i2 call =
     JObj [(''id'', JStr (cc_call_id call)), (''type'', JStr ''function''),
           (''function'', JObj [(''name'', JStr (cc_capability call)),
                                (''arguments'', JStr (dumps (JObj (cc_arguments call))))])]"

definition openai_to_result :: "json \<Rightarrow> canonical_result res" where
  "openai_to_result wire =
     (let content = (case wire of JObj w \<Rightarrow> jget_or w ''content'' (JStr []) | _ \<Rightarrow> JStr [])
      in Inr (result_from_text (py_str content) False))"

definition openai_from_result :: "string \<Rightarrow> canonical_result \<Rightarrow> json res" where
  "openai_from_result i1 r = bindE (result_text r) (\<lambda>t.
     Inr (JObj [(''role'', JStr ''tool''), (''tool_call_id'', jget_or (cr_metadata r) ''tool_call_id'' (JStr [])),
                (''content'', JStr t)]))"

definition openai_adapter :: adapter where
  "openai_adapter = \<lparr>to_call = openai_to_call, from_call = openai_from_call,
                     to_result = openai_to_result, from_result = openai_from_result\<rparr>"

section \<open>ACP\<close>

definition acp_parts :: "json \<Rightarrow> json" where
  "acp_parts msg = (case msg of JObj m \<Rightarrow> jget_or m ''parts'' (JArr []) | _ \<Rightarrow> JArr [])"

definition starts_text :: "json \<Rightarrow> bool res" where
  "starts_text v = (case v of JStr s \<Rightarrow> Inr (take 5 s = ''text/'') | _ \<Rightarrow> attribute_error)"

text \<open>One part: capability, arguments and text collected so far.\<close>

definition acp_part :: "json \<times> json \<times> json \<Rightarrow> json \<Rightarrow> (json \<times> json \<times> json) res" where
  "acp_part acc part =
     (case acc of (capability, arguments, text) \<Rightarrow>
      bindE (as_dict part) (\<lambda>p.
      let ctype = jget_or p ''content_type'' (JStr []); content = jget_or p ''content'' (JStr [])
      in if ctype = JStr ''application/json''
         then Inr (case loads_value content of
                     Some (JObj data) \<Rightarrow> (jget_or data ''name'' capability, jget_or data ''arguments'' arguments, text)
                   | _ \<Rightarrow> acc)
         else bindE (starts_text ctype) (\<lambda>is_text.
              Inr (if is_text \<and> text = JNull then (capability, arguments, content) else acc))))"

definition acp_message :: "json \<times> json \<times> json \<Rightarrow> json \<Rightarrow> (json \<times> json \<times> json) res" where
  "acp_message acc msg = bindE (py_iter (acp_parts msg)) (\<lambda>parts. foldE acp_part acc parts)"

definition acp_to_call :: "string \<Rightarrow> json \<Rightarrow> canonical_call res" where
  "acp_to_call fresh wire =
     bindE (require_mapping wire ''acp'' ''request'') (\<lambda>w.
     bindE (if has_key w ''input'' then py_iter (jget w ''input'')
            else Inr (if has_key w ''parts'' then [JObj w] else [])) (\<lambda>messages.
     bindE (foldE acp_message (jget_or w ''agent_name'' (JStr []), JObj [], JNull) messages)
       (\<lambda>(capability, arguments, text).
     mk_call capability arguments text fresh (Some ''acp''))))"

definition text_shown :: "canonical_call \<Rightarrow> string option" where
  "text_shown call = (case cc_text call of Some t \<Rightarrow> if t = [] then None else Some t | None \<Rightarrow> None)"

definition acp_from_call :: "string \<Rightarrow> string \<Rightarrow> canonical_call \<Rightarrow> json" where
  "acp_from_call i1 i2 call =
     (let parts = [JObj [(''content_type'', JStr ''application/json''),
                         (''content'', JStr (dumps (JObj [(''name'', JStr (cc_capability call)),
                                                          (''arguments'', JObj (cc_arguments call))])))]]
            @ (case text_shown call of
                 None \<Rightarrow> []
               | Some t \<Rightarrow> [JObj [(''content_type'', JStr ''text/plain''), (''content'', JStr t)]])
      in JObj [(''agent_name'', JStr (if cc_capability call = [] then ''agent'' else cc_capability call)),
               (''input'', JArr [JObj [(''role'', JStr ''user''), (''parts'', JArr parts)]])])"

definition acp_part_text :: "json list \<Rightarrow> json \<Rightarrow> json list res" where
  "acp_part_text acc part = bindE (as_dict part) (\<lambda>p.
     bindE (starts_text (jget_or p ''content_type'' (JStr []))) (\<lambda>is_text.
     Inr (if is_text then acc @ [jget_or p ''content'' (JStr [])] else acc)))"

definition acp_to_result :: "json \<Rightarrow> canonical_result res" where
  "acp_to_result wire =
     bindE (case wire of
              JObj w \<Rightarrow> if has_key w ''output'' then py_iter (jget w ''output'')
                        else Inr (if has_key w ''parts'' then [JObj w] else [])
            | _ \<Rightarrow> Inr []) (\<lambda>messages.
     bindE (foldE (\<lambda>acc msg. bindE (py_iter (acp_parts msg)) (foldE acp_part_text acc)) [] messages) (\<lambda>texts.
     bindE (join_text '' '' texts) (\<lambda>t. Inr (result_from_text t False))))"

definition acp_from_result :: "string \<Rightarrow> canonical_result \<Rightarrow> json res" where
  "acp_from_result i1 r = bindE (result_text r) (\<lambda>t.
     Inr (JObj [(''role'', JStr ''agent''),
                (''parts'', JArr [JObj [(''content_type'', JStr ''text/plain''), (''content'', JStr t)]])]))"

definition acp_adapter :: adapter where
  "acp_adapter = \<lparr>to_call = acp_to_call, from_call = acp_from_call,
                  to_result = acp_to_result, from_result = acp_from_result\<rparr>"

section \<open>AGNTCY\<close>

definition agntcy_messages :: "json \<Rightarrow> json" where
  "agntcy_messages wire = (case wire of
     JObj w \<Rightarrow>
       (case jget_or w ''input'' (JObj []) of
          JObj inp \<Rightarrow> if has_key inp ''messages'' then jget inp ''messages''
                      else if has_key w ''messages'' then jget w ''messages''
                      else if has_key w ''role'' then JArr [wire] else JArr []
        | _ \<Rightarrow> if has_key w ''messages'' then jget w ''messages''
               else if has_key w ''role'' then JArr [wire] else JArr [])
   | _ \<Rightarrow> JArr [])"

definition agntcy_text_of :: "json \<Rightarrow> json" where
  "agntcy_text_of content = (case content of
     JObj d \<Rightarrow> jget_or d ''text'' (JStr []) | JStr s \<Rightarrow> JStr s | _ \<Rightarrow> JStr [])"

definition agntcy_message :: "json \<times> json \<times> json \<Rightarrow> json \<Rightarrow> (json \<times> json \<times> json) res" where
  "agntcy_message acc msg =
     (case acc of (capability, arguments, text) \<Rightarrow>
      bindE (as_dict msg) (\<lambda>m.
      let raw = agntcy_text_of (jget m ''content'');
          prose = (if truthy raw \<and> text = JNull then (capability, arguments, raw) else acc)
      in Inr (case loads_value raw of
                Some (JObj data) \<Rightarrow>
                  if has_key data ''name''
                  then (jget_or data ''name'' capability, jget_or data ''arguments'' arguments, text) else prose
              | _ \<Rightarrow> prose)))"

definition agntcy_to_call :: "string \<Rightarrow> json \<Rightarrow> canonical_call res" where
  "agntcy_to_call fresh wire =
     bindE (require_mapping wire ''agntcy'' ''request'') (\<lambda>w.
     bindE (py_iter (agntcy_messages wire)) (\<lambda>messages.
     bindE (foldE agntcy_message (jget_or w ''agent_id'' (JStr []), JObj [], JNull) messages)
       (\<lambda>(capability, arguments, text).
     mk_call capability arguments text fresh (Some ''agntcy''))))"

definition agntcy_from_call :: "string \<Rightarrow> string \<Rightarrow> canonical_call \<Rightarrow> json" where
  "agntcy_from_call i1 i2 call =
     (let block = JObj [(''type'', JStr ''text''),
                        (''text'', JStr (dumps (JObj [(''name'', JStr (cc_capability call)),
                                                      (''arguments'', JObj (cc_arguments call))])))]
      in JObj [(''agent_id'', JStr (if cc_capability call = [] then ''agent'' else cc_capability call)),
               (''input'', JObj [(''messages'', JArr [JObj [(''role'', JStr ''user''), (''content'', block)]])])])"

definition agntcy_to_result :: "json \<Rightarrow> canonical_result res" where
  "agntcy_to_result wire =
     (let own = agntcy_messages wire;
          msgs = (if truthy own then own
                  else case wire of JObj w \<Rightarrow> if has_key w ''content'' then JArr [wire] else JArr [] | _ \<Rightarrow> JArr [])
      in bindE (py_iter msgs) (\<lambda>ms.
         bindE (foldE (\<lambda>acc m. bindE (as_dict m) (\<lambda>d. Inr (acc @ [agntcy_text_of (jget d ''content'')]))) [] ms) (\<lambda>texts.
         bindE (join_text '' '' (filter truthy texts)) (\<lambda>t. Inr (result_from_text t False)))))"

definition agntcy_from_result :: "string \<Rightarrow> canonical_result \<Rightarrow> json res" where
  "agntcy_from_result i1 r = bindE (result_text r) (\<lambda>t.
     Inr (JObj [(''role'', JStr ''assistant''),
                (''content'', JObj [(''type'', JStr ''text''), (''text'', JStr t)])]))"

definition agntcy_adapter :: adapter where
  "agntcy_adapter = \<lparr>to_call = agntcy_to_call, from_call = agntcy_from_call,
                     to_result = agntcy_to_result, from_result = agntcy_from_result\<rparr>"

section \<open>The built-in registry\<close>

definition default_registry :: registry_map where
  "default_registry =
     foldl (\<lambda>reg (name, a). reg_register name a reg) []
       [(''mcp'', mcp_adapter), (''a2a'', a2a_adapter), (''acp'', acp_adapter), (''openai'', openai_adapter),
        (''gemini'', gemini_adapter), (''agntcy'', agntcy_adapter)]"

section \<open>Calls survive the text\<close>

definition text_ok :: "(string \<times> json) list \<Rightarrow> bool" where
  "text_ok args \<longleftrightarrow> py_json (JObj args)"

lemma text_ok_json: "text_ok args \<Longrightarrow> json_ok (JObj args)"
  unfolding text_ok_def by (rule py_json_ok)

lemma loads_named_call:
  assumes "text_ok args"
  shows "loads (dumps (JObj [(''name'', JStr cap), (''arguments'', JObj args)]))
    = Some (JObj [(''name'', JStr cap), (''arguments'', JObj args)])"
  using text_ok_json [OF assms] by (intro loads_dumps) simp

lemma openai_carries: "carries text_ok openai_adapter"
  by (auto simp: carries_def openai_adapter_def openai_to_call_def openai_from_call_def require_mapping_def
      openai_arguments_def as_dict_def py_or_def mk_call_def loads_dumps [OF text_ok_json])

lemma acp_carries: "carries text_ok acp_adapter"
  by (auto simp: carries_def acp_adapter_def acp_to_call_def acp_from_call_def require_mapping_def has_key_def
      acp_message_def acp_parts_def acp_part_def loads_value_def loads_named_call as_dict_def starts_text_def
      mk_call_def Let_def text_shown_def split: option.splits)

lemma agntcy_carries: "carries text_ok agntcy_adapter"
  by (auto simp: carries_def agntcy_adapter_def agntcy_to_call_def agntcy_from_call_def require_mapping_def has_key_def
      agntcy_messages_def agntcy_message_def agntcy_text_of_def loads_value_def loads_named_call as_dict_def
      mk_call_def Let_def)

interpretation openai: faithful_adapter text_ok openai_adapter
  by unfold_locales (rule openai_carries)

interpretation acp: faithful_adapter text_ok acp_adapter
  by unfold_locales (rule acp_carries)

interpretation agntcy: faithful_adapter text_ok agntcy_adapter
  by unfold_locales (rule agntcy_carries)

section \<open>Property of the registry\<close>

lemma default_adapters:
  "map_of default_registry p = Some b \<Longrightarrow>
     b \<in> {mcp_adapter, a2a_adapter, gemini_adapter, openai_adapter, acp_adapter, agntcy_adapter}"
  by (auto simp: default_registry_def reg_register_def split: if_splits)

lemma default_carries:
  assumes "map_of default_registry p = Some b" shows "carries text_ok b"
proof -
  have "carries (\<lambda>_. True) b \<Longrightarrow> carries text_ok b" for b by (simp add: carries_def)
  then show ?thesis
    using default_adapters [OF assms] mcp_carries a2a_carries gemini_carries openai_carries acp_carries agntcy_carries
    by blast
qed

text \<open>C33: Between any two of the six built-in protocols, a named tool call whose arguments are JSON values is
  translated, and the receiver reads the capability and the arguments the sender wrote.\<close>

theorem translated_call_survives:
  assumes "map_of default_registry src = Some a" and "map_of default_registry dst = Some b"
    and "to_call a i0 wire = Inr c" and "cc_capability c \<noteq> []" and "py_json (JObj (cc_arguments c))"
  shows "\<exists>out c'. translate_call default_registry i0 i1 i2 wire src dst = Inr out \<and> to_call b j out = Inr c'
    \<and> cc_capability c' = cc_capability c \<and> cc_arguments c' = cc_arguments c"
proof -
  have "translate_call default_registry i0 i1 i2 wire src dst = Inr (from_call b i1 i2 c)"
    using assms(1-4) by (simp add: translate_call_def reg_get_def empty_call_def)
  with default_carries [OF assms(2)] assms(4,5) show ?thesis by (auto simp: carries_def text_ok_def)
qed

definition demo_args :: "(string \<times> json) list" where
  "demo_args = [(''amount'', JInt 5), (''rate'', JFloat (Fin (1 / 4))), (''tags'', JArr [JStr ''x'', JNull])]"

lemma demo_args_py: "py_json (JObj demo_args)"
proof -
  have "fl (1 / 4) = 1 / 4" "\<bar>1 / 4\<bar> < float_max" by code_simp+
  then show ?thesis by (simp add: demo_args_def double_def)
qed

theorem translated_call_survives_witness:
  "\<exists>out c'. translate_call default_registry ''i0'' ''i1'' ''i2''
       (JObj [(''name'', JStr ''pay''), (''args'', JObj demo_args), (''id'', JStr ''7'')]) ''gemini'' ''openai'' = Inr out
     \<and> openai_to_call ''j'' out = Inr c' \<and> cc_capability c' = ''pay'' \<and> cc_arguments c' = demo_args"
proof -
  let ?w = "JObj [(''name'', JStr ''pay''), (''args'', JObj demo_args), (''id'', JStr ''7'')]"
  have m: "map_of default_registry ''gemini'' = Some gemini_adapter" "map_of default_registry ''openai'' = Some openai_adapter"
    by (simp_all add: default_registry_def reg_register_def)
  have "\<exists>c. to_call gemini_adapter ''i0'' ?w = Inr c \<and> cc_capability c = ''pay'' \<and> cc_arguments c = demo_args"
    by (simp add: gemini_adapter_def gemini_to_call_def require_mapping_def mk_call_def py_or_def id_or_def bindE_def demo_args_def)
  then obtain c where c: "to_call gemini_adapter ''i0'' ?w = Inr c" "cc_capability c = ''pay''" "cc_arguments c = demo_args" by blast
  have ok: "cc_capability c \<noteq> []" "py_json (JObj (cc_arguments c))" using demo_args_py by (simp_all add: c)
  from translated_call_survives [OF m c(1) ok, of "''i1''" "''i2''" "''j''"] c(2,3) show ?thesis
    by (simp add: openai_adapter_def)
qed

end
