(* ===== verification/Durable_Tasks.thy ===== *)
theory Durable_Tasks
  imports Sql_Store Task_Lifecycle Py_JsonText
begin

text \<open>
  \<^verbatim>\<open>src/protocols/durable_task_lifecycle.py\<close>: owner-scoped task snapshots and their append-only
  status events in the SQL database, with limits on active tasks, events per task, retained tasks
  and retained event bytes.

  A snapshot is stored as its canonical JSON text (\<open>encode_task\<close>, \<open>decode_task\<close>).  Arguments the
  code checks at run time are \<open>json\<close>.  \<open>ts_guard\<close> says which insert triggers the store carries:
  none for a store without tenants, otherwise those of SQLite or of PostgreSQL.  A policy table
  exists exactly if it has its row.

  Shown: every operation keeps the invariant \<open>tasks_inv\<close> (the history of a task is a run of the
  lifecycle, its snapshot is the last event, the byte account stays within the policy); a task
  that has not terminated can always be cancelled, however full the tables are; pages of events
  continue each other; the triggers never refuse what the service has admitted.
\<close>

section \<open>Stored form\<close>

definition task_json :: "task \<Rightarrow> json" where
  "task_json t = JObj [(''task_id'', JStr (task_id t)), (''context_id'', JStr (context_id t)),
     (''source_protocol'', JStr (source_protocol t)), (''state'', JStr (state_value (tstate t))),
     (''sequence'', JInt (tsequence t))]"

definition encode_task :: "task \<Rightarrow> string" where
  "encode_task t = dumps_compact (task_json t)"

definition task_fields :: "string list" where
  "task_fields = [''task_id'', ''context_id'', ''source_protocol'', ''state'', ''sequence'']"

definition decode_task :: "string \<Rightarrow> task res" where
  "decode_task raw =
     (case loads raw of
        None \<Rightarrow> Inl (Exn ValueError ''JSONDecodeError'')
      | Some (JObj d) \<Rightarrow>
          (case map_of d ''state'' of
             None \<Rightarrow> Inl (Exn KeyError ''state'')
           | Some v \<Rightarrow>
               (case (case v of JStr x \<Rightarrow> state_of_value x | _ \<Rightarrow> None) of
                  None \<Rightarrow> Inl (Exn ValueError ''not a valid TaskState'')
                | Some st \<Rightarrow>
                    if \<not> set (map fst d) \<subseteq> set task_fields
                       \<or> \<not> {''task_id'', ''context_id'', ''source_protocol''} \<subseteq> set (map fst d)
                    then Inl (Exn TypeError ''TaskLifecycle arguments'')
                    else mk_task (jget d ''task_id'') (jget d ''context_id'') (jget d ''source_protocol'') st
                           (jget_or d ''sequence'' (JInt 0))))
      | _ \<Rightarrow> Inl (Exn TypeError ''snapshot is not an object''))"

section \<open>Limits\<close>

datatype insert_guard = NoGuard | SqliteGuard | PgGuard

record task_service =
  ts_max_active :: int
  ts_max_events :: int
  ts_guard :: insert_guard

definition history_policy :: "db \<Rightarrow> int res" where
  "history_policy s =
     (case (t_task_history s, t_task_history_meta s) of
        (Some (version, max_tasks), Some meta) \<Rightarrow>
          if meta \<noteq> 1 \<or> version \<noteq> 1 \<or> \<not> (1 \<le> max_tasks \<and> max_tasks \<le> 1000000)
          then Inl (Exn LifecycleCapacity ''missing or unsupported historical-task capacity policy'')
          else Inr max_tasks
      | _ \<Rightarrow> Inl (Exn LifecycleCapacity ''missing or unsupported historical-task capacity policy''))"

definition history_count :: "db \<Rightarrow> int" where
  "history_count s = int (length (t_task_snaps s))"

definition validate_event_limit :: "json \<Rightarrow> int res" where
  "validate_event_limit v =
     (case v of
        JInt n \<Rightarrow> if \<not> (4096 \<le> n \<and> n \<le> 1073741824)
                  then Inl (Exn LifecycleRejected ''event-byte limit must be an integer in [4096,1073741824]'')
                  else Inr n
      | _ \<Rightarrow> Inl (Exn LifecycleRejected ''event-byte limit must be an integer in [4096,1073741824]''))"

definition event_policy :: "db \<Rightarrow> int res" where
  "event_policy s =
     (case (t_task_bytes s, t_task_bytes_meta s) of
        (Some (version, max_bytes), Some meta) \<Rightarrow>
          if meta \<noteq> 1 \<or> version \<noteq> 1
          then Inl (Exn LifecycleCapacity ''missing or unsupported event-byte capacity policy'')
          else (case validate_event_limit (JInt max_bytes) of
                  Inl _ \<Rightarrow> Inl (Exn LifecycleCapacity ''missing or unsupported event-byte capacity policy'')
                | Inr n \<Rightarrow> Inr n)
      | _ \<Rightarrow> Inl (Exn LifecycleCapacity ''missing or unsupported event-byte capacity policy''))"

text \<open>Bytes held back so that a task can still be resumed and ended.\<close>

definition event_reserve :: "task \<Rightarrow> int" where
  "event_reserve t =
     (if terminal t then 0 else if tstate t \<in> {INPUT_REQUIRED, AUTH_REQUIRED} then 4096 else 8192)"

text \<open>The same in SQL, from the stored row: \<^verbatim>\<open>json_extract(snapshot,'$.state')\<close>.\<close>

definition raw_state :: "string \<Rightarrow> string" where
  "raw_state raw = (case loads raw of
     Some (JObj d) \<Rightarrow> (case jget d ''state'' of JStr v \<Rightarrow> v | _ \<Rightarrow> []) | _ \<Rightarrow> [])"

definition row_reserve :: "string \<times> bool \<Rightarrow> int" where
  "row_reserve row = (case row of (raw, term) \<Rightarrow>
     if term then 0 else if raw_state raw \<in> {''input-required'', ''auth-required''} then 4096 else 8192)"

definition raw_size :: "string \<Rightarrow> int" where
  "raw_size raw = int (length (encode raw))"

definition event_usage :: "db \<Rightarrow> int \<times> int" where
  "event_usage s = (sum_list (map (\<lambda>(k, raw). raw_size raw) (t_task_events s)),
                    sum_list (map (\<lambda>(k, row). row_reserve row) (t_task_snaps s)))"

definition check_event_append :: "string \<Rightarrow> int \<Rightarrow> db \<Rightarrow> unit res" where
  "check_event_append raw reserve_delta s =
     (let size = raw_size raw; (used, held) = event_usage s in
      if size > 4096
      then Inl (Exn LifecycleRejected ''canonical task event exceeds reserved terminal payload bound'')
      else bindE (event_policy s) (\<lambda>cap.
        if used + size + held + reserve_delta > cap
        then Inl (Exn LifecycleCapacity ''event-byte capacity reached; recovery and terminal capacity are reserved'')
        else Inr ()))"

section \<open>Insert triggers\<close>

definition or_zero :: "int option \<Rightarrow> int" where
  "or_zero x = (case x of None \<Rightarrow> 0 | Some n \<Rightarrow> n)"

text \<open>The conditions under which the history trigger refuses a new snapshot row.\<close>

definition history_trigger :: "insert_guard \<Rightarrow> db \<Rightarrow> bool" where
  "history_trigger g s =
     (case g of
        NoGuard \<Rightarrow> False
      | SqliteGuard \<Rightarrow>
          or_zero (t_task_history_meta s) \<noteq> 1 \<or> or_zero (map_option fst (t_task_history s)) \<noteq> 1
          \<or> or_zero (map_option snd (t_task_history s)) < 1
          \<or> history_count s \<ge> or_zero (map_option snd (t_task_history s))
      | PgGuard \<Rightarrow>
          (case (t_task_history s, t_task_history_meta s) of
             (Some (v, cap), Some meta) \<Rightarrow>
               meta \<noteq> 1 \<or> v \<noteq> 1 \<or> cap < 1 \<or> cap > 1000000 \<or> history_count s \<ge> cap
           | _ \<Rightarrow> True))"

definition state_reserve :: "string \<Rightarrow> int" where
  "state_reserve st =
     (if st \<in> {''completed'', ''failed'', ''canceled'', ''rejected''} then 0
      else if st \<in> {''input-required'', ''auth-required''} then 4096 else 8192)"

text \<open>Those of the byte triggers, for a new row whose reservation changes the account by \<open>adjustment\<close>.\<close>

definition bytes_trigger :: "insert_guard \<Rightarrow> string \<Rightarrow> int \<Rightarrow> db \<Rightarrow> bool" where
  "bytes_trigger g raw adjustment s =
     (case g of
        NoGuard \<Rightarrow> False
      | SqliteGuard \<Rightarrow>
          or_zero (t_task_bytes_meta s) \<noteq> 1 \<or> or_zero (map_option fst (t_task_bytes s)) \<noteq> 1
          \<or> or_zero (map_option snd (t_task_bytes s)) < 4096 \<or> raw_size raw > 4096
          \<or> fst (event_usage s) + snd (event_usage s) + adjustment + raw_size raw
              > or_zero (map_option snd (t_task_bytes s))
      | PgGuard \<Rightarrow>
          (case (t_task_bytes s, t_task_bytes_meta s) of
             (Some (v, cap), Some meta) \<Rightarrow>
               meta \<noteq> 1 \<or> v \<noteq> 1 \<or> cap < 4096 \<or> cap > 1073741824 \<or> raw_size raw > 4096
               \<or> fst (event_usage s) + (snd (event_usage s) + adjustment) + raw_size raw > cap
           | _ \<Rightarrow> True))"

definition insert_snapshot :: "task_service \<Rightarrow> string \<times> string \<Rightarrow> string \<Rightarrow> (db, unit) prog" where
  "insert_snapshot svc k raw s =
     (if map_of (t_task_snaps s) k \<noteq> None
      then (Inl (Exn IntegrityError ''task_lifecycle_snapshots''), s)
      else if history_trigger (ts_guard svc) s
      then (Inl (Exn IntegrityError ''historical-task capacity reached or policy unavailable''), s)
      else if bytes_trigger (ts_guard svc) raw (row_reserve (raw, False)) s
      then (Inl (Exn IntegrityError ''event-byte capacity reached or policy unavailable''), s)
      else (Inr (), s\<lparr>t_task_snaps := t_task_snaps s @ [(k, (raw, False))]\<rparr>))"

definition insert_event :: "task_service \<Rightarrow> string \<times> string \<Rightarrow> int \<Rightarrow> string \<Rightarrow> (db, unit) prog" where
  "insert_event svc k seq raw s =
     (let prior = (case map_of (t_task_snaps s) k of None \<Rightarrow> 0 | Some row \<Rightarrow> row_reserve row) in
      if map_of (t_task_events s) (fst k, snd k, seq) \<noteq> None
      then (Inl (Exn IntegrityError ''task_lifecycle_events''), s)
      else if bytes_trigger (ts_guard svc) raw (state_reserve (raw_state raw) - prior) s
      then (Inl (Exn IntegrityError ''event-byte capacity reached or policy unavailable''), s)
      else (Inr (), s\<lparr>t_task_events := t_task_events s @ [((fst k, snd k, seq), raw)]\<rparr>))"

section \<open>Start-up\<close>

definition bootstrap_history :: "(db, unit) prog" where
  "bootstrap_history =
     bindP (getP (\<lambda>s. (t_task_history s, t_task_history_meta s))) (\<lambda>(row, meta).
     bindP (checkP ((row = None) = (meta = None)) LifecycleCapacity
              ''incomplete or unsupported historical-task capacity schema'') (\<lambda>_.
     bindP (putP (\<lambda>s. if row = None then s\<lparr>t_task_history := Some (1, 10000), t_task_history_meta := Some 1\<rparr> else s)) (\<lambda>_.
     bindP (\<lambda>s. (history_policy s, s)) (\<lambda>_. retP ()))))"

definition bootstrap_events :: "json option \<Rightarrow> (db, unit) prog" where
  "bootstrap_events initial =
     bindP (case initial of None \<Rightarrow> retP () | Some v \<Rightarrow> bindP (liftP (validate_event_limit v)) (\<lambda>_. retP ())) (\<lambda>_.
     bindP (getP (\<lambda>s. (t_task_bytes s, t_task_bytes_meta s))) (\<lambda>(row, meta).
     bindP (checkP ((row = None) = (meta = None)) LifecycleCapacity
              ''incomplete or unsupported event-byte capacity schema'') (\<lambda>_.
     bindP (putP (\<lambda>s. if row = None
              then s\<lparr>t_task_bytes := Some (1, case initial of Some (JInt n) \<Rightarrow> n | _ \<Rightarrow> 67108864), t_task_bytes_meta := Some 1\<rparr>
              else s)) (\<lambda>_.
     bindP (\<lambda>s. (event_policy s, s)) (\<lambda>cap.
     bindP (checkP (row = None \<or> initial = None \<or> initial = Some (JInt cap)) LifecycleCapacity
              ''initial event-byte limit cannot overwrite persisted policy'') (\<lambda>_.
     bindP (getP event_usage) (\<lambda>u.
     checkP (fst u + snd u \<le> cap) LifecycleCapacity
       ''existing event history requires reviewed event-byte capacity recovery'')))))))"

definition bounded_int :: "json \<Rightarrow> int \<Rightarrow> int \<Rightarrow> int option" where
  "bounded_int v lo hi = (case v of JInt n \<Rightarrow> if lo \<le> n \<and> n \<le> hi then Some n else None | _ \<Rightarrow> None)"

definition open_service :: "json \<Rightarrow> json \<Rightarrow> json option \<Rightarrow> insert_guard \<Rightarrow> (db, task_service) prog" where
  "open_service max_active max_events initial g =
     (case (bounded_int max_active 1 10000, bounded_int max_events 3 10000) of
        (Some a, Some e) \<Rightarrow>
          sql_atomic (bindP bootstrap_history (\<lambda>_.
          bindP (bootstrap_events initial) (\<lambda>_.
          retP \<lparr>ts_max_active = a, ts_max_events = e, ts_guard = g\<rparr>)))
      | _ \<Rightarrow> raiseP LifecycleRejected ''invalid bounded lifecycle capacity'')"

section \<open>Operations\<close>

definition task_scope :: "json \<Rightarrow> json \<Rightarrow> (string \<times> string) res" where
  "task_scope owner tid =
     bindE (lc_identifier owner ''authenticated owner_id'') (\<lambda>o'.
     bindE (lc_identifier tid ''task_id'') (\<lambda>t. Inr (o', t)))"

definition stored_task :: "string \<times> string \<Rightarrow> db \<Rightarrow> task res" where
  "stored_task k s = (case map_of (t_task_snaps s) k of
     None \<Rightarrow> Inl (Exn LifecycleRejected ''task unavailable for authenticated owner'')
   | Some (raw, term) \<Rightarrow> decode_task raw)"

definition active_count :: "string \<Rightarrow> db \<Rightarrow> int" where
  "active_count owner s = int (length (filter (\<lambda>((o', t), (raw, term)). o' = owner \<and> \<not> term) (t_task_snaps s)))"

definition event_count :: "string \<times> string \<Rightarrow> db \<Rightarrow> int" where
  "event_count k s = int (length (filter (\<lambda>((o', t, q), raw). (o', t) = k) (t_task_events s)))"

definition create_body :: "task_service \<Rightarrow> string \<times> string \<Rightarrow> task \<Rightarrow> (db, task) prog" where
  "create_body svc k task =
     bindP (getP (\<lambda>s. map_of (t_task_snaps s) k)) (\<lambda>row.
     bindP (checkP (row = None) LifecycleRejected ''task identity already exists; no replay or replacement'') (\<lambda>_.
     bindP (\<lambda>s. (history_policy s, s)) (\<lambda>max_tasks.
     bindP (getP history_count) (\<lambda>n.
     bindP (checkP (n < max_tasks) LifecycleCapacity
              ''historical-task capacity reached; reviewed capacity increase required'') (\<lambda>_.
     bindP (getP (active_count (fst k))) (\<lambda>active.
     bindP (checkP (active < ts_max_active svc) LifecycleCapacity
              ''active-task capacity reached; retry after terminal status'') (\<lambda>_.
     bindP (\<lambda>s. (check_event_append (encode_task task) (event_reserve task) s, s)) (\<lambda>_.
     bindP (insert_snapshot svc k (encode_task task)) (\<lambda>_.
     bindP (insert_event svc k 0 (encode_task task)) (\<lambda>_.
     retP task))))))))))"

definition dt_create :: "task_service \<Rightarrow> json \<Rightarrow> task option \<Rightarrow> (db, task) prog" where
  "dt_create svc owner task_arg =
     (case task_arg of
        None \<Rightarrow> raiseP LifecycleRejected ''new task must start submitted at sequence zero''
      | Some task \<Rightarrow>
          if tstate task \<noteq> SUBMITTED \<or> tsequence task \<noteq> 0
          then raiseP LifecycleRejected ''new task must start submitted at sequence zero''
          else bindP (liftP (task_scope owner (JStr (task_id task)))) (\<lambda>k. sql_atomic (create_body svc k task)))"

definition dt_get :: "json \<Rightarrow> json \<Rightarrow> (db, task) prog" where
  "dt_get owner tid = bindP (liftP (task_scope owner tid)) (\<lambda>k. sql_atomic (\<lambda>s. (stored_task k s, s)))"

definition transition_body :: "task_service \<Rightarrow> string \<times> string \<Rightarrow> task_state option \<Rightarrow> int \<Rightarrow> (db, task) prog" where
  "transition_body svc k new_state n =
     bindP (\<lambda>s. (stored_task k s, s)) (\<lambda>current.
     bindP (checkP (tsequence current = n) LifecycleRejected ''stale lifecycle sequence; reload before updating'') (\<lambda>_.
     bindP (liftP (transition current new_state (JInt (tsequence current + 1)))) (\<lambda>updated.
     bindP (getP (event_count k)) (\<lambda>count.
     bindP (checkP (\<not> (count \<ge> ts_max_events svc \<or> (\<not> terminal updated \<and> count \<ge> ts_max_events svc - 1)))
              LifecycleCapacity ''task event capacity reached; terminal update required'') (\<lambda>_.
     bindP (\<lambda>s. (check_event_append (encode_task updated) (event_reserve updated - event_reserve current) s, s)) (\<lambda>_.
     bindP (insert_event svc k (tsequence updated) (encode_task updated)) (\<lambda>_.
     bindP (putP (\<lambda>s. s\<lparr>t_task_snaps := AList.update k (encode_task updated, terminal updated) (t_task_snaps s)\<rparr>)) (\<lambda>_.
     retP updated))))))))"

definition dt_transition :: "task_service \<Rightarrow> json \<Rightarrow> json \<Rightarrow> task_state option \<Rightarrow> json \<Rightarrow> (db, task) prog" where
  "dt_transition svc owner tid new_state expected =
     bindP (liftP (task_scope owner tid)) (\<lambda>k.
     case bounded_int expected 0 (2 ^ 63 - 2) of
       None \<Rightarrow> raiseP LifecycleRejected ''invalid expected lifecycle sequence''
     | Some n \<Rightarrow> sql_atomic (transition_body svc k new_state n))"

definition dt_cancel :: "task_service \<Rightarrow> json \<Rightarrow> json \<Rightarrow> json \<Rightarrow> (db, task) prog" where
  "dt_cancel svc owner tid expected = dt_transition svc owner tid (Some CANCELED) expected"

fun decode_all :: "string list \<Rightarrow> task list res" where
  "decode_all [] = Inr []"
| "decode_all (r # rs) = bindE (decode_task r) (\<lambda>t. bindE (decode_all rs) (\<lambda>ts. Inr (t # ts)))"

definition event_rows :: "string \<times> string \<Rightarrow> int \<Rightarrow> db \<Rightarrow> string list" where
  "event_rows k after s =
     map snd (sort_key (\<lambda>((o', t, q), raw). q) (filter (\<lambda>((o', t, q), raw). (o', t) = k \<and> q > after) (t_task_events s)))"

definition dt_events :: "json \<Rightarrow> json \<Rightarrow> json \<Rightarrow> json \<Rightarrow> (db, task list) prog" where
  "dt_events owner tid after limit =
     bindP (liftP (task_scope owner tid)) (\<lambda>k.
     case bounded_int after (-1) (2 ^ 63 - 1) of
       None \<Rightarrow> raiseP LifecycleRejected ''invalid recovery cursor''
     | Some a \<Rightarrow>
       (case bounded_int limit 1 100 of
          None \<Rightarrow> raiseP LifecycleRejected ''event page limit must be in [1,100]''
        | Some l \<Rightarrow> sql_atomic (
            bindP (\<lambda>s. (stored_task k s, s)) (\<lambda>current.
            bindP (checkP (a \<le> tsequence current) LifecycleRejected ''recovery cursor is ahead of durable history'') (\<lambda>_.
            \<lambda>s. (decode_all (take (nat l) (event_rows k a s)), s))))))"

text \<open>
  The polling iterator.  Every poll reads a page and, when the page is empty, the snapshot; between
  these reads other workers may write, so the databases they see are arguments: a list of pairs,
  one pair per poll.  The result is what has been yielded and whether the iterator has ended.
\<close>

fun until_terminal :: "task list \<Rightarrow> task list \<times> bool" where
  "until_terminal [] = ([], False)"
| "until_terminal (t # ts) = (if terminal t then ([t], True) else let (ys, b) = until_terminal ts in (t # ys, b))"

fun watch :: "json \<Rightarrow> json \<Rightarrow> int \<Rightarrow> json \<Rightarrow> (db \<times> db) list \<Rightarrow> (task list \<times> bool) res" where
  "watch owner tid cursor page_size [] = Inr ([], False)"
| "watch owner tid cursor page_size ((s1, s2) # polls) =
     bindE (fst (dt_events owner tid (JInt cursor) page_size s1)) (\<lambda>page.
       if page = []
       then bindE (fst (dt_get owner tid s2)) (\<lambda>task.
            if terminal task then Inr ([], True) else watch owner tid cursor page_size polls)
       else case until_terminal page of
              (out, True) \<Rightarrow> Inr (out, True)
            | (out, False) \<Rightarrow>
                bindE (watch owner tid (tsequence (last page)) page_size polls) (\<lambda>(more, b). Inr (out @ more, b)))"

definition history_capacity :: "(db, int \<times> int) prog" where
  "history_capacity = sql_atomic (\<lambda>s. (bindE (history_policy s) (\<lambda>m. Inr (m, history_count s)), s))"

definition set_history_capacity :: "json \<Rightarrow> (db, unit) prog option \<Rightarrow> (db, unit) prog" where
  "set_history_capacity max_tasks audit =
     (case bounded_int max_tasks 1 1000000 of
        None \<Rightarrow> raiseP LifecycleRejected ''bounded historical-task capacity required''
      | Some n \<Rightarrow> sql_atomic (
          bindP (\<lambda>s. (history_policy s, s)) (\<lambda>_.
          bindP (getP history_count) (\<lambda>used.
          bindP (checkP (used \<le> n) LifecycleCapacity ''capacity cannot discard retained task history'') (\<lambda>_.
          bindP (putP (\<lambda>s. s\<lparr>t_task_history := map_option (\<lambda>(v, m). (v, n)) (t_task_history s)\<rparr>)) (\<lambda>_.
          case audit of None \<Rightarrow> retP () | Some a \<Rightarrow> a))))))"

definition event_capacity :: "(db, int \<times> int \<times> int) prog" where
  "event_capacity = sql_atomic (\<lambda>s. (bindE (event_policy s) (\<lambda>m. Inr (m, event_usage s)), s))"

definition set_event_capacity :: "json \<Rightarrow> (db, unit) prog option \<Rightarrow> (db, unit) prog" where
  "set_event_capacity max_bytes audit =
     bindP (liftP (validate_event_limit max_bytes)) (\<lambda>n.
     sql_atomic (
       bindP (\<lambda>s. (event_policy s, s)) (\<lambda>_.
       bindP (getP event_usage) (\<lambda>u.
       bindP (checkP (fst u + snd u \<le> n) LifecycleCapacity
                ''event-byte capacity cannot discard history or control reservations'') (\<lambda>_.
       bindP (putP (\<lambda>s. s\<lparr>t_task_bytes := map_option (\<lambda>(v, m). (v, n)) (t_task_bytes s)\<rparr>)) (\<lambda>_.
       case audit of None \<Rightarrow> retP () | Some a \<Rightarrow> a))))))"

section \<open>The stored text\<close>

lemma sort_task_json:
  "sort_json (task_json t) = JObj [(''context_id'', JStr (context_id t)), (''sequence'', JInt (tsequence t)),
     (''source_protocol'', JStr (source_protocol t)), (''state'', JStr (state_value (tstate t))), (''task_id'', JStr (task_id t))]"
  by (simp add: task_json_def)

lemma loads_encode_task: "loads (encode_task t) = Some (sort_json (task_json t))"
  unfolding encode_task_def by (rule loads_dumps_compact) (simp add: task_json_def)

lemma strip_protocols: "py_strip ''a2a'' = ''a2a''" "py_strip ''agentbridge'' = ''agentbridge''"
  by (simp_all add: py_strip_def py_space_def)

lemma mk_task_wf_ok:
  "task_wf t \<Longrightarrow> mk_task (JStr (task_id t)) (JStr (context_id t)) (JStr (source_protocol t)) (tstate t) (JInt (tsequence t)) = Inr t"
  by (auto simp: mk_task_def task_wf_def bindE_def wf_identifier_def strip_protocols)

lemma decode_encode_task: "task_wf t \<Longrightarrow> decode_task (encode_task t) = Inr t"
  by (simp add: decode_task_def loads_encode_task sort_task_json state_of_value_roundtrip task_fields_def mk_task_wf_ok)

lemma raw_state_encode: "raw_state (encode_task t) = state_value (tstate t)"
  by (simp add: raw_state_def loads_encode_task sort_task_json)

lemma row_reserve_encode: "row_reserve (encode_task t, terminal t) = event_reserve t"
  by (cases "tstate t") (simp_all add: row_reserve_def raw_state_encode event_reserve_def terminal_def terminal_states_def)

lemma state_reserve_encode: "state_reserve (raw_state (encode_task t)) = event_reserve t"
  by (cases "tstate t") (simp_all add: state_reserve_def raw_state_encode event_reserve_def terminal_def terminal_states_def)

text \<open>The text of a task fits the bytes held back for its last event.\<close>

lemma length_nat_text: "n < 10 ^ k \<Longrightarrow> 0 < k \<Longrightarrow> length (nat_text n) \<le> k"
proof (induction k arbitrary: n)
  case (Suc k)
  show ?case
  proof (cases "n < 10")
    case True
    then show ?thesis by (subst nat_text.simps) simp
  next
    case False
    with Suc.prems have "n div 10 < 10 ^ k" "0 < k" by (auto simp: div_less_iff_less_mult mult.commute) (cases k; simp)
    from Suc.IH [OF this] False show ?thesis by (subst nat_text.simps) simp
  qed
qed simp

lemma length_json_string: "length (json_string s) \<le> 6 * length s + 2"
proof -
  have "length (json_char c) \<le> 6" for c by (simp add: json_char_def Let_def)
  then have "length (concat (map json_char s)) \<le> 6 * length s"
  proof (induction s)
    case (Cons c s)
    then have "length (json_char c) \<le> 6" "length (concat (map json_char s)) \<le> 6 * length s" by blast+
    then show ?case by simp
  qed simp
  then show ?thesis by (simp add: json_string_def)
qed

lemma length_encode: "length (encode s) \<le> 2 * length s"
proof (induction s)
  case (Cons c s)
  have "length (utf8_char c) \<le> 2" by (simp add: utf8_char_def Let_def)
  with Cons show ?case by simp
qed simp

lemma encode_task_size:
  assumes "task_wf t" and "tsequence t < 10 ^ 19"
  shows "raw_size (encode_task t) \<le> 4096"
proof -
  have "length (json_string (context_id t)) \<le> 770" "length (json_string (task_id t)) \<le> 770"
    using length_json_string [of "context_id t"] length_json_string [of "task_id t"] assms(1)
    by (auto simp: task_wf_def wf_identifier_def)
  moreover have "length (json_string (source_protocol t)) \<le> 68"
    using length_json_string [of "source_protocol t"] assms(1) by (auto simp: task_wf_def)
  moreover have "length (json_string (state_value (tstate t))) \<le> 86"
    using length_json_string [of "state_value (tstate t)"] by (cases "tstate t") auto
  moreover have "length (int_text (tsequence t)) \<le> 19"
  proof -
    have "nat (tsequence t) < 10 ^ 19" "0 \<le> tsequence t" using assms by (auto simp: task_wf_def nat_less_iff)
    with length_nat_text [of "nat (tsequence t)" 19] show ?thesis by (simp add: int_text_def)
  qed
  moreover have "length (json_string ''context_id'') = 12" "length (json_string ''sequence'') = 10" "length (json_string ''state'') = 7"
    "length (json_string ''source_protocol'') = 17" "length (json_string ''task_id'') = 9"
    by (simp_all add: json_string_def json_char_def)
  ultimately have "length (encode_task t) \<le> 1800" unfolding encode_task_def dumps_compact_def sort_task_json by simp
  with length_encode [of "encode_task t"] show ?thesis by (simp add: raw_size_def)
qed

section \<open>Sums over tables\<close>

lemma sum_update:
  fixes f :: "'v \<Rightarrow> int"
  assumes "distinct (map fst xs)" and "map_of xs k = Some v"
  shows "sum_list (map (\<lambda>(k, v). f v) (AList.update k w xs)) = sum_list (map (\<lambda>(k, v). f v) xs) - f v + f w"
  using assms
proof (induction xs)
  case (Cons p xs)
  obtain a b where p: "p = (a, b)" by (cases p)
  show ?case
  proof (cases "a = k")
    case True
    with Cons.prems p show ?thesis by simp
  next
    case False
    with Cons p show ?thesis by simp
  qed
qed simp

section \<open>What every operation keeps\<close>

definition events_of :: "string \<times> string \<Rightarrow> db \<Rightarrow> ((string \<times> string \<times> int) \<times> string) list" where
  "events_of k s = filter (\<lambda>((o', t, q), raw). (o', t) = k) (t_task_events s)"

definition run_of :: "string \<Rightarrow> task list \<Rightarrow> bool" where
  "run_of tid h \<longleftrightarrow> h \<noteq> [] \<and> tstate (hd h) = SUBMITTED \<and> (\<forall>i < length h. tsequence (h ! i) = int i \<and> task_wf (h ! i) \<and> task_id (h ! i) = tid)
     \<and> (\<forall>i. Suc i < length h \<longrightarrow> task_step (h ! i) (h ! Suc i))"

text \<open>The history of one task: a run of the lifecycle, stored event by event, with the last event as snapshot.\<close>

definition task_history :: "string \<times> string \<Rightarrow> task list \<Rightarrow> db \<Rightarrow> bool" where
  "task_history k h s \<longleftrightarrow> run_of (snd k) h
     \<and> events_of k s = map (\<lambda>t. ((fst k, snd k, tsequence t), encode_task t)) h
     \<and> map_of (t_task_snaps s) k = Some (encode_task (last h), terminal (last h))"

definition tasks_inv :: "task_service \<Rightarrow> db \<Rightarrow> bool" where
  "tasks_inv svc s \<longleftrightarrow> distinct (map fst (t_task_snaps s))
     \<and> (\<forall>k \<in> fst ` set (t_task_snaps s). wf_identifier (fst k) \<and> (\<exists>h. task_history k h s \<and> int (length h) \<le> ts_max_events svc
          \<and> (\<not> terminal (last h) \<longrightarrow> int (length h) < ts_max_events svc)))
     \<and> (\<forall>((o', t, q), raw) \<in> set (t_task_events s). (o', t) \<in> fst ` set (t_task_snaps s))
     \<and> 3 \<le> ts_max_events svc \<and> ts_max_events svc \<le> 10000
     \<and> (\<exists>cap. event_policy s = Inr cap \<and> fst (event_usage s) + snd (event_usage s) \<le> cap)
     \<and> (\<exists>m. history_policy s = Inr m \<and> history_count s \<le> m)"

lemma run_of_last: "run_of tid h \<Longrightarrow> tsequence (last h) = int (length h) - 1 \<and> task_wf (last h) \<and> task_id (last h) = tid"
  by (auto simp: run_of_def last_conv_nth Suc_le_eq of_nat_diff)

lemma run_of_snoc:
  assumes "run_of tid h" and "task_step (last h) t" and "tsequence t = tsequence (last h) + 1" and "task_wf t" "task_id t = tid"
  shows "run_of tid (h @ [t])"
proof -
  have ne: "h \<noteq> []" using assms(1) by (simp add: run_of_def)
  have n: "(h @ [t]) ! i = (if i < length h then h ! i else t)" if "i < Suc (length h)" for i
    using that by (simp add: nth_append)
  have e: "tsequence ((h @ [t]) ! i) = int i \<and> task_wf ((h @ [t]) ! i) \<and> task_id ((h @ [t]) ! i) = tid" if "i < Suc (length h)" for i
  proof (cases "i < length h")
    case True
    with assms(1) n [OF that] show ?thesis by (simp add: run_of_def)
  next
    case False
    with that have "i = length h" by simp
    with assms run_of_last [OF assms(1)] show ?thesis by simp
  qed
  have st: "task_step ((h @ [t]) ! i) ((h @ [t]) ! Suc i)" if "Suc i < Suc (length h)" for i
  proof (cases "Suc i < length h")
    case True
    with assms(1) show ?thesis by (simp add: run_of_def nth_append)
  next
    case False
    with that have "i = length h - 1" "i < length h" by simp_all
    with assms(2) ne show ?thesis by (simp add: nth_append last_conv_nth)
  qed
  from assms(1) e st ne show ?thesis by (simp add: run_of_def)
qed

lemma event_count_of: "event_count k s = int (length (events_of k s))"
  by (simp add: event_count_def events_of_def)

lemma stored_task_history:
  "task_history k h s \<Longrightarrow> stored_task k s = Inr (last h)"
  using run_of_last [of "snd k" h] by (simp add: task_history_def stored_task_def decode_encode_task)

lemma usage_insert_event:
  "event_usage (s\<lparr>t_task_events := t_task_events s @ [(q, raw)]\<rparr>) = (fst (event_usage s) + raw_size raw, snd (event_usage s))"
  by (simp add: event_usage_def)

lemma usage_insert_snapshot:
  "event_usage (s\<lparr>t_task_snaps := t_task_snaps s @ [(k, row)]\<rparr>) = (fst (event_usage s), snd (event_usage s) + row_reserve row)"
  by (simp add: event_usage_def)

lemma usage_update_snapshot:
  assumes "distinct (map fst (t_task_snaps s))" and "map_of (t_task_snaps s) k = Some row"
  shows "event_usage (s\<lparr>t_task_snaps := AList.update k row' (t_task_snaps s)\<rparr>)
    = (fst (event_usage s), snd (event_usage s) - row_reserve row + row_reserve row')"
  using sum_update [OF assms, of row_reserve row'] by (simp add: event_usage_def)

lemma policies_keep [simp]:
  "event_policy (s\<lparr>t_task_events := x\<rparr>) = event_policy s" "event_policy (s\<lparr>t_task_snaps := y\<rparr>) = event_policy s"
  "history_policy (s\<lparr>t_task_events := x\<rparr>) = history_policy s" "history_policy (s\<lparr>t_task_snaps := y\<rparr>) = history_policy s"
  "history_count (s\<lparr>t_task_events := x\<rparr>) = history_count s"
  by (simp_all add: event_policy_def history_policy_def history_count_def)

lemma check_append_ok:
  "check_event_append raw d s = Inr u \<Longrightarrow>
     raw_size raw \<le> 4096 \<and> (\<exists>cap. event_policy s = Inr cap \<and> fst (event_usage s) + raw_size raw + snd (event_usage s) + d \<le> cap)"
  by (auto simp: check_event_append_def bindE_Inr_iff Let_def split: if_splits prod.splits)

lemma check_append_iff:
  assumes "raw_size raw \<le> 4096" and "event_policy s = Inr cap"
    and "fst (event_usage s) + raw_size raw + snd (event_usage s) + d \<le> cap"
  shows "check_event_append raw d s = Inr ()"
  using assms by (auto simp: check_event_append_def Let_def split: prod.splits)

lemma task_scope_ok: "task_scope owner tid = Inr k \<longleftrightarrow> owner = JStr (fst k) \<and> tid = JStr (snd k) \<and> wf_identifier (fst k) \<and> wf_identifier (snd k)"
  by (cases k) (auto simp: task_scope_def bindE_Inr_iff lc_identifier_ok_iff)

lemma insert_snapshot_ok:
  "insert_snapshot svc k raw s = (Inr u, s') \<Longrightarrow> s' = s\<lparr>t_task_snaps := t_task_snaps s @ [(k, (raw, False))]\<rparr>"
  by (auto simp: insert_snapshot_def split: if_splits)

lemma insert_event_ok:
  "insert_event svc k q raw s = (Inr u, s') \<Longrightarrow> s' = s\<lparr>t_task_events := t_task_events s @ [((fst k, snd k, q), raw)]\<rparr>"
  by (auto simp: insert_event_def Let_def split: if_splits)

lemma atomic_state: "sql_atomic m s = (Inl e, s') \<Longrightarrow> s' = s"
  by (simp add: sql_atomic_exn_iff)

definition created :: "string \<times> string \<Rightarrow> task \<Rightarrow> db \<Rightarrow> db" where
  "created k t s = s\<lparr>t_task_snaps := t_task_snaps s @ [(k, (encode_task t, False))],
     t_task_events := t_task_events s @ [((fst k, snd k, 0), encode_task t)]\<rparr>"

definition advanced :: "string \<times> string \<Rightarrow> task \<Rightarrow> db \<Rightarrow> db" where
  "advanced k t s = s\<lparr>t_task_events := t_task_events s @ [((fst k, snd k, tsequence t), encode_task t)],
     t_task_snaps := AList.update k (encode_task t, terminal t) (t_task_snaps s)\<rparr>"

lemma dt_create_ok:
  assumes "dt_create svc owner ta s = (Inr t, s')"
  shows "\<exists>k m. ta = Some t \<and> tstate t = SUBMITTED \<and> tsequence t = 0 \<and> task_scope owner (JStr (task_id t)) = Inr k
    \<and> map_of (t_task_snaps s) k = None \<and> history_policy s = Inr m \<and> history_count s < m
    \<and> active_count (fst k) s < ts_max_active svc
    \<and> check_event_append (encode_task t) (event_reserve t) s = Inr () \<and> s' = created k t s"
proof -
  from assms obtain task k where ta: "ta = Some task" "tstate task = SUBMITTED" "tsequence task = 0"
    "task_scope owner (JStr (task_id task)) = Inr k"
    by (auto simp: dt_create_def create_body_def prog_simps split: option.splits if_splits)
  with assms obtain m s1 u where *: "map_of (t_task_snaps s) k = None" "history_policy s = Inr m" "history_count s < m"
    "active_count (fst k) s < ts_max_active svc" "check_event_append (encode_task task) (event_reserve task) s = Inr ()"
    "insert_snapshot svc k (encode_task task) s = (Inr (), s1)" "insert_event svc k 0 (encode_task task) s1 = (Inr u, s')" "t = task"
    by (auto simp: dt_create_def create_body_def prog_simps split: if_splits)
  from insert_snapshot_ok [OF *(6)] insert_event_ok [OF *(7)] have "s' = created k t s" by (simp add: created_def *(8))
  with ta * show ?thesis by blast
qed

lemma dt_create_exn: "dt_create svc owner ta s = (Inl e, s') \<Longrightarrow> s' = s"
  by (auto simp: dt_create_def create_body_def bindP_exn_iff split: option.splits if_splits dest!: atomic_state)

lemma dt_transition_ok:
  assumes "dt_transition svc owner tid ns expected s = (Inr t, s')"
  shows "\<exists>k c. task_scope owner tid = Inr k \<and> stored_task k s = Inr c \<and> expected = JInt (tsequence c)
    \<and> transition c ns (JInt (tsequence c + 1)) = Inr t
    \<and> event_count k s < ts_max_events svc \<and> (\<not> terminal t \<longrightarrow> event_count k s < ts_max_events svc - 1)
    \<and> check_event_append (encode_task t) (event_reserve t - event_reserve c) s = Inr () \<and> s' = advanced k t s"
proof -
  from assms obtain k n where k: "task_scope owner tid = Inr k" "bounded_int expected 0 (2 ^ 63 - 2) = Some n"
    by (auto simp: dt_transition_def transition_body_def prog_simps split: option.splits)
  with assms obtain c s1 where *: "stored_task k s = Inr c" "tsequence c = n" "transition c ns (JInt (tsequence c + 1)) = Inr t"
    "event_count k s < ts_max_events svc" "\<not> terminal t \<longrightarrow> event_count k s < ts_max_events svc - 1"
    "check_event_append (encode_task t) (event_reserve t - event_reserve c) s = Inr ()"
    "insert_event svc k (tsequence t) (encode_task t) s = (Inr (), s1)"
    "s' = s1\<lparr>t_task_snaps := AList.update k (encode_task t, terminal t) (t_task_snaps s1)\<rparr>"
    by (auto simp: dt_transition_def transition_body_def prog_simps split: if_splits)
  have "expected = JInt n" using k(2) by (auto simp: bounded_int_def split: json.splits if_splits)
  moreover have "s' = advanced k t s" using insert_event_ok [OF *(7)] *(8) by (simp add: advanced_def)
  ultimately show ?thesis using k(1) * by blast
qed

lemma dt_transition_exn: "dt_transition svc owner tid ns expected s = (Inl e, s') \<Longrightarrow> s' = s"
  by (auto simp: dt_transition_def transition_body_def bindP_exn_iff split: option.splits dest!: atomic_state)

lemma events_of_created:
  "events_of k' (created k t s) = events_of k' s @ (if k = k' then [((fst k, snd k, 0), encode_task t)] else [])"
  by (auto simp: events_of_def created_def)

lemma events_of_advanced:
  "events_of k' (advanced k t s) = events_of k' s @ (if k = k' then [((fst k, snd k, tsequence t), encode_task t)] else [])"
  by (auto simp: events_of_def advanced_def)

lemma snaps_created:
  "map_of (t_task_snaps s) k = None \<Longrightarrow> map_of (t_task_snaps (created k t s)) = (map_of (t_task_snaps s))(k \<mapsto> (encode_task t, False))"
  by (auto simp: created_def map_add_def fun_eq_iff split: option.splits)

lemma snaps_advanced: "map_of (t_task_snaps (advanced k t s)) = (map_of (t_task_snaps s))(k \<mapsto> (encode_task t, terminal t))"
  by (simp add: advanced_def)

lemma history_other_created:
  assumes "task_history k' h s" and "map_of (t_task_snaps s) k = None" shows "task_history k' h (created k t s)"
  using assms by (auto simp: task_history_def events_of_created snaps_created)

lemma history_created:
  assumes "map_of (t_task_snaps s) k = None" "events_of k s = []" "task_wf t" "task_id t = snd k" "tstate t = SUBMITTED" "tsequence t = 0"
  shows "task_history k [t] (created k t s)"
proof -
  have "\<not> terminal t" using assms(5) by (simp add: terminal_def terminal_states_def)
  with assms show ?thesis
    by (auto simp: task_history_def events_of_created snaps_created run_of_def)
qed

lemma no_orphans:
  assumes "tasks_inv svc s" and "map_of (t_task_snaps s) k = None" shows "events_of k s = []"
  using assms by (fastforce simp: tasks_inv_def events_of_def filter_empty_conv map_of_None_keys)

lemma created_tables:
  "t_task_snaps (created k t s) = t_task_snaps s @ [(k, (encode_task t, False))]"
  "t_task_events (created k t s) = t_task_events s @ [((fst k, snd k, 0), encode_task t)]"
  "event_policy (created k t s) = event_policy s" "history_policy (created k t s) = history_policy s"
  "history_count (created k t s) = history_count s + 1"
  "event_usage (created k t s) = (fst (event_usage s) + raw_size (encode_task t), snd (event_usage s) + row_reserve (encode_task t, False))"
  by (simp_all add: created_def event_policy_def history_policy_def history_count_def event_usage_def)

lemma inv_created:
  assumes inv: "tasks_inv svc s" and k: "map_of (t_task_snaps s) k = None" "wf_identifier (fst k)" and t: "task_wf t" "task_id t = snd k" "tstate t = SUBMITTED" "tsequence t = 0"
    and room: "history_policy s = Inr m" "history_count s < m" and fits: "check_event_append (encode_task t) (event_reserve t) s = Inr ()"
  shows "tasks_inv svc (created k t s)"
proof -
  have fresh: "k \<notin> fst ` set (t_task_snaps s)" using k(1) by (simp add: map_of_None_keys)
  have nt: "\<not> terminal t" using t(3) by (simp add: terminal_def terminal_states_def)
  have "wf_identifier (fst k') \<and> (\<exists>h. task_history k' h (created k t s) \<and> int (length h) \<le> ts_max_events svc
      \<and> (\<not> terminal (last h) \<longrightarrow> int (length h) < ts_max_events svc))"
    if "k' \<in> fst ` set (t_task_snaps (created k t s))" for k'
  proof (cases "k' = k")
    case True
    with history_created [OF k(1) no_orphans [OF inv k(1)] t] inv k(2) show ?thesis by (auto simp: tasks_inv_def intro!: exI [of _ "[t]"])
  next
    case False
    with that have "k' \<in> fst ` set (t_task_snaps s)" by (auto simp: created_tables)
    with inv history_other_created [OF _ k(1)] show ?thesis unfolding tasks_inv_def by blast
  qed
  moreover have "row_reserve (encode_task t, False) = event_reserve t" using row_reserve_encode [of t] nt by simp
  ultimately show ?thesis using inv fresh room check_append_ok [OF fits] t(4)
    by (auto simp: tasks_inv_def created_tables image_iff)
qed

lemma advanced_tables:
  assumes "map_of (t_task_snaps s) k = Some row" and "distinct (map fst (t_task_snaps s))"
  shows "fst ` set (t_task_snaps (advanced k t s)) = fst ` set (t_task_snaps s)"
    and "distinct (map fst (t_task_snaps (advanced k t s)))"
    and "t_task_events (advanced k t s) = t_task_events s @ [((fst k, snd k, tsequence t), encode_task t)]"
    and "event_policy (advanced k t s) = event_policy s" and "history_policy (advanced k t s) = history_policy s"
    and "history_count (advanced k t s) = history_count s"
    and "event_usage (advanced k t s)
      = (fst (event_usage s) + raw_size (encode_task t), snd (event_usage s) - row_reserve row + row_reserve (encode_task t, terminal t))"
proof -
  have k: "k \<in> fst ` set (t_task_snaps s)" using assms(1) by (metis map_of_None_keys option.distinct(1))
  have keys: "map fst (AList.update k v (t_task_snaps s)) = map fst (t_task_snaps s)" for v
    using k by (rule update_present_keys)
  then have "length (AList.update k v (t_task_snaps s)) = length (t_task_snaps s)" for v by (metis length_map)
  then show "history_count (advanced k t s) = history_count s" by (simp add: advanced_def history_count_def)
  show "fst ` set (t_task_snaps (advanced k t s)) = fst ` set (t_task_snaps s)"
    using k by (auto simp: advanced_def keys_update)
  show "distinct (map fst (t_task_snaps (advanced k t s)))" using assms(2) by (simp add: advanced_def)
  show "t_task_events (advanced k t s) = t_task_events s @ [((fst k, snd k, tsequence t), encode_task t)]" by (simp add: advanced_def)
  show "event_policy (advanced k t s) = event_policy s" "history_policy (advanced k t s) = history_policy s"
    by (simp_all add: advanced_def event_policy_def history_policy_def)
  show "event_usage (advanced k t s)
      = (fst (event_usage s) + raw_size (encode_task t), snd (event_usage s) - row_reserve row + row_reserve (encode_task t, terminal t))"
    using sum_update [OF assms(2,1), of row_reserve "(encode_task t, terminal t)"] by (simp add: advanced_def event_usage_def)
qed

lemma history_other_advanced:
  assumes "task_history k' h s" and "k' \<noteq> k" shows "task_history k' h (advanced k t s)"
  using assms by (auto simp: task_history_def events_of_advanced snaps_advanced)

lemma history_advanced:
  assumes "task_history k h s" and "transition (last h) ns (JInt (tsequence (last h) + 1)) = Inr t"
  shows "task_history k (h @ [t]) (advanced k t s)"
proof -
  have r: "run_of (snd k) h" using assms(1) by (simp add: task_history_def)
  note l = run_of_last [OF r]
  have "task_step (last h) t" using assms(2) by (rule task_step.intros)
  moreover have "task_wf t" using l assms(2) transition_wf by blast
  moreover have "tsequence t = tsequence (last h) + 1" "task_id t = snd k" using assms(2) l by (auto simp: transition_ok_iff)
  ultimately have "run_of (snd k) (h @ [t])" using run_of_snoc [OF r] by blast
  with assms(1) show ?thesis by (auto simp: task_history_def events_of_advanced snaps_advanced)
qed

lemma inv_advanced:
  assumes inv: "tasks_inv svc s" and c: "stored_task k s = Inr c" "transition c ns (JInt (tsequence c + 1)) = Inr t"
    and room: "event_count k s < ts_max_events svc" "\<not> terminal t \<longrightarrow> event_count k s < ts_max_events svc - 1"
    and fits: "check_event_append (encode_task t) (event_reserve t - event_reserve c) s = Inr ()"
  shows "tasks_inv svc (advanced k t s)"
proof -
  from c(1) have k: "k \<in> fst ` set (t_task_snaps s)"
    by (auto simp: stored_task_def split: option.splits) (metis map_of_SomeD fst_conv image_eqI)
  with inv obtain h where h: "task_history k h s" by (auto simp: tasks_inv_def)
  have ch: "c = last h" using stored_task_history [OF h] c(1) by simp
  have row: "map_of (t_task_snaps s) k = Some (encode_task c, terminal c)" using h ch by (simp add: task_history_def)
  have d: "distinct (map fst (t_task_snaps s))" using inv by (simp add: tasks_inv_def)
  note tab = advanced_tables [OF row d]
  have len: "event_count k s = int (length h)" using h by (simp add: event_count_of task_history_def)
  have "wf_identifier (fst k') \<and> (\<exists>g. task_history k' g (advanced k t s) \<and> int (length g) \<le> ts_max_events svc
      \<and> (\<not> terminal (last g) \<longrightarrow> int (length g) < ts_max_events svc))"
    if "k' \<in> fst ` set (t_task_snaps s)" for k'
  proof (cases "k' = k")
    case True
    with history_advanced [OF h, of ns t] c ch room len inv that show ?thesis by (auto simp: tasks_inv_def intro!: exI [of _ "h @ [t]"])
  next
    case False
    with inv that history_other_advanced [OF _ False] show ?thesis unfolding tasks_inv_def by blast
  qed
  with inv k check_append_ok [OF fits] show ?thesis
    by (auto simp: tasks_inv_def tab row_reserve_encode)
qed

section \<open>Runs of the service\<close>

definition task_tables :: "db \<Rightarrow> _" where
  "task_tables s = (t_task_snaps s, t_task_events s, t_task_history s, t_task_history_meta s, t_task_bytes s, t_task_bytes_meta s)"

lemma tasks_inv_tables: "task_tables s' = task_tables s \<Longrightarrow> tasks_inv svc s' = tasks_inv svc s"
  by (simp add: task_tables_def tasks_inv_def task_history_def events_of_def event_policy_def history_policy_def
      history_count_def event_usage_def)

definition histories_ok :: "task_service \<Rightarrow> db \<Rightarrow> bool" where
  "histories_ok svc s \<longleftrightarrow> distinct (map fst (t_task_snaps s))
     \<and> (\<forall>k \<in> fst ` set (t_task_snaps s). wf_identifier (fst k) \<and> (\<exists>h. task_history k h s \<and> int (length h) \<le> ts_max_events svc
          \<and> (\<not> terminal (last h) \<longrightarrow> int (length h) < ts_max_events svc)))
     \<and> (\<forall>((o', t, q), raw) \<in> set (t_task_events s). (o', t) \<in> fst ` set (t_task_snaps s))
     \<and> 3 \<le> ts_max_events svc \<and> ts_max_events svc \<le> 10000"

lemma tasks_inv_split:
  "tasks_inv svc s \<longleftrightarrow> histories_ok svc s \<and> (\<exists>cap. event_policy s = Inr cap \<and> fst (event_usage s) + snd (event_usage s) \<le> cap)
     \<and> (\<exists>m. history_policy s = Inr m \<and> history_count s \<le> m)"
  by (simp only: tasks_inv_def histories_ok_def conj_assoc)

lemma policy_tables [simp]:
  "histories_ok svc (s\<lparr>t_task_history := x\<rparr>) = histories_ok svc s" "histories_ok svc (s\<lparr>t_task_bytes := y\<rparr>) = histories_ok svc s"
  "event_policy (s\<lparr>t_task_history := x\<rparr>) = event_policy s" "history_policy (s\<lparr>t_task_bytes := y\<rparr>) = history_policy s"
  "history_policy (s\<lparr>t_task_bytes_meta := z\<rparr>) = history_policy s"
  "event_usage (s\<lparr>t_task_history := x\<rparr>) = event_usage s" "event_usage (s\<lparr>t_task_bytes := y\<rparr>) = event_usage s"
  "event_usage (s\<lparr>t_task_bytes_meta := z\<rparr>) = event_usage s"
  "history_count (s\<lparr>t_task_history := x\<rparr>) = history_count s" "history_count (s\<lparr>t_task_bytes := y\<rparr>) = history_count s"
  by (simp_all add: histories_ok_def task_history_def events_of_def event_policy_def history_policy_def event_usage_def history_count_def)

inductive task_db_step :: "task_service \<Rightarrow> db \<Rightarrow> db \<Rightarrow> bool" for svc where
  Create: "task_wf t \<Longrightarrow> dt_create svc owner (Some t) s = (r, s') \<Longrightarrow> task_db_step svc s s'"
| Move: "dt_transition svc owner tid ns expected s = (r, s') \<Longrightarrow> task_db_step svc s s'"
| SetHistory: "set_history_capacity m None s = (r1, s') \<Longrightarrow> task_db_step svc s s'"
| SetEvents: "set_event_capacity m None s = (r1, s') \<Longrightarrow> task_db_step svc s s'"
| Elsewhere: "task_tables s' = task_tables s \<Longrightarrow> task_db_step svc s s'"

lemma create_keeps:
  assumes "tasks_inv svc s" "task_wf t" "dt_create svc owner (Some t) s = (r, s')" shows "tasks_inv svc s'"
proof (cases r)
  case (Inl e)
  with assms dt_create_exn [of svc owner "Some t" s e s'] show ?thesis by simp
next
  case (Inr t')
  with dt_create_ok [of svc owner "Some t" s t' s'] assms obtain k m where
    "t' = t" "tstate t = SUBMITTED" "tsequence t = 0" "task_scope owner (JStr (task_id t)) = Inr k"
    "map_of (t_task_snaps s) k = None" "history_policy s = Inr m" "history_count s < m"
    "check_event_append (encode_task t) (event_reserve t) s = Inr ()" "s' = created k t s" by auto
  with inv_created [OF assms(1), of k t m] assms(2) show ?thesis by (auto simp: task_scope_ok)
qed

lemma transition_keeps:
  assumes "tasks_inv svc s" "dt_transition svc owner tid ns expected s = (r, s')" shows "tasks_inv svc s'"
proof (cases r)
  case (Inl e)
  with assms dt_transition_exn [of svc owner tid ns expected s e s'] show ?thesis by simp
next
  case (Inr t)
  with dt_transition_ok [of svc owner tid ns expected s t s'] assms obtain k c where
    "stored_task k s = Inr c" "transition c ns (JInt (tsequence c + 1)) = Inr t" "event_count k s < ts_max_events svc"
    "\<not> terminal t \<longrightarrow> event_count k s < ts_max_events svc - 1"
    "check_event_append (encode_task t) (event_reserve t - event_reserve c) s = Inr ()" "s' = advanced k t s" by auto
  with inv_advanced [OF assms(1)] show ?thesis by simp
qed

lemma set_history_keeps:
  assumes "tasks_inv svc s" "set_history_capacity m None s = (r, s')" shows "tasks_inv svc s'"
proof -
  have "s' = s \<or> (\<exists>n. 1 \<le> n \<and> n \<le> 1000000 \<and> history_count s \<le> n
      \<and> s' = s\<lparr>t_task_history := map_option (\<lambda>(v, m). (v, n)) (t_task_history s)\<rparr>)"
  proof (cases r)
    case (Inl e)
    with assms(2) show ?thesis
      by (auto simp: set_history_capacity_def bindP_exn_iff sql_atomic_exn_iff split: option.splits if_splits)
  next
    case (Inr u)
    with assms(2) show ?thesis
      by (auto simp: set_history_capacity_def prog_simps bounded_int_def split: option.splits if_splits json.splits)
  qed
  with assms(1) show ?thesis
    by (auto simp: tasks_inv_split history_policy_def split: option.splits if_splits)
qed

lemma set_events_keeps:
  assumes "tasks_inv svc s" "set_event_capacity m None s = (r, s')" shows "tasks_inv svc s'"
proof -
  have "s' = s \<or> (\<exists>n. 4096 \<le> n \<and> n \<le> 1073741824 \<and> fst (event_usage s) + snd (event_usage s) \<le> n
      \<and> s' = s\<lparr>t_task_bytes := map_option (\<lambda>(v, m). (v, n)) (t_task_bytes s)\<rparr>)"
  proof (cases r)
    case (Inl e)
    with assms(2) show ?thesis
      by (auto simp: set_event_capacity_def bindP_exn_iff sql_atomic_exn_iff)
  next
    case (Inr u)
    with assms(2) show ?thesis
      by (auto simp: set_event_capacity_def prog_simps validate_event_limit_def split: if_splits json.splits)
  qed
  with assms(1) show ?thesis
    by (auto simp: tasks_inv_split event_policy_def validate_event_limit_def split: option.splits if_splits)
qed

lemma task_db_step_inv: "task_db_step svc s s' \<Longrightarrow> tasks_inv svc s \<Longrightarrow> tasks_inv svc s'"
  by (induction rule: task_db_step.induct)
    (blast intro: create_keeps transition_keeps set_history_keeps set_events_keeps dest: tasks_inv_tables)+

lemma task_db_run_inv: "(task_db_step svc)\<^sup>*\<^sup>* s s' \<Longrightarrow> tasks_inv svc s \<Longrightarrow> tasks_inv svc s'"
  by (induction rule: rtranclp_induct) (blast intro: task_db_step_inv)+

text \<open>A service opened on a database without tasks starts in the invariant.\<close>

lemma open_service_inv:
  assumes "open_service ma me initial g s = (Inr svc, s')" and "t_task_snaps s = []" "t_task_events s = []"
  shows "tasks_inv svc s' \<and> ts_guard svc = g"
proof -
  from assms(1) obtain a e where b: "bounded_int ma 1 10000 = Some a" "bounded_int me 3 10000 = Some e"
    by (auto simp: open_service_def split: option.splits)
  with assms(1) obtain s1 where h: "bootstrap_history s = (Inr (), s1)" and ev: "bootstrap_events initial s1 = (Inr (), s')"
    and svc: "svc = \<lparr>ts_max_active = a, ts_max_events = e, ts_guard = g\<rparr>"
    by (auto simp: open_service_def prog_simps)
  from h have s1: "t_task_snaps s1 = t_task_snaps s" "t_task_events s1 = t_task_events s" "\<exists>m. history_policy s1 = Inr m"
    by (auto simp: bootstrap_history_def prog_simps split: if_splits)
  from ev have s': "t_task_snaps s' = t_task_snaps s1" "t_task_events s' = t_task_events s1" "history_policy s' = history_policy s1"
    "\<exists>cap. event_policy s' = Inr cap \<and> fst (event_usage s') + snd (event_usage s') \<le> cap"
    by (auto simp: bootstrap_events_def prog_simps split: if_splits option.splits)
  obtain m where "history_policy s1 = Inr m" using s1(3) by blast
  then have "history_policy s' = Inr m \<and> history_count s' \<le> m"
    using s' s1 assms(2) by (auto simp: history_count_def history_policy_def split: option.splits if_splits)
  moreover have "3 \<le> e" "e \<le> 10000" using b(2) by (auto simp: bounded_int_def split: json.splits if_splits)
  ultimately show ?thesis using s' s1 assms(2,3) by (auto simp: tasks_inv_split histories_ok_def svc)
qed

section \<open>Triggers, cancellation and recovery\<close>

text \<open>What the service has checked, no trigger refuses.\<close>

lemma bytes_trigger_quiet:
  assumes "check_event_append raw d s = Inr ()" shows "\<not> bytes_trigger g raw d s"
proof -
  from check_append_ok [OF assms] obtain cap where c: "raw_size raw \<le> 4096" "event_policy s = Inr cap"
    "fst (event_usage s) + raw_size raw + snd (event_usage s) + d \<le> cap" by blast
  from c(2) have "t_task_bytes s = Some (1, cap)" "t_task_bytes_meta s = Some 1" "4096 \<le> cap" "cap \<le> 1073741824"
    by (auto simp: event_policy_def validate_event_limit_def split: option.splits if_splits)
  with c(1,3) show ?thesis by (cases g) (simp_all add: bytes_trigger_def or_zero_def)
qed

lemma history_trigger_quiet:
  assumes "history_policy s = Inr m" and "history_count s < m" shows "\<not> history_trigger g s"
proof -
  from assms(1) have "t_task_history s = Some (1, m)" "t_task_history_meta s = Some 1" "1 \<le> m" "m \<le> 1000000"
    by (auto simp: history_policy_def split: option.splits if_splits)
  with assms(2) show ?thesis by (cases g) (simp_all add: history_trigger_def or_zero_def)
qed

lemma next_event_free:
  assumes "task_history k h s" and "q = int (length h)" shows "map_of (t_task_events s) (fst k, snd k, q) = None"
proof (rule ccontr)
  assume "map_of (t_task_events s) (fst k, snd k, q) \<noteq> None"
  then obtain raw where "((fst k, snd k, q), raw) \<in> set (t_task_events s)" using map_of_SomeD by fastforce
  then have "((fst k, snd k, q), raw) \<in> set (events_of k s)" by (simp add: events_of_def)
  then obtain t where "t \<in> set h" "tsequence t = q" using assms(1) by (auto simp: task_history_def)
  with assms show False by (auto simp: task_history_def run_of_def in_set_conv_nth)
qed

lemma insert_event_admitted:
  assumes "task_history k h s" and t: "tsequence t = int (length h)"
    and fits: "check_event_append (encode_task t) (event_reserve t - event_reserve (last h)) s = Inr ()"
  shows "insert_event svc k (tsequence t) (encode_task t) s
    = (Inr (), s\<lparr>t_task_events := t_task_events s @ [((fst k, snd k, tsequence t), encode_task t)]\<rparr>)"
proof -
  have "map_of (t_task_snaps s) k = Some (encode_task (last h), terminal (last h))" using assms(1) by (simp add: task_history_def)
  with next_event_free [OF assms(1) t] bytes_trigger_quiet [OF fits] show ?thesis
    by (simp add: insert_event_def row_reserve_encode state_reserve_encode)
qed

text \<open>When a transition is accepted.\<close>

lemma dt_transition_accepted:
  assumes inv: "tasks_inv svc s" and k: "wf_identifier (fst k)" "wf_identifier (snd k)" and h: "task_history k h s"
    and t: "transition (last h) ns (JInt (int (length h))) = Inr t"
    and room: "int (length h) < ts_max_events svc" "\<not> terminal t \<longrightarrow> int (length h) < ts_max_events svc - 1"
    and fits: "check_event_append (encode_task t) (event_reserve t - event_reserve (last h)) s = Inr ()"
  shows "dt_transition svc (JStr (fst k)) (JStr (snd k)) ns (JInt (int (length h) - 1)) s = (Inr t, advanced k t s)"
proof -
  have r: "run_of (snd k) h" using h by (simp add: task_history_def)
  note l = run_of_last [OF r]
  have sc: "task_scope (JStr (fst k)) (JStr (snd k)) = Inr k" using k by (simp add: task_scope_ok)
  have "1 \<le> length h" using r by (cases h) (auto simp: run_of_def)
  then have "h \<noteq> []" by auto
  with \<open>1 \<le> length h\<close> inv have "0 \<le> int (length h) - 1" "ts_max_events svc \<le> 10000" by (simp_all add: tasks_inv_def)
  then have b: "bounded_int (JInt (int (length h) - 1)) 0 (2 ^ 63 - 2) = Some (int (length h) - 1)"
    using room(1) by (simp add: bounded_int_def)
  have c: "event_count k s = int (length h)" using h by (simp add: event_count_of task_history_def)
  have ts: "tsequence t = int (length h)" using t by (auto simp: transition_ok_iff)
  note ins = insert_event_admitted [OF h ts fits]
  have nt: "terminal t \<or> \<not> ts_max_events svc - 1 \<le> int (length h)" using room(2) by auto
  show ?thesis unfolding dt_transition_def transition_body_def bindP_def sql_atomic_def
    using l t room(1) nt by (simp add: sc b [simplified] c stored_task_history [OF h] fits ins advanced_def)
qed

lemma cancel_accepted:
  assumes inv: "tasks_inv svc s" and c: "stored_task k s = Inr c" "\<not> terminal c"
  shows "dt_cancel svc (JStr (fst k)) (JStr (snd k)) (JInt (tsequence c)) s
    = (Inr (c\<lparr>tstate := CANCELED, tsequence := tsequence c + 1\<rparr>), advanced k (c\<lparr>tstate := CANCELED, tsequence := tsequence c + 1\<rparr>) s)"
proof -
  let ?t = "c\<lparr>tstate := CANCELED, tsequence := tsequence c + 1\<rparr>"
  from c(1) have k: "k \<in> fst ` set (t_task_snaps s)"
    by (auto simp: stored_task_def split: option.splits) (metis map_of_SomeD fst_conv image_eqI)
  with inv obtain h where h: "task_history k h s" "\<not> terminal (last h) \<longrightarrow> int (length h) < ts_max_events svc"
    "wf_identifier (fst k)" unfolding tasks_inv_def by blast
  have ch: "c = last h" using stored_task_history [OF h(1)] c(1) by simp
  have r: "run_of (snd k) h" using h(1) by (simp add: task_history_def)
  note l = run_of_last [OF r]
  have seq: "tsequence c = int (length h) - 1" using l ch by simp
  have nt: "tstate c \<notin> set terminal_states" using c(2) by (simp add: terminal_def)
  have tr: "transition (last h) (Some CANCELED) (JInt (int (length h))) = Inr ?t"
    using nt seq ch by (cases "tstate c") (auto simp: transition_def terminal_states_def)
  have tm: "terminal ?t" by (simp add: terminal_def terminal_states_def)
  have room: "int (length h) < ts_max_events svc" using h(2) c(2) ch by simp
  obtain cap where cap: "event_policy s = Inr cap" "fst (event_usage s) + snd (event_usage s) \<le> cap"
    using inv by (auto simp: tasks_inv_def)
  have "task_wf ?t" using l ch by (auto simp: task_wf_def)
  moreover have "tsequence ?t < 10 ^ 19" using seq room inv by (simp add: tasks_inv_def)
  ultimately have size: "raw_size (encode_task ?t) \<le> 4096" by (rule encode_task_size)
  have "event_reserve c \<ge> 4096" using c(2) by (simp add: event_reserve_def)
  moreover have "event_reserve ?t = 0" using tm by (simp add: event_reserve_def)
  ultimately have fits: "check_event_append (encode_task ?t) (event_reserve ?t - event_reserve (last h)) s = Inr ()"
    using size cap ch by (intro check_append_iff [OF size cap(1)]) simp
  have "wf_identifier (snd k)" using l by (auto simp: task_wf_def)
  from dt_transition_accepted [OF inv h(3) this h(1) tr room _ fits] tm seq show ?thesis by (simp add: dt_cancel_def)
qed

text \<open>Pages of events.\<close>

lemma sorted_filter_run:
  assumes "run_of tid h"
  shows "sort_key (\<lambda>((o', t, q), raw). q) (filter (\<lambda>((o', t, q), raw). q > a) (map (\<lambda>t. ((x, y, tsequence t), encode_task t)) h))
    = map (\<lambda>t. ((x, y, tsequence t), encode_task t)) (drop (nat (a + 1)) h)"
proof -
  let ?e = "\<lambda>t. ((x, y, tsequence t), encode_task t)"
  have seq: "\<And>i. i < length h \<Longrightarrow> tsequence (h ! i) = int i" using assms by (simp add: run_of_def)
  have "filter (\<lambda>t. tsequence t > a) h = drop (nat (a + 1)) h"
  proof -
    have "filter (\<lambda>t. tsequence t > a) (take (nat (a + 1)) h) = []"
      by (auto simp: filter_empty_conv in_set_conv_nth seq)
    moreover have "filter (\<lambda>t. tsequence t > a) (drop (nat (a + 1)) h) = drop (nat (a + 1)) h"
      by (auto simp: filter_id_conv in_set_conv_nth seq)
    ultimately show ?thesis by (metis append_Nil append_take_drop_id filter_append)
  qed
  moreover have "sorted (map (\<lambda>((o', t, q), raw). q) (map ?e (drop n h)))" for n
    by (auto simp: sorted_iff_nth_mono seq)
  ultimately show ?thesis by (simp add: filter_map o_def sort_key_id_if_sorted)
qed

lemma decode_all_encode: "list_all task_wf h \<Longrightarrow> decode_all (map encode_task h) = Inr h"
  by (induction h) (simp_all add: decode_encode_task)

lemma dt_events_page:
  assumes h: "task_history k h s" and k: "wf_identifier (fst k)" and a: "-1 \<le> a" "a < int (length h)" and l: "1 \<le> l" "l \<le> 100" "int (length h) < 2 ^ 63"
  shows "dt_events (JStr (fst k)) (JStr (snd k)) (JInt a) (JInt l) s = (Inr (take (nat l) (drop (nat (a + 1)) h)), s)"
proof -
  have r: "run_of (snd k) h" using h by (simp add: task_history_def)
  note lst = run_of_last [OF r]
  have "wf_identifier (snd k)" using lst by (auto simp: task_wf_def)
  with k have sc: "task_scope (JStr (fst k)) (JStr (snd k)) = Inr k" by (simp add: task_scope_ok)
  have b: "bounded_int (JInt a) (-1) (2 ^ 63 - 1) = Some a" "bounded_int (JInt l) 1 100 = Some l"
    using a l by (simp_all add: bounded_int_def)
  have "filter (\<lambda>((o', t, q), raw). (o', t) = k \<and> q > a) (t_task_events s) = filter (\<lambda>((o', t, q), raw). q > a) (events_of k s)"
    by (simp add: events_of_def) (rule filter_cong, auto)
  then have rows: "event_rows k a s = map encode_task (drop (nat (a + 1)) h)"
    using h sorted_filter_run [OF r, of a "fst k" "snd k"] by (simp add: event_rows_def task_history_def o_def)
  have wf: "list_all task_wf (take n (drop m h))" for n m
    using r by (auto simp: list_all_length run_of_def)
  show ?thesis unfolding dt_events_def bindP_def sql_atomic_def
    using lst a by (simp add: sc b [simplified] stored_task_history [OF h] rows take_map decode_all_encode [OF wf])
qed

text \<open>Two programs that run alike up to a point.\<close>

lemma bindP_congS: "(\<And>a s'. m s = (Inr a, s') \<Longrightarrow> f a s' = g a s') \<Longrightarrow> bindP m f s = bindP m g s"
  by (cases "m s") (auto simp: bindP_def split: sum.splits)

lemma atomic_congS: "m s = n s \<Longrightarrow> sql_atomic m s = sql_atomic n s"
  by (simp add: sql_atomic_def)

lemma insert_event_guards:
  assumes "check_event_append raw d s = Inr ()"
    and "d = state_reserve (raw_state raw) - (case map_of (t_task_snaps s) k of None \<Rightarrow> 0 | Some row \<Rightarrow> row_reserve row)"
  shows "insert_event (svc\<lparr>ts_guard := g\<rparr>) k q raw s = insert_event svc k q raw s"
  using bytes_trigger_quiet [OF assms(1)] assms(2) by (simp add: insert_event_def)

lemma transition_guards:
  assumes inv: "tasks_inv svc s"
  shows "dt_transition (svc\<lparr>ts_guard := g\<rparr>) owner tid ns expected s = dt_transition svc owner tid ns expected s"
proof -
  have body: "transition_body (svc\<lparr>ts_guard := g\<rparr>) k ns n s = transition_body svc k ns n s" for k n
  proof (cases "stored_task k s")
    case (Inl e)
    then show ?thesis by (simp add: transition_body_def bindP_def)
  next
    case (Inr c)
    then have "k \<in> fst ` set (t_task_snaps s)"
      by (auto simp: stored_task_def split: option.splits) (metis map_of_SomeD fst_conv image_eqI)
    with inv obtain h where h: "task_history k h s" unfolding tasks_inv_def by blast
    with Inr stored_task_history [OF h] have "map_of (t_task_snaps s) k = Some (encode_task c, terminal c)" by (simp add: task_history_def)
    then have ins: "insert_event (svc\<lparr>ts_guard := g\<rparr>) k q (encode_task t) s = insert_event svc k q (encode_task t) s"
      if "check_event_append (encode_task t) (event_reserve t - event_reserve c) s = Inr ()" for t q
      using that by (intro insert_event_guards) (simp_all add: row_reserve_encode state_reserve_encode)
    have mx: "ts_max_events (svc\<lparr>ts_guard := g\<rparr>) = ts_max_events svc" by simp
    show ?thesis unfolding transition_body_def mx
      by (intro bindP_congS) (auto simp: bindP_def Inr ins split: if_splits)
  qed
  show ?thesis unfolding dt_transition_def
    by (rule bindP_congS) (auto split: option.split intro: atomic_congS body)
qed

lemma create_guards:
  assumes inv: "tasks_inv svc s" and t: "task_wf t"
  shows "dt_create (svc\<lparr>ts_guard := g\<rparr>) owner (Some t) s = dt_create svc owner (Some t) s"
proof -
  have body: "create_body (svc\<lparr>ts_guard := g\<rparr>) k t s = create_body svc k t s" if nt: "\<not> terminal t" for k
  proof -
    have res: "row_reserve (encode_task t, False) = event_reserve t" using row_reserve_encode [of t] nt by simp
    have snap: "insert_snapshot (svc\<lparr>ts_guard := g\<rparr>) k (encode_task t) s = insert_snapshot svc k (encode_task t) s"
      if "check_event_append (encode_task t) (event_reserve t) s = Inr ()" "history_policy s = Inr m" "history_count s < m" for m
      using bytes_trigger_quiet [OF that(1)] history_trigger_quiet [OF that(2,3)] by (simp add: insert_snapshot_def res)
    have ev: "insert_event (svc\<lparr>ts_guard := g\<rparr>) k q (encode_task t) s1 = insert_event svc k q (encode_task t) s1"
      if "check_event_append (encode_task t) (event_reserve t) s = Inr ()" "insert_snapshot svc k (encode_task t) s = (Inr u, s1)" for u s1 q
    proof -
      have k: "map_of (t_task_snaps s) k = None" using that(2) by (cases "map_of (t_task_snaps s) k") (auto simp: insert_snapshot_def)
      have s1: "s1 = s\<lparr>t_task_snaps := t_task_snaps s @ [(k, (encode_task t, False))]\<rparr>" by (rule insert_snapshot_ok [OF that(2)])
      from check_append_ok [OF that(1)] have "check_event_append (encode_task t) 0 s1 = Inr ()"
        by (auto simp: s1 usage_insert_snapshot res intro: check_append_iff)
      then show ?thesis by (rule insert_event_guards) (simp add: s1 map_add_def k res state_reserve_encode)
    qed
    have mx: "ts_max_active (svc\<lparr>ts_guard := g\<rparr>) = ts_max_active svc" by simp
    have tail: "bindP (insert_snapshot (svc\<lparr>ts_guard := g\<rparr>) k (encode_task t)) (\<lambda>_.
          bindP (insert_event (svc\<lparr>ts_guard := g\<rparr>) k 0 (encode_task t)) (\<lambda>_. retP t)) s
        = bindP (insert_snapshot svc k (encode_task t)) (\<lambda>_. bindP (insert_event svc k 0 (encode_task t)) (\<lambda>_. retP t)) s"
      if c: "check_event_append (encode_task t) (event_reserve t) s = Inr ()" "history_policy s = Inr m" "history_count s < m" for m
    proof (cases "insert_snapshot svc k (encode_task t) s")
      case (Pair r s1)
      show ?thesis
      proof (cases r)
        case (Inr u)
        with Pair ev [OF c(1), of u s1] show ?thesis by (simp add: bindP_def snap [OF c])
      qed (simp add: Pair bindP_def snap [OF c])
    qed
    show ?thesis unfolding create_body_def mx
      by (intro bindP_congS) (auto simp: tail split: if_splits)
  qed
  show ?thesis unfolding dt_create_def
    by (auto split: option.split intro!: bindP_congS atomic_congS body simp: terminal_def terminal_states_def)
qed

section \<open>Properties of the task store\<close>


definition demo_service :: task_service where
  "demo_service = \<lparr>ts_max_active = 2, ts_max_events = 3, ts_guard = SqliteGuard\<rparr>"

definition opened_db :: db where
  "opened_db = empty_db\<lparr>t_task_history := Some (1, 10000), t_task_history_meta := Some 1,
     t_task_bytes := Some (1, 67108864), t_task_bytes_meta := Some 1\<rparr>"

lemma demo_open: "open_service (JInt 2) (JInt 3) None SqliteGuard empty_db = (Inr demo_service, opened_db)"
  by (simp add: open_service_def bounded_int_def bootstrap_history_def bootstrap_events_def history_policy_def event_policy_def
      validate_event_limit_def event_usage_def demo_service_def opened_db_def empty_db_def empty_tables_def
      gov_tables.defs sql_tables.defs)

lemma demo_no_tasks: "t_task_snaps empty_db = []" "t_task_events empty_db = []"
  by (simp_all add: empty_db_def empty_tables_def gov_tables.defs sql_tables.defs)

lemma demo_task_wf: "task_wf demo_task" "wf_identifier ''o''"
  by (simp_all add: task_wf_def wf_identifier_def demo_task_def py_strip_def py_space_def)

lemma demo_inv: "tasks_inv demo_service opened_db"
  using open_service_inv [OF demo_open demo_no_tasks] by blast

lemma demo_policies:
  "history_policy opened_db = Inr 10000" "event_policy opened_db = Inr 67108864" "event_usage opened_db = (0, 0)"
  "history_count opened_db = 0" "t_task_snaps opened_db = []" "t_task_events opened_db = []" "active_count x opened_db = 0"
  by (simp_all add: history_policy_def event_policy_def validate_event_limit_def event_usage_def history_count_def active_count_def
      opened_db_def empty_db_def empty_tables_def gov_tables.defs sql_tables.defs)

lemma demo_create: "dt_create demo_service (JStr ''o'') (Some demo_task) opened_db = (Inr demo_task, created (''o'', ''t1'') demo_task opened_db)"
proof -
  have t: "tstate demo_task = SUBMITTED" "tsequence demo_task = 0" "task_id demo_task = ''t1''" "\<not> terminal demo_task"
    by (simp_all add: demo_task_def terminal_def terminal_states_def)
  have sc: "task_scope (JStr ''o'') (JStr ''t1'') = Inr (''o'', ''t1'')"
    using demo_task_wf t by (auto simp: task_scope_ok task_wf_def)
  have size: "raw_size (encode_task demo_task) \<le> 4096" by (rule encode_task_size) (simp_all add: demo_task_wf t)
  have fits: "check_event_append (encode_task demo_task) (event_reserve demo_task) opened_db = Inr ()"
  proof (rule check_append_iff [OF size demo_policies(2)])
    have "event_reserve demo_task = 8192" using t by (simp add: event_reserve_def)
    with size show "fst (event_usage opened_db) + raw_size (encode_task demo_task) + snd (event_usage opened_db) + event_reserve demo_task \<le> 67108864"
      unfolding demo_policies by simp
  qed
  have ng: "dt_create (demo_service\<lparr>ts_guard := NoGuard\<rparr>) (JStr ''o'') (Some demo_task) opened_db
      = (Inr demo_task, created (''o'', ''t1'') demo_task opened_db)"
    unfolding dt_create_def create_body_def bindP_def sql_atomic_def insert_snapshot_def insert_event_def
    by (simp add: t sc fits demo_policies demo_service_def history_trigger_def bytes_trigger_def created_def)
  with create_guards [OF demo_inv demo_task_wf(1), of NoGuard "JStr ''o''"] show ?thesis by simp
qed


text \<open>C20: A task that has not terminated can always be cancelled, however many tasks, events and bytes the
  database holds: with the current sequence number the cancellation succeeds and is stored.\<close>

theorem unfinished_task_can_be_cancelled:
  assumes "open_service ma me initial g s0 = (Inr svc, s1)" and "t_task_snaps s0 = []" "t_task_events s0 = []"
    and "(task_db_step svc)\<^sup>*\<^sup>* s1 s" and "stored_task k s = Inr c" and "\<not> terminal c"
  shows "\<exists>t s'. dt_cancel svc (JStr (fst k)) (JStr (snd k)) (JInt (tsequence c)) s = (Inr t, s')
    \<and> tstate t = CANCELED \<and> stored_task k s' = Inr t"
proof -
  have inv: "tasks_inv svc s" using task_db_run_inv [OF assms(4)] open_service_inv [OF assms(1-3)] by blast
  let ?t = "c\<lparr>tstate := CANCELED, tsequence := tsequence c + 1\<rparr>"
  note c = cancel_accepted [OF inv assms(5,6)]
  have "k \<in> fst ` set (t_task_snaps s)"
    using assms(5) by (auto simp: stored_task_def split: option.splits) (metis map_of_SomeD fst_conv image_eqI)
  with inv obtain h where h: "task_history k h s" unfolding tasks_inv_def by blast
  with assms(5) stored_task_history [OF h] run_of_last [of "snd k" h] have "task_wf c" by (auto simp: task_history_def)
  then have "task_wf ?t" by (auto simp: task_wf_def)
  then have "stored_task k (advanced k ?t s) = Inr ?t" by (simp add: stored_task_def snaps_advanced decode_encode_task)
  with c show ?thesis by auto
qed

theorem unfinished_task_can_be_cancelled_witness:
  "\<exists>t s'. dt_cancel demo_service (JStr ''o'') (JStr ''t1'') (JInt 0) (created (''o'', ''t1'') demo_task opened_db) = (Inr t, s')
     \<and> tstate t = CANCELED"
proof -
  let ?s = "created (''o'', ''t1'') demo_task opened_db"
  have "task_db_step demo_service opened_db ?s" by (rule task_db_step.Create [OF demo_task_wf(1) demo_create])
  then have r: "(task_db_step demo_service)\<^sup>*\<^sup>* opened_db ?s" by (rule r_into_rtranclp)
  have st: "stored_task (''o'', ''t1'') ?s = Inr demo_task"
    by (simp add: stored_task_def created_tables demo_policies decode_encode_task demo_task_wf)
  have "\<not> terminal demo_task" "tsequence demo_task = 0" by (simp_all add: demo_task_def terminal_def terminal_states_def)
  from unfinished_task_can_be_cancelled [OF demo_open demo_no_tasks r st this(1)] this(2) show ?thesis by auto
qed

text \<open>C34: The insert triggers a tenant's database carries never refuse what the service has admitted: with the
  triggers of SQLite, with those of PostgreSQL and with none, every operation gives the same result
  and the same database.\<close>

theorem triggers_agree_with_service:
  assumes "open_service ma me initial g s0 = (Inr svc, s1)" and "t_task_snaps s0 = []" "t_task_events s0 = []"
    and "(task_db_step svc)\<^sup>*\<^sup>* s1 s" and "task_wf t"
  shows "dt_create (svc\<lparr>ts_guard := g'\<rparr>) owner (Some t) s = dt_create svc owner (Some t) s
    \<and> dt_transition (svc\<lparr>ts_guard := g'\<rparr>) owner tid ns expected s = dt_transition svc owner tid ns expected s"
proof -
  have "tasks_inv svc s" using task_db_run_inv [OF assms(4)] open_service_inv [OF assms(1-3)] by blast
  with create_guards transition_guards assms(5) show ?thesis by blast
qed

theorem triggers_agree_with_service_witness:
  "dt_create (demo_service\<lparr>ts_guard := PgGuard\<rparr>) (JStr ''o'') (Some demo_task) opened_db
     = (Inr demo_task, created (''o'', ''t1'') demo_task opened_db)"
  using triggers_agree_with_service [OF demo_open demo_no_tasks rtranclp.rtrancl_refl demo_task_wf(1), of PgGuard "JStr ''o''"] demo_create
  by simp

text \<open>C38: When a task terminates between the two reads of a poll, the iterator that watches it ends
  without yielding the final state, although a reader of the event table still gets it.\<close>

theorem watch_misses_final_event:
  assumes "tasks_inv svc s1" and "stored_task k s1 = Inr c"
    and "dt_transition svc (JStr (fst k)) (JStr (snd k)) ns (JInt (tsequence c)) s1 = (Inr t, s2)" and "terminal t"
  shows "watch (JStr (fst k)) (JStr (snd k)) (tsequence c) (JInt 16) [(s1, s2)] = Inr ([], True)
    \<and> fst (dt_events (JStr (fst k)) (JStr (snd k)) (JInt (tsequence c)) (JInt 16) s2) = Inr [t]"
proof -
  have "k \<in> fst ` set (t_task_snaps s1)"
    using assms(2) by (auto simp: stored_task_def split: option.splits) (metis map_of_SomeD fst_conv image_eqI)
  with assms(1) obtain h where h: "task_history k h s1" "int (length h) \<le> ts_max_events svc" "wf_identifier (fst k)"
    unfolding tasks_inv_def by blast
  have r: "run_of (snd k) h" using h(1) by (simp add: task_history_def)
  note l = run_of_last [OF r]
  have c: "c = last h" using stored_task_history [OF h(1)] assms(2) by simp
  have n: "int (length h) \<le> 10000" using h(2) assms(1) by (simp add: tasks_inv_def)
  have ne: "h \<noteq> []" using r by (simp add: run_of_def)
  from dt_transition_ok [OF assms(3)] c l have tr: "transition (last h) ns (JInt (tsequence (last h) + 1)) = Inr t" and s2: "s2 = advanced k t s1"
    using stored_task_history [OF h(1)] by (auto simp: task_scope_ok)
  note h2 = history_advanced [OF h(1) tr, folded s2]
  have "dt_events (JStr (fst k)) (JStr (snd k)) (JInt (tsequence c)) (JInt 16) s1 = (Inr [], s1)"
    using dt_events_page [OF h(1,3), of "tsequence c" 16] l c n ne by (simp add: Suc_le_eq)
  moreover have "task_scope (JStr (fst k)) (JStr (snd k)) = Inr k" using h(3) l by (auto simp: task_scope_ok task_wf_def)
  then have "dt_get (JStr (fst k)) (JStr (snd k)) s2 = (Inr t, s2)"
    using stored_task_history [OF h2] by (simp add: dt_get_def bindP_def sql_atomic_def)
  moreover have "dt_events (JStr (fst k)) (JStr (snd k)) (JInt (tsequence c)) (JInt 16) s2 = (Inr [t], s2)"
    using dt_events_page [OF h2 h(3), of "tsequence c" 16] l c n ne by (simp add: Suc_le_eq)
  ultimately show ?thesis using assms(4) by simp
qed

theorem watch_misses_final_event_witness:
  "\<exists>s1 s2 t. terminal t \<and> watch (JStr ''o'') (JStr ''t1'') 0 (JInt 16) [(s1, s2)] = Inr ([], True)
     \<and> fst (dt_events (JStr ''o'') (JStr ''t1'') (JInt 0) (JInt 16) s2) = Inr [t]"
proof -
  let ?s = "created (''o'', ''t1'') demo_task opened_db"
  have inv: "tasks_inv demo_service ?s" by (rule create_keeps [OF demo_inv demo_task_wf(1) demo_create])
  have st: "stored_task (''o'', ''t1'') ?s = Inr demo_task"
    by (simp add: stored_task_def created_tables demo_policies decode_encode_task demo_task_wf)
  have d: "\<not> terminal demo_task" "tsequence demo_task = 0" by (simp_all add: demo_task_def terminal_def terminal_states_def)
  let ?t = "demo_task\<lparr>tstate := CANCELED, tsequence := tsequence demo_task + 1\<rparr>"
  have tm: "terminal ?t" by (simp add: terminal_def terminal_states_def)
  note c = cancel_accepted [OF inv st d(1), unfolded dt_cancel_def]
  from watch_misses_final_event [OF inv st c tm] d(2) tm show ?thesis by auto
qed

end
