(* ===== verification/Fencing.thy ===== *)
theory Fencing
  imports Identity Py_FloatText
begin

text \<open>
  Leader fencing at a destination: \<^verbatim>\<open>src/governance/pg_fencing.py\<close>,
  \<^verbatim>\<open>fenced_postgres_destination.py\<close>, the first contract of \<^verbatim>\<open>fenced_sqlite_destination.py\<close> and the
  signed receipts of \<^verbatim>\<open>destination_receipts.py\<close>.

  A fence row gives the owner, the epoch and the expiry of the lease on a scope.  PostgreSQL keeps
  the expiry in microseconds, SQLite as a binary64 number of seconds.  Every reading of the
  database clock is an argument, so nothing is assumed of the clock.  Arguments the code checks at
  run time are \<open>json\<close>.  The signing callback of a destination is a parameter: it returns bytes,
  something else (\<open>None\<close>) or raises.

  The contract shared by both destinations is the locale \<open>fenced_destination\<close>.
\<close>

section \<open>Rows\<close>

record 't fence =
  fn_owner :: string
  fn_epoch :: int
  fn_expires :: 't

record 'r effect_row =
  ef_fingerprint :: string
  ef_outcome :: string
  ef_reference :: string
  ef_receipt :: 'r

record ('t, 'r) fence_db =
  fd_fences :: "(string \<times> 't fence) list"
  fd_effects :: "((string \<times> string) \<times> 'r effect_row) list"

type_synonym pg_dest = "(int, json) fence_db"

section \<open>Argument checks\<close>

definition str_within :: "nat \<Rightarrow> json \<Rightarrow> bool" where
  "str_within n v = (case v of JStr s \<Rightarrow> 1 \<le> length s \<and> length s \<le> n | _ \<Rightarrow> False)"

definition jstr :: "json \<Rightarrow> string" where
  "jstr v = (case v of JStr s \<Rightarrow> s | _ \<Rightarrow> [])"

definition jint :: "json \<Rightarrow> int" where
  "jint v = (case v of JInt n \<Rightarrow> n | _ \<Rightarrow> 0)"

lemma jstr_JStr [simp]: "jstr (JStr s) = s"
  by (simp add: jstr_def)

lemma jint_JInt [simp]: "jint (JInt n) = n"
  by (simp add: jint_def)

text \<open>\<^verbatim>\<open>isinstance(epoch,int) and not isinstance(epoch,bool) and epoch>=1\<close>\<close>

definition epoch_arg :: "json \<Rightarrow> bool" where
  "epoch_arg v = (case v of JInt n \<Rightarrow> 1 \<le> n | _ \<Rightarrow> False)"

text \<open>The value of an accepted number, and \<^verbatim>\<open>math.isfinite\<close>, which converts an int to a float.\<close>

definition num_value :: "json \<Rightarrow> rat" where
  "num_value v = (case v of JInt n \<Rightarrow> of_int n | JFloat (Fin q) \<Rightarrow> q | _ \<Rightarrow> 0)"

definition int_too_large :: "int \<Rightarrow> bool" where
  "int_too_large n \<longleftrightarrow> to_float (NumInt n) = None"

text \<open>\<^verbatim>\<open>0.5<=ttl_seconds<=3600\<close> on an \<open>int\<close> or \<open>float\<close>; \<open>exn_msg\<close> differs between the callers.\<close>

definition fence_ttl :: "string \<Rightarrow> json \<Rightarrow> rat res" where
  "fence_ttl msg v =
     (case v of
        JInt n \<Rightarrow> if int_too_large n then Inl (Exn OverflowError ''int too large to convert to float'')
                  else if \<not> (1 / 2 \<le> num_value v \<and> num_value v \<le> 3600) then Inl (Exn FenceDenied msg)
                  else Inr (num_value v)
      | JFloat (Fin q) \<Rightarrow> if \<not> (1 / 2 \<le> q \<and> q \<le> 3600) then Inl (Exn FenceDenied msg) else Inr q
      | _ \<Rightarrow> Inl (Exn FenceDenied msg))"

text \<open>\<^verbatim>\<open>%s * interval '1 second'\<close>: a float8 product rounded to microseconds.\<close>

definition interval_us :: "rat \<Rightarrow> int" where
  "interval_us q = round_even (fl (1000000 * q))"

section \<open>\<^verbatim>\<open>PgFencing\<close>\<close>

definition fence_validate :: "json \<Rightarrow> json \<Rightarrow> unit res" where
  "fence_validate scope owner =
     (if str_within 128 scope \<and> str_within 128 owner then Inr ()
      else Inl (Exn FenceDenied ''scope and owner must be nonempty bounded identities''))"

text \<open>
  The statement reads the clock three times: for the row it would insert (\<open>c0\<close>), for the condition
  of the update (\<open>c1\<close>) and for the new expiry (\<open>c2\<close>).  The epoch is a BIGINT.
\<close>

definition pg_acquire :: "json \<Rightarrow> json \<Rightarrow> json \<Rightarrow> int \<Rightarrow> int \<Rightarrow> int \<Rightarrow> (pg_dest, int) prog" where
  "pg_acquire scope owner ttl c0 c1 c2 =
     bindP (liftP (fence_validate scope owner)) (\<lambda>_.
     bindP (liftP (fence_ttl ''invalid bounded lease duration'' ttl)) (\<lambda>q. \<lambda>s.
       let sc = jstr scope; ow = jstr owner in
       case map_of (fd_fences s) sc of
         None \<Rightarrow>
           (Inr 1, s\<lparr>fd_fences := fd_fences s @ [(sc, \<lparr>fn_owner = ow, fn_epoch = 1, fn_expires = c0 + interval_us q\<rparr>)]\<rparr>)
       | Some f \<Rightarrow>
           if fn_expires f \<le> c1 then
             (if fn_epoch f + 1 \<ge> 2 ^ 63 then (Inl (Exn OtherError ''bigint out of range''), s)
              else (Inr (fn_epoch f + 1),
                    s\<lparr>fd_fences := AList.update sc \<lparr>fn_owner = ow, fn_epoch = fn_epoch f + 1,
                        fn_expires = c2 + interval_us q\<rparr> (fd_fences s)\<rparr>))
           else (Inl (Exn FenceDenied ''leadership already held''), s)))"

text \<open>The row is locked first; the condition (\<open>c0\<close>) and the new expiry (\<open>c1\<close>) read the clock after that.\<close>

definition pg_renew :: "json \<Rightarrow> json \<Rightarrow> json \<Rightarrow> json \<Rightarrow> int \<Rightarrow> int \<Rightarrow> (pg_dest, int) prog" where
  "pg_renew scope owner epoch ttl c0 c1 =
     bindP (liftP (fence_validate scope owner)) (\<lambda>_.
     bindP (checkP (epoch_arg epoch) FenceDenied ''invalid fence token or lease duration'') (\<lambda>_.
     bindP (liftP (fence_ttl ''invalid fence token or lease duration'' ttl)) (\<lambda>q. \<lambda>s.
       case map_of (fd_fences s) (jstr scope) of
         None \<Rightarrow> (Inl (Exn FenceDenied ''stale or expired fencing epoch''), s)
       | Some f \<Rightarrow>
           if fn_owner f = jstr owner \<and> fn_epoch f = jint epoch \<and> fn_expires f > c0
           then (Inr (fn_epoch f), s\<lparr>fd_fences := AList.update (jstr scope) (f\<lparr>fn_expires := c1 + interval_us q\<rparr>) (fd_fences s)\<rparr>)
           else (Inl (Exn FenceDenied ''stale or expired fencing epoch''), s))))"

definition pg_check :: "json \<Rightarrow> json \<Rightarrow> json \<Rightarrow> int \<Rightarrow> (pg_dest, bool) prog" where
  "pg_check scope owner epoch c0 =
     bindP (liftP (fence_validate scope owner)) (\<lambda>_.
       if \<not> epoch_arg epoch then retP False
       else getP (\<lambda>s. case map_of (fd_fences s) (jstr scope) of
              None \<Rightarrow> False
            | Some f \<Rightarrow> fn_owner f = jstr owner \<and> fn_epoch f = jint epoch \<and> fn_expires f > c0))"

section \<open>Signed receipts\<close>

definition receipt_fields :: "string list" where
  "receipt_fields = [''agent_id'', ''operation_id'', ''fingerprint'', ''outcome'', ''external_reference'']"

text \<open>\<^verbatim>\<open>{name: d[name] for name in names}\<close>; a missing name raises \<^verbatim>\<open>KeyError\<close>.\<close>

definition pick :: "string list \<Rightarrow> (string \<times> json) list \<Rightarrow> (string \<times> json) list" where
  "pick names d = map (\<lambda>name. (name, jget d name)) names"

definition canonical_receipt_payload :: "(string \<times> json) list \<Rightarrow> string" where
  "canonical_receipt_payload d = encode (dumps_compact (JObj (pick receipt_fields d)))"

definition mk_receipt :: "string \<Rightarrow> string \<Rightarrow> string \<Rightarrow> string \<Rightarrow> (string \<times> json) list" where
  "mk_receipt agent op fp reference =
     [(''agent_id'', JStr agent), (''operation_id'', JStr op), (''fingerprint'', JStr fp),
      (''outcome'', JStr ''succeeded''), (''external_reference'', JStr reference)]"

type_synonym signer = "string \<Rightarrow> string option res"

text \<open>The receipt with its signature, or the refusal of a callback that does not return 64 bytes.\<close>

definition sign_receipt :: "signer \<Rightarrow> string \<Rightarrow> (string \<times> json) list \<Rightarrow> (string \<times> json) list res" where
  "sign_receipt sign msg d =
     bindE (sign (canonical_receipt_payload d)) (\<lambda>sg.
       case sg of
         None \<Rightarrow> Inl (Exn ValueError msg)
       | Some b \<Rightarrow> if length b \<noteq> 64 then Inl (Exn ValueError msg) else Inr (d @ [(''signature_hex'', JStr (to_hex b))]))"

text \<open>Ed25519 with a key given in hexadecimal; \<open>None\<close> when the key or the signature is malformed.\<close>

definition ed25519_check :: "crypto \<Rightarrow> string \<Rightarrow> string \<Rightarrow> string \<Rightarrow> bool option" where
  "ed25519_check C key_hex sig_hex payload =
     (case fromhex key_hex of
        None \<Rightarrow> None
      | Some pub \<Rightarrow> if length pub \<noteq> 32 then None
                    else (case fromhex sig_hex of None \<Rightarrow> None | Some sg \<Rightarrow> Some (ed_verify C pub sg payload)))"

definition verify_destination_receipt :: "crypto \<Rightarrow> json \<Rightarrow> json \<Rightarrow> json \<Rightarrow> json \<Rightarrow> json \<Rightarrow> string res" where
  "verify_destination_receipt C receipt agent op fp key =
     (case (receipt, key) of
        (JObj d, JStr key_hex) \<Rightarrow>
          if set (map fst d) \<noteq> set (receipt_fields @ [''signature_hex''])
          then Inl (Exn UntrustedReceipt ''unexpected or missing receipt fields'')
          else if \<not> list_all (\<lambda>name. str_within 512 (jget d name)) [''agent_id'', ''operation_id'', ''fingerprint'', ''external_reference'']
          then Inl (Exn UntrustedReceipt ''invalid receipt identifiers'')
          else if \<not> (case jget d ''signature_hex'' of JStr s \<Rightarrow> length s = 128 | _ \<Rightarrow> False)
          then Inl (Exn UntrustedReceipt ''invalid signature encoding'')
          else if \<not> json_eq (jget d ''agent_id'') agent \<or> \<not> json_eq (jget d ''operation_id'') op
                  \<or> \<not> json_eq (jget d ''fingerprint'') fp
                  \<or> \<not> (jget d ''outcome'' = JStr ''succeeded'' \<or> jget d ''outcome'' = JStr ''failed'')
          then Inl (Exn UntrustedReceipt ''destination receipt does not match claimed operation'')
          else (case ed25519_check C key_hex (jstr (jget d ''signature_hex'')) (canonical_receipt_payload d) of
                  None \<Rightarrow> Inl (Exn UntrustedReceipt ''malformed destination receipt'')
                | Some False \<Rightarrow> Inl (Exn UntrustedReceipt ''invalid destination signature'')
                | Some True \<Rightarrow> Inr (to_hex (sha256 C (canonical_receipt_payload d))))
      | _ \<Rightarrow> Inl (Exn UntrustedReceipt ''missing trusted destination configuration''))"

section \<open>\<^verbatim>\<open>FencedPostgresDestination\<close>\<close>

definition pg_commit ::
  "signer \<Rightarrow> json \<Rightarrow> json \<Rightarrow> json \<Rightarrow> json \<Rightarrow> json \<Rightarrow> json \<Rightarrow> bool \<Rightarrow> int \<Rightarrow> (pg_dest, (string \<times> json) list) prog" where
  "pg_commit sign scope owner epoch agent op fp lose_ack c0 =
     bindP (checkP (list_all (str_within 256) [scope, owner, agent, op, fp]) ValueError ''exact destination identifiers required'') (\<lambda>_.
     bindP (checkP (epoch_arg epoch) ValueError ''valid fencing epoch required'') (\<lambda>_.
     let reference = ''pg-fenced-effect:'' @ jstr op in
     bindP (liftP (sign_receipt sign ''invalid destination signer'' (mk_receipt (jstr agent) (jstr op) (jstr fp) reference))) (\<lambda>receipt.
     bindP (sql_atomic (\<lambda>s.
       case map_of (fd_fences s) (jstr scope) of
         None \<Rightarrow> (Inl (Exn StaleDestinationLeader ''destination rejected stale or expired fence''), s)
       | Some f \<Rightarrow>
           if fn_owner f \<noteq> jstr owner \<or> fn_epoch f \<noteq> jint epoch \<or> \<not> fn_expires f > c0
           then (Inl (Exn StaleDestinationLeader ''destination rejected stale or expired fence''), s)
           else if map_of (fd_effects s) (jstr agent, jstr op) \<noteq> None
           then (Inl (Exn DuplicateDestinationAction ''effect already committed; no second write allowed''), s)
           else (Inr (), s\<lparr>fd_effects := fd_effects s @ [((jstr agent, jstr op),
                   \<lparr>ef_fingerprint = jstr fp, ef_outcome = ''succeeded'', ef_reference = reference,
                    ef_receipt = JObj receipt\<rparr>)]\<rparr>))) (\<lambda>_.
     if lose_ack then raiseP TimeoutError ''destination commit succeeded but ACK was lost'' else retP receipt))))"

section \<open>The SQLite destination file\<close>

text \<open>
  Beside the fences and the effects: the rows of \<^verbatim>\<open>sqlite_master\<close> (name, type, text), the unique keys
  SQLite lists for each table, and the tables of the queued contract (\<open>Queued_Destination\<close>).
\<close>

record index_row =
  ix_unique :: bool
  ix_partial :: bool
  ix_origin :: string
  ix_columns :: "string list"

record binding_row =
  bd_singleton :: int
  bd_version :: int
  bd_descriptor :: string
  bd_descriptor_sha :: string
  bd_schema_sha :: string

record queued_row =
  qe_tenant :: string
  qe_agent :: string
  qe_operation :: string
  qe_authorization_sha :: string
  qe_fingerprint :: string
  qe_attempt :: string
  qe_action_sha :: string
  qe_action :: string
  qe_authorization :: string
  qe_result :: string
  qe_result_sha :: string
  qe_receipt :: string
  qe_receipt_sha :: string
  qe_effect :: string
  qe_committed :: rat
  qe_scope :: string
  qe_owner :: string
  qe_epoch :: int

record sqlite_dest = "(rat, string) fence_db" +
  sd_master :: "(string \<times> string \<times> string) list"
  sd_indexes :: "(string \<times> index_row list) list"
  sd_binding :: "binding_row list"
  sd_queued :: "queued_row list"

text \<open>SQL \<^verbatim>\<open>LIKE\<close>: \<^verbatim>\<open>%\<close> stands for any text, \<^verbatim>\<open>_\<close> for one character; ASCII letters match in either case.\<close>

fun sql_like :: "string \<Rightarrow> string \<Rightarrow> bool" where
  "sql_like [] s \<longleftrightarrow> s = []"
| "sql_like (p # ps) [] \<longleftrightarrow> p = CHR ''%'' \<and> sql_like ps []"
| "sql_like (p # ps) (c # cs) \<longleftrightarrow>
     (if p = CHR ''%'' then sql_like ps (c # cs) \<or> sql_like (p # ps) cs
      else (p = CHR ''_'' \<or> lower_char p = lower_char c) \<and> sql_like ps cs)"

definition queued_tables :: "sqlite_dest \<Rightarrow> bool" where
  "queued_tables s \<longleftrightarrow> list_ex (\<lambda>(name, _). sql_like ''ab_queued_%'' name) (sd_master s)"

definition dest_identifier :: "json \<Rightarrow> bool" where
  "dest_identifier v = str_within 128 v"

text \<open>A Python int bound to a statement parameter must fit 64 bits.\<close>

definition sqlite_acquire :: "json \<Rightarrow> json \<Rightarrow> json \<Rightarrow> rat \<Rightarrow> (sqlite_dest, int) prog" where
  "sqlite_acquire scope owner ttl now =
     bindP (checkP (dest_identifier scope \<and> dest_identifier owner) ValueError ''bounded scope and owner required'') (\<lambda>_.
     bindP (checkP (case ttl of JInt n \<Rightarrow> 1 \<le> n \<and> n \<le> 3600 | _ \<Rightarrow> False) ValueError ''bounded integer TTL required'') (\<lambda>_.
     sql_atomic (\<lambda>s.
       let row = map_of (fd_fences s) (jstr scope) in
       if (case row of Some f \<Rightarrow> fn_expires f > now | None \<Rightarrow> False)
       then (Inl (Exn SqliteFenceDenied ''an authoritative destination owner is already live''), s)
       else (let epoch = (case row of Some f \<Rightarrow> fn_epoch f + 1 | None \<Rightarrow> 1) in
             if epoch \<ge> 2 ^ 63 then (Inl (Exn OverflowError ''Python int too large to convert to SQLite INTEGER''), s)
             else (Inr epoch, s\<lparr>fd_fences := AList.update (jstr scope)
                     \<lparr>fn_owner = jstr owner, fn_epoch = epoch, fn_expires = fadd now (of_int (jint ttl))\<rparr> (fd_fences s)\<rparr>)))))"

text \<open>\<open>queued\<close>: the target was opened with a descriptor of the queued contract.\<close>

definition sqlite_commit ::
  "bool \<Rightarrow> signer \<Rightarrow> json \<Rightarrow> json \<Rightarrow> json \<Rightarrow> json \<Rightarrow> json \<Rightarrow> json \<Rightarrow> bool \<Rightarrow> rat
     \<Rightarrow> (sqlite_dest, (string \<times> json) list) prog" where
  "sqlite_commit queued sign scope owner epoch agent op fp lose_ack now =
     bindP (getP queued_tables) (\<lambda>tables.
     bindP (checkP (\<not> (queued \<or> tables)) ValueError ''queued-only destination rejects the v1 commit contract'') (\<lambda>_.
     bindP (checkP (list_all dest_identifier [scope, owner, agent, op, fp]) ValueError ''exact bounded operation identity required'') (\<lambda>_.
     bindP (checkP (epoch_arg epoch) ValueError ''valid monotonic destination epoch required'') (\<lambda>_.
     bindP (sql_atomic (\<lambda>s.
       case map_of (fd_fences s) (jstr scope) of
         None \<Rightarrow> (Inl (Exn SqliteFenceDenied ''stale, expired or unauthorized destination epoch''), s)
       | Some f \<Rightarrow>
           if fn_owner f \<noteq> jstr owner \<or> fn_epoch f \<noteq> jint epoch \<or> fn_expires f \<le> now
           then (Inl (Exn SqliteFenceDenied ''stale, expired or unauthorized destination epoch''), s)
           else if map_of (fd_effects s) (jstr agent, jstr op) \<noteq> None
           then (Inl (Exn SqliteDuplicateEffect ''operation was already executed at the destination''), s)
           else (let reference = ''sqlite-fenced-effect:'' @ jstr op in
                 case sign_receipt sign ''destination signature invalid'' (mk_receipt (jstr agent) (jstr op) (jstr fp) reference) of
                   Inl e \<Rightarrow> (Inl e, s)
                 | Inr receipt \<Rightarrow>
                     (Inr receipt, s\<lparr>fd_effects := fd_effects s @ [((jstr agent, jstr op),
                        \<lparr>ef_fingerprint = jstr fp, ef_outcome = ''succeeded'', ef_reference = reference,
                         ef_receipt = dumps_compact (JObj receipt)\<rparr>)]\<rparr>)))) (\<lambda>receipt.
     if lose_ack then raiseP TimeoutError ''committed SQLite destination effect; acknowledgement dropped'' else retP receipt)))))"

section \<open>The contract of a fenced destination\<close>

text \<open>
  What an observer of the destination sees: a lease taken, a lease extended, an effect applied.  The
  sequence of these marks is the run of a destination under calls of any number of workers.
\<close>

datatype 'k fence_mark =
    Acquired (mark_scope: string) (mark_owner: string) (mark_epoch: int)
  | Renewed (mark_scope: string) (mark_owner: string) (mark_epoch: int)
  | Applied (mark_scope: string) (mark_owner: string) (mark_epoch: int) (mark_key: 'k)

fun applied_key :: "'k fence_mark \<Rightarrow> 'k option" where
  "applied_key (Applied _ _ _ k) = Some k"
| "applied_key _ = None"

fun fence_run :: "('e \<Rightarrow> 's \<Rightarrow> 'k fence_mark option \<times> 's) \<Rightarrow> 'e list \<Rightarrow> 's \<Rightarrow> 'k fence_mark list" where
  "fence_run step [] s = []"
| "fence_run step (e # es) s = (case step e s of (m, s') \<Rightarrow>
     (case m of None \<Rightarrow> [] | Some x \<Rightarrow> [x]) @ fence_run step es s')"

text \<open>
  On one scope epochs never go back, a new lease has a larger epoch than everything before it, and
  one epoch belongs to one owner.
\<close>

definition fenced_after :: "string \<Rightarrow> int \<Rightarrow> 'k fence_mark \<Rightarrow> bool" where
  "fenced_after owner epoch m \<longleftrightarrow> epoch \<le> mark_epoch m \<and> (is_Acquired m \<longrightarrow> epoch < mark_epoch m)
     \<and> (epoch = mark_epoch m \<longrightarrow> owner = mark_owner m)"

definition fenced_order :: "'k fence_mark \<Rightarrow> 'k fence_mark \<Rightarrow> bool" where
  "fenced_order m m' \<longleftrightarrow> (mark_scope m = mark_scope m' \<longrightarrow> fenced_after (mark_owner m) (mark_epoch m) m')"

locale fenced_destination =
  fixes step :: "'e \<Rightarrow> 's \<Rightarrow> 'k fence_mark option \<times> 's"
    and holder :: "'s \<Rightarrow> string \<Rightarrow> (string \<times> int) option"
    and applied :: "'s \<Rightarrow> 'k set"
  assumes silent: "step e s = (None, s') \<Longrightarrow> holder s' = holder s \<and> applied s' = applied s"
    and acquired: "step e s = (Some (Acquired sc ow ep), s') \<Longrightarrow>
      holder s' = (holder s)(sc \<mapsto> (ow, ep)) \<and> applied s' = applied s \<and> (\<forall>o' n. holder s sc = Some (o', n) \<longrightarrow> n < ep)"
    and renewed: "step e s = (Some (Renewed sc ow ep), s') \<Longrightarrow>
      holder s sc = Some (ow, ep) \<and> holder s' = holder s \<and> applied s' = applied s"
    and committed: "step e s = (Some (Applied sc ow ep k), s') \<Longrightarrow>
      holder s sc = Some (ow, ep) \<and> holder s' = holder s \<and> k \<notin> applied s \<and> applied s' = insert k (applied s)"
begin

text \<open>Every step leaves a holder at least as far as the one before it, and a mark names the holder it leaves.\<close>

lemma step_holder:
  assumes "step e s = (m, s')" and "holder s sc = Some (ow, n)"
  shows "\<exists>ow' n'. holder s' sc = Some (ow', n') \<and> n \<le> n' \<and> (n = n' \<longrightarrow> ow = ow')"
proof (cases m)
  case None
  with assms silent [of e s s'] show ?thesis by auto
next
  case (Some x)
  with assms acquired [of e s _ _ _ s'] renewed [of e s _ _ _ s'] committed [of e s _ _ _ _ s']
  show ?thesis by (cases x) (auto simp: less_le)
qed

lemma step_mark:
  assumes "step e s = (Some m, s')"
  shows "holder s' (mark_scope m) = Some (mark_owner m, mark_epoch m)"
    and "holder s (mark_scope m) = Some (ow, n) \<Longrightarrow> fenced_after ow n m"
  using assms acquired [of e s _ _ _ s'] renewed [of e s _ _ _ s'] committed [of e s _ _ _ _ s']
  by (cases m; fastforce simp: fenced_after_def)+

lemma run_after:
  "holder s sc = Some (ow, n) \<Longrightarrow> m \<in> set (fence_run step es s) \<Longrightarrow> mark_scope m = sc \<Longrightarrow> fenced_after ow n m"
proof (induction es arbitrary: s ow n)
  case (Cons e es)
  obtain x s' where st: "step e s = (x, s')" by (cases "step e s")
  obtain ow' n' where h: "holder s' sc = Some (ow', n')" "n \<le> n'" "n = n' \<Longrightarrow> ow = ow'"
    using step_holder [OF st Cons.prems(1)] by blast
  from Cons.prems(2) st consider "x = Some m" | "m \<in> set (fence_run step es s')" by (auto split: option.splits)
  then show ?case
  proof cases
    case 1
    with st step_mark(2) Cons.prems show ?thesis by blast
  next
    case 2
    from Cons.IH [OF h(1) this Cons.prems(3)] h(2,3) show ?thesis by (auto simp: fenced_after_def)
  qed
qed simp

lemma run_ordered: "sorted_wrt fenced_order (fence_run step es s)"
proof (induction es arbitrary: s)
  case (Cons e es)
  obtain x s' where st: "step e s = (x, s')" by (cases "step e s")
  show ?case
  proof (cases x)
    case None
    with st Cons.IH show ?thesis by simp
  next
    case (Some m)
    with st step_mark(1) [of e s m s'] run_after [of s' "mark_scope m"] Cons.IH [of s']
    show ?thesis by (auto simp: fenced_order_def)
  qed
qed simp

lemma run_applied_fresh: "k \<in> applied s \<Longrightarrow> m \<in> set (fence_run step es s) \<Longrightarrow> applied_key m \<noteq> Some k"
proof (induction es arbitrary: s)
  case (Cons e es)
  obtain x s' where st: "step e s = (x, s')" by (cases "step e s")
  have k: "k \<in> applied s'"
  proof (cases x)
    case None
    with st Cons.prems(1) silent [of e s s'] show ?thesis by simp
  next
    case (Some y)
    with st Cons.prems(1) acquired [of e s _ _ _ s'] renewed [of e s _ _ _ s'] committed [of e s _ _ _ _ s']
    show ?thesis by (cases y) auto
  qed
  have "applied_key m \<noteq> Some k" if "x = Some m"
    using that st Cons.prems(1) committed [of e s _ _ _ _ s'] by (cases m) auto
  with k Cons.IH [of s'] Cons.prems(2) st show ?case by (auto split: option.splits)
qed simp

lemma run_applied_once: "distinct (List.map_filter applied_key (fence_run step es s))"
proof (induction es arbitrary: s)
  case (Cons e es)
  obtain x s' where st: "step e s = (x, s')" by (cases "step e s")
  have "Some k \<notin> applied_key ` set (fence_run step es s')" if "x = Some m" "applied_key m = Some k" for m k
  proof -
    have "k \<in> applied s'" using that st committed [of e s _ _ _ _ s'] by (cases m) auto
    then show ?thesis using run_applied_fresh [of k s'] by fastforce
  qed
  then have new: "applied_key m = Some k \<Longrightarrow> k \<notin> set (List.map_filter applied_key (fence_run step es s'))" if "x = Some m" for m k
    using that by (force simp: List.map_filter_def)
  show ?case
  proof (cases x)
    case None
    with st Cons.IH [of s'] show ?thesis by simp
  next
    case (Some m)
    with st Cons.IH [of s'] new [OF Some] show ?thesis
      by (cases "applied_key m") (simp_all add: List.map_filter_simps)
  qed
qed (simp add: List.map_filter_def)

end

section \<open>Both destinations keep the contract\<close>

definition fence_holder :: "('t, 'r, 'z) fence_db_scheme \<Rightarrow> string \<Rightarrow> (string \<times> int) option" where
  "fence_holder s sc = map_option (\<lambda>f. (fn_owner f, fn_epoch f)) (map_of (fd_fences s) sc)"

definition effect_keys :: "('t, 'r, 'z) fence_db_scheme \<Rightarrow> (string \<times> string) set" where
  "effect_keys s = dom (map_of (fd_effects s))"

datatype pg_event =
    PgAcquire json json json int int int
  | PgRenew json json json json int int
  | PgCommit signer json json json json json json bool int

text \<open>An effect counts as applied when its row is there, whatever the caller was told.\<close>

definition applied_mark ::
  "json \<Rightarrow> json \<Rightarrow> json \<Rightarrow> json \<Rightarrow> json \<Rightarrow> ('t, 'r, 'z) fence_db_scheme \<Rightarrow> ('t, 'r, 'z) fence_db_scheme
     \<Rightarrow> (string \<times> string) fence_mark option" where
  "applied_mark scope owner epoch agent op s s' =
     (if length (fd_effects s) < length (fd_effects s')
      then Some (Applied (jstr scope) (jstr owner) (jint epoch) (jstr agent, jstr op)) else None)"

fun pg_step :: "pg_event \<Rightarrow> pg_dest \<Rightarrow> (string \<times> string) fence_mark option \<times> pg_dest" where
  "pg_step (PgAcquire scope owner ttl c0 c1 c2) s =
     (case pg_acquire scope owner ttl c0 c1 c2 s of
        (Inr n, s') \<Rightarrow> (Some (Acquired (jstr scope) (jstr owner) n), s') | (Inl _, s') \<Rightarrow> (None, s'))"
| "pg_step (PgRenew scope owner epoch ttl c0 c1) s =
     (case pg_renew scope owner epoch ttl c0 c1 s of
        (Inr n, s') \<Rightarrow> (Some (Renewed (jstr scope) (jstr owner) n), s') | (Inl _, s') \<Rightarrow> (None, s'))"
| "pg_step (PgCommit sign scope owner epoch agent op fp lose_ack c0) s =
     (case pg_commit sign scope owner epoch agent op fp lose_ack c0 s of
        (_, s') \<Rightarrow> (applied_mark scope owner epoch agent op s s', s'))"

datatype sqlite_event =
    SqAcquire json json json rat
  | SqCommit bool signer json json json json json json bool rat

fun sqlite_step :: "sqlite_event \<Rightarrow> sqlite_dest \<Rightarrow> (string \<times> string) fence_mark option \<times> sqlite_dest" where
  "sqlite_step (SqAcquire scope owner ttl now) s =
     (case sqlite_acquire scope owner ttl now s of
        (Inr n, s') \<Rightarrow> (Some (Acquired (jstr scope) (jstr owner) n), s') | (Inl _, s') \<Rightarrow> (None, s'))"
| "sqlite_step (SqCommit queued sign scope owner epoch agent op fp lose_ack now) s =
     (case sqlite_commit queued sign scope owner epoch agent op fp lose_ack now s of
        (_, s') \<Rightarrow> (applied_mark scope owner epoch agent op s s', s'))"

text \<open>What each operation does to the tables.\<close>

lemma fence_holder_update:
  "fence_holder (s\<lparr>fd_fences := AList.update sc f (fd_fences s)\<rparr>) = (fence_holder s)(sc \<mapsto> (fn_owner f, fn_epoch f))"
  by (rule ext) (simp add: fence_holder_def)

lemma fence_holder_append:
  "map_of (fd_fences s) sc = None \<Longrightarrow>
   fence_holder (s\<lparr>fd_fences := fd_fences s @ [(sc, f)]\<rparr>) = (fence_holder s)(sc \<mapsto> (fn_owner f, fn_epoch f))"
  by (rule ext) (auto simp: fence_holder_def map_add_def split: option.splits)

lemma fence_keeps [simp]:
  "effect_keys (s\<lparr>fd_fences := r\<rparr>) = effect_keys s" "fence_holder (s\<lparr>fd_effects := t\<rparr>) = fence_holder s"
  by (simp_all add: effect_keys_def fence_holder_def fun_eq_iff)

lemma effect_keys_append: "effect_keys (s\<lparr>fd_effects := fd_effects s @ [(k, r)]\<rparr>) = insert k (effect_keys s)"
  by (auto simp: effect_keys_def map_add_def split: option.splits)

lemma pg_acquire_effect:
  assumes "pg_acquire scope owner ttl c0 c1 c2 s = (r, s')"
  shows "case r of
      Inr n \<Rightarrow> fence_holder s' = (fence_holder s)(jstr scope \<mapsto> (jstr owner, n)) \<and> effect_keys s' = effect_keys s
                \<and> (\<forall>ow k. fence_holder s (jstr scope) = Some (ow, k) \<longrightarrow> k < n)
    | Inl e \<Rightarrow> s' = s"
proof (cases "map_of (fd_fences s) (jstr scope)")
  case None
  with assms show ?thesis
    by (auto simp: pg_acquire_def bindP_def Let_def fence_holder_append fence_holder_def split: sum.splits)
next
  case (Some f)
  with assms show ?thesis
    by (auto simp: pg_acquire_def bindP_def Let_def fence_holder_update split: sum.splits if_splits)
      (auto simp: fence_holder_def)
qed

lemma pg_renew_effect:
  assumes "pg_renew scope owner epoch ttl c0 c1 s = (r, s')"
  shows "case r of
      Inr n \<Rightarrow> fence_holder s (jstr scope) = Some (jstr owner, n) \<and> fence_holder s' = fence_holder s \<and> effect_keys s' = effect_keys s
    | Inl e \<Rightarrow> s' = s"
proof (cases "map_of (fd_fences s) (jstr scope)")
  case None
  with assms show ?thesis by (auto simp: pg_renew_def bindP_def split: sum.splits if_splits)
next
  case (Some f)
  with assms show ?thesis
    by (auto simp: pg_renew_def bindP_def fence_holder_update split: sum.splits if_splits)
      (auto simp: fence_holder_def fun_eq_iff)
qed

lemma pg_commit_effect:
  assumes "pg_commit sign scope owner epoch agent op fp lose_ack c0 s = (r, s')"
  shows "s' = s \<or> (fence_holder s (jstr scope) = Some (jstr owner, jint epoch) \<and> (jstr agent, jstr op) \<notin> effect_keys s
                   \<and> (\<exists>row. s' = s\<lparr>fd_effects := fd_effects s @ [((jstr agent, jstr op), row)]\<rparr>))"
  using assms
  by (auto simp: pg_commit_def bindP_def sql_atomic_def Let_def fence_holder_def effect_keys_def
      split: sum.splits if_splits option.splits)

lemma sqlite_acquire_effect:
  assumes "sqlite_acquire scope owner ttl now s = (r, s')"
  shows "case r of
      Inr n \<Rightarrow> fence_holder s' = (fence_holder s)(jstr scope \<mapsto> (jstr owner, n)) \<and> effect_keys s' = effect_keys s
                \<and> (\<forall>ow k. fence_holder s (jstr scope) = Some (ow, k) \<longrightarrow> k < n)
    | Inl e \<Rightarrow> s' = s"
  using assms
  by (cases "map_of (fd_fences s) (jstr scope)")
    (auto simp: sqlite_acquire_def bindP_def sql_atomic_def Let_def fence_holder_update split: sum.splits if_splits,
     auto simp: fence_holder_def)

lemma sqlite_commit_effect:
  assumes "sqlite_commit queued sign scope owner epoch agent op fp lose_ack now s = (r, s')"
  shows "s' = s \<or> (fence_holder s (jstr scope) = Some (jstr owner, jint epoch) \<and> (jstr agent, jstr op) \<notin> effect_keys s
                   \<and> (\<exists>row. s' = s\<lparr>fd_effects := fd_effects s @ [((jstr agent, jstr op), row)]\<rparr>))"
  using assms
  by (auto simp: sqlite_commit_def bindP_def sql_atomic_def Let_def fence_holder_def effect_keys_def
      split: sum.splits if_splits option.splits)

lemma applied_mark_cases:
  assumes "s' = s \<or> (fence_holder s (jstr scope) = Some (jstr owner, jint epoch) \<and> (jstr agent, jstr op) \<notin> effect_keys s
                   \<and> (\<exists>row. s' = s\<lparr>fd_effects := fd_effects s @ [((jstr agent, jstr op), row)]\<rparr>))"
  shows "applied_mark scope owner epoch agent op s s' = None \<and> s' = s \<or>
    applied_mark scope owner epoch agent op s s' = Some (Applied (jstr scope) (jstr owner) (jint epoch) (jstr agent, jstr op))
    \<and> fence_holder s (jstr scope) = Some (jstr owner, jint epoch) \<and> (jstr agent, jstr op) \<notin> effect_keys s
    \<and> fence_holder s' = fence_holder s \<and> effect_keys s' = insert (jstr agent, jstr op) (effect_keys s)"
  using assms by (auto simp: applied_mark_def effect_keys_append)

definition fence_law ::
  "('t, 'r, 'z) fence_db_scheme \<Rightarrow> (string \<times> string) fence_mark option \<Rightarrow> ('t, 'r, 'z) fence_db_scheme \<Rightarrow> bool" where
  "fence_law s m s' =
     (case m of
        None \<Rightarrow> fence_holder s' = fence_holder s \<and> effect_keys s' = effect_keys s
      | Some (Acquired sc ow ep) \<Rightarrow> fence_holder s' = (fence_holder s)(sc \<mapsto> (ow, ep)) \<and> effect_keys s' = effect_keys s
          \<and> (\<forall>o' n. fence_holder s sc = Some (o', n) \<longrightarrow> n < ep)
      | Some (Renewed sc ow ep) \<Rightarrow> fence_holder s sc = Some (ow, ep) \<and> fence_holder s' = fence_holder s \<and> effect_keys s' = effect_keys s
      | Some (Applied sc ow ep k) \<Rightarrow> fence_holder s sc = Some (ow, ep) \<and> fence_holder s' = fence_holder s
          \<and> k \<notin> effect_keys s \<and> effect_keys s' = insert k (effect_keys s))"

lemma applied_mark_law:
  assumes "s' = s \<or> (fence_holder s (jstr scope) = Some (jstr owner, jint epoch) \<and> (jstr agent, jstr op) \<notin> effect_keys s
                   \<and> (\<exists>row. s' = s\<lparr>fd_effects := fd_effects s @ [((jstr agent, jstr op), row)]\<rparr>))"
  shows "fence_law s (applied_mark scope owner epoch agent op s s') s'"
  using applied_mark_cases [OF assms] by (auto simp: fence_law_def)

lemma pg_step_law:
  assumes "pg_step e s = (m, s')"
  shows "fence_law s m s'"
proof (cases e)
  case (PgAcquire scope owner ttl c0 c1 c2)
  obtain r t where a: "pg_acquire scope owner ttl c0 c1 c2 s = (r, t)" by (metis surj_pair)
  with assms PgAcquire pg_acquire_effect [OF a] show ?thesis by (cases r) (auto simp: fence_law_def)
next
  case (PgRenew scope owner epoch ttl c0 c1)
  obtain r t where a: "pg_renew scope owner epoch ttl c0 c1 s = (r, t)" by (metis surj_pair)
  with assms PgRenew pg_renew_effect [OF a] show ?thesis by (cases r) (auto simp: fence_law_def)
next
  case (PgCommit sign scope owner epoch agent op fp lose_ack c0)
  obtain r t where a: "pg_commit sign scope owner epoch agent op fp lose_ack c0 s = (r, t)" by (metis surj_pair)
  with assms PgCommit applied_mark_law [OF pg_commit_effect [OF a]] show ?thesis by auto
qed

lemma sqlite_step_law:
  assumes "sqlite_step e s = (m, s')"
  shows "fence_law s m s'"
proof (cases e)
  case (SqAcquire scope owner ttl now)
  obtain r t where a: "sqlite_acquire scope owner ttl now s = (r, t)" by (metis surj_pair)
  with assms SqAcquire sqlite_acquire_effect [OF a] show ?thesis by (cases r) (auto simp: fence_law_def)
next
  case (SqCommit queued sign scope owner epoch agent op fp lose_ack now)
  obtain r t where a: "sqlite_commit queued sign scope owner epoch agent op fp lose_ack now s = (r, t)" by (metis surj_pair)
  with assms SqCommit applied_mark_law [OF sqlite_commit_effect [OF a]] show ?thesis by auto
qed

interpretation pgd: fenced_destination pg_step fence_holder effect_keys
  by unfold_locales (drule pg_step_law, simp add: fence_law_def)+

interpretation sqd: fenced_destination sqlite_step fence_holder effect_keys
  by unfold_locales (drule sqlite_step_law, simp add: fence_law_def)+

section \<open>Receipts\<close>

lemma pick_cong: "(\<And>n. n \<in> set names \<Longrightarrow> jget d n = jget e n) \<Longrightarrow> pick names d = pick names e"
  by (simp add: pick_def)

text \<open>Sorting the keys of an object does not change what its fields are.\<close>

lemma sorted_receipt_fields:
  "sort_json (JObj (mk_receipt a op fp rf @ [(''signature_hex'', JStr sg)])) =
     JObj [(''agent_id'', JStr a), (''external_reference'', JStr rf), (''fingerprint'', JStr fp),
           (''operation_id'', JStr op), (''outcome'', JStr ''succeeded''), (''signature_hex'', JStr sg)]"
  unfolding mk_receipt_def by code_simp

lemma length_to_hex [simp]: "length (to_hex b) = 2 * length b"
  by (induction b) (simp_all add: Let_def)

lemma signed_receipt_verifies:
  assumes C: "crypto_ok C" and k: "length k = 32" and sg: "length (ed_sign C k (canonical_receipt_payload (mk_receipt a op fp rf))) = 64"
    and b: "1 \<le> length a" "length a \<le> 512" "1 \<le> length op" "length op \<le> 512" "1 \<le> length fp" "length fp \<le> 512"
      "1 \<le> length rf" "length rf \<le> 512"
  shows "\<exists>receipt. sign_receipt (\<lambda>d. Inr (Some (ed_sign C k d))) msg (mk_receipt a op fp rf) = Inr receipt \<and>
     (\<exists>stored. loads (dumps_compact (JObj receipt)) = Some stored \<and>
        verify_destination_receipt C stored (JStr a) (JStr op) (JStr fp) (JStr (to_hex (ed_public C k)))
          = Inr (to_hex (sha256 C (canonical_receipt_payload (mk_receipt a op fp rf)))))"
proof -
  let ?p = "canonical_receipt_payload (mk_receipt a op fp rf)"
  let ?r = "mk_receipt a op fp rf @ [(''signature_hex'', JStr (to_hex (ed_sign C k ?p)))]"
  have r: "sign_receipt (\<lambda>d. Inr (Some (ed_sign C k d))) msg (mk_receipt a op fp rf) = Inr ?r"
    using sg by (simp add: sign_receipt_def)
  have ld: "loads (dumps_compact (JObj ?r)) = Some (sort_json (JObj ?r))"
    by (rule loads_dumps_compact) (simp add: mk_receipt_def)
  have p: "canonical_receipt_payload [(''agent_id'', JStr a), (''external_reference'', JStr rf), (''fingerprint'', JStr fp),
           (''operation_id'', JStr op), (''outcome'', JStr ''succeeded''), (''signature_hex'', JStr x)] = ?p" for x
    by (simp add: canonical_receipt_payload_def pick_def receipt_fields_def mk_receipt_def)
  have v: "ed25519_check C (to_hex (ed_public C k)) (to_hex (ed_sign C k ?p)) ?p = Some True"
    using C k by (simp add: ed25519_check_def crypto_ok_def)
  have "verify_destination_receipt C (sort_json (JObj ?r)) (JStr a) (JStr op) (JStr fp) (JStr (to_hex (ed_public C k)))
          = Inr (to_hex (sha256 C ?p))"
    unfolding sorted_receipt_fields using b sg
    by (auto simp: verify_destination_receipt_def p v receipt_fields_def str_within_def)
  with r ld show ?thesis by blast
qed

section \<open>Properties\<close>

text \<open>
  C11: Whatever workers do to a fenced destination, and whatever its clock says: on one scope the epochs
  of leases and effects never go back, a new lease has a larger epoch than every lease or effect
  before it, one epoch belongs to one owner, so a leader that was replaced applies nothing any
  more; and no operation is applied twice, also when its acknowledgement was lost.  This holds for
  PostgreSQL and for SQLite.
\<close>

theorem replaced_leader_is_fenced_off:
  "sorted_wrt fenced_order (fence_run pg_step es s) \<and> distinct (List.map_filter applied_key (fence_run pg_step es s))
   \<and> sorted_wrt fenced_order (fence_run sqlite_step fs t) \<and> distinct (List.map_filter applied_key (fence_run sqlite_step fs t))"
  using pgd.run_ordered pgd.run_applied_once sqd.run_ordered sqd.run_applied_once by blast


definition pad_crypto :: crypto where
  "pad_crypto = \<lparr>ed_public = (\<lambda>k. k), ed_sign = (\<lambda>k d. take 64 (k @ d @ replicate 64 CHR 0x00)),
     ed_verify = (\<lambda>p sg d. sg = take 64 (p @ d @ replicate 64 CHR 0x00)), sha256 = (\<lambda>_. replicate 32 CHR ''h'')\<rparr>"

lemma pad_crypto_ok: "crypto_ok pad_crypto" "length (ed_sign pad_crypto k d) = 64"
  by (simp_all add: crypto_ok_def pad_crypto_def)

definition pad_signer :: signer where
  "pad_signer = (\<lambda>d. Inr (Some (ed_sign pad_crypto (replicate 32 CHR ''k'') d)))"

definition empty_dest :: sqlite_dest where
  "empty_dest = \<lparr>fd_fences = [], fd_effects = [], sd_master = [], sd_indexes = [], sd_binding = [], sd_queued = []\<rparr>"

definition demo_dest :: sqlite_dest where
  "demo_dest = empty_dest\<lparr>fd_fences := [(''s'', \<lparr>fn_owner = ''o'', fn_epoch = 1, fn_expires = 100\<rparr>)]\<rparr>"

lemma demo_commit:
  "\<exists>r row. sqlite_commit False pad_signer (JStr ''s'') (JStr ''o'') (JInt 1) (JStr ''a'') (JStr ''x'') (JStr ''f'') False 50 demo_dest
     = (r, demo_dest\<lparr>fd_effects := [((''a'', ''x''), row)]\<rparr>)"
  by (auto simp: sqlite_commit_def bindP_def sql_atomic_def Let_def demo_dest_def empty_dest_def dest_identifier_def
      str_within_def epoch_arg_def queued_tables_def sign_receipt_def pad_signer_def pad_crypto_ok)


text \<open>A run in which the lease of one worker expires, another takes over, and the first comes back.\<close>

lemma takeover_example:
  "fence_run sqlite_step
     [SqAcquire (JStr ''s'') (JStr ''A'') (JInt 10) 0,
      SqCommit False pad_signer (JStr ''s'') (JStr ''A'') (JInt 1) (JStr ''a'') (JStr ''x'') (JStr ''f'') True 5,
      SqAcquire (JStr ''s'') (JStr ''B'') (JInt 10) 9,
      SqAcquire (JStr ''s'') (JStr ''B'') (JInt 10) 20,
      SqCommit False pad_signer (JStr ''s'') (JStr ''A'') (JInt 1) (JStr ''a'') (JStr ''y'') (JStr ''f'') False 21,
      SqCommit False pad_signer (JStr ''s'') (JStr ''B'') (JInt 2) (JStr ''a'') (JStr ''x'') (JStr ''f'') False 22,
      SqCommit False pad_signer (JStr ''s'') (JStr ''B'') (JInt 2) (JStr ''a'') (JStr ''y'') (JStr ''f'') False 23] empty_dest
   = [Acquired ''s'' ''A'' 1, Applied ''s'' ''A'' 1 (''a'', ''x''), Acquired ''s'' ''B'' 2, Applied ''s'' ''B'' 2 (''a'', ''y'')]"
  by (simp add: sqlite_commit_def sqlite_acquire_def bindP_def sql_atomic_def Let_def empty_dest_def dest_identifier_def
      str_within_def epoch_arg_def queued_tables_def sign_receipt_def pad_signer_def pad_crypto_ok applied_mark_def fadd_def)

end
