(* ===== verification/Queued_Destination.thy ===== *)
theory Queued_Destination
  imports Fencing
begin

text \<open>
  The queued destination contract: the descriptor and the demonstration action
  (\<^verbatim>\<open>src/governance/queued_destination_contract.py\<close>), the signed authorization and the signed receipt
  (\<^verbatim>\<open>destination_receipts.py\<close>), and the fenced SQLite file that applies an authorized action once
  (\<^verbatim>\<open>fenced_sqlite_destination.py\<close>).

  \<open>fs\<close> is the resolution of paths by the file system, a parameter; \<open>None\<close> is its failure.  The canonical
  JSON text is ASCII, so its bytes are its characters.  Bytes that are not such a text are refused
  by \<open>parse_demo_action\<close> like any other malformed action.
\<close>

section \<open>Values\<close>

type_synonym fields = "(string \<times> json) list"
type_synonym resolver = "string \<Rightarrow> string option"

definition canonical_queued_json :: "json \<Rightarrow> string res" where
  "canonical_queued_json v = dumps_strict v"

definition queued_identifier :: "json \<Rightarrow> bool" where
  "queued_identifier v = (case v of
     JStr s \<Rightarrow> 1 \<le> length s \<and> length s \<le> 128 \<and> CHR 0x00 \<notin> set s \<and> py_strip s \<noteq> [] \<and> py_strip s = s
               \<and> length (encode s) \<le> 512
   | _ \<Rightarrow> False)"

definition queued_hex :: "nat \<Rightarrow> json \<Rightarrow> bool" where
  "queued_hex n v = (case v of
     JStr s \<Rightarrow> length s = n \<and> list_all (\<lambda>c. c \<in> set ''0123456789abcdef'') s | _ \<Rightarrow> False)"

definition within_seconds :: "rat \<Rightarrow> json \<Rightarrow> bool" where
  "within_seconds most v = (case v of
     JInt n \<Rightarrow> 0 < n \<and> of_int n \<le> most | JFloat (Fin q) \<Rightarrow> 0 < q \<and> q \<le> most | _ \<Rightarrow> False)"

definition queued_seconds :: "json \<Rightarrow> bool" where
  "queued_seconds v = within_seconds 253402300800 v"

text \<open>\<^verbatim>\<open>a + b\<close> of two accepted numbers: exact on ints, rounded when a float takes part.\<close>

definition num_plus :: "json \<Rightarrow> json \<Rightarrow> rat" where
  "num_plus a b = (case (a, b) of (JInt m, JInt n) \<Rightarrow> of_int (m + n) | _ \<Rightarrow> fadd (num_value a) (num_value b))"

section \<open>The descriptor\<close>

definition descriptor_fields :: "string list" where
  "descriptor_fields = [''kind'', ''protocol'', ''tenant_id'', ''target_id'', ''destination_id'', ''path'', ''action_schema'',
     ''authorizer_key_id'', ''authorizer_public_key_hex'', ''destination_key_id'', ''destination_public_key_hex'',
     ''observer_key_id'', ''observer_public_key_hex'', ''call_timeout_seconds'', ''max_action_bytes'']"

definition starts_with :: "string \<Rightarrow> string \<Rightarrow> bool" where
  "starts_with s p \<longleftrightarrow> take (length p) s = p"

definition queued_path_ok :: "json \<Rightarrow> bool" where
  "queued_path_ok v = (case v of
     JStr p \<Rightarrow> p \<noteq> [] \<and> length p \<le> 1024 \<and> CHR 0x00 \<notin> set p \<and> p \<noteq> '':memory:''
               \<and> \<not> starts_with p ''file:'' \<and> \<not> starts_with p [bslash, bslash] \<and> \<not> starts_with p ''//'' \<and> starts_with p ''/''
   | _ \<Rightarrow> False)"

definition normalize_queued_descriptor :: "resolver \<Rightarrow> json \<Rightarrow> fields res" where
  "normalize_queued_descriptor fs descriptor =
     (case descriptor of
        JObj d \<Rightarrow>
          if set (map fst d) \<noteq> set descriptor_fields then Inl (Exn ValueError ''exact queued destination descriptor required'')
          else if jget d ''kind'' \<noteq> JStr ''queued_fenced_sqlite_v2'' \<or> jget d ''protocol'' \<noteq> JStr ''mcp''
                  \<or> jget d ''action_schema'' \<noteq> JStr ''agentbridge.demo.append.v1'' \<or> jget d ''max_action_bytes'' \<noteq> JInt 4096
          then Inl (Exn ValueError ''unsupported queued demonstration contract'')
          else if \<not> list_all (\<lambda>n. queued_identifier (jget d n)) [''tenant_id'', ''target_id'', ''destination_id'',
                     ''authorizer_key_id'', ''destination_key_id'', ''observer_key_id'']
          then Inl (Exn ValueError ''bounded queued destination identity required'')
          else if \<not> list_all (\<lambda>n. queued_hex 64 (jget d n)) [''authorizer_public_key_hex'', ''destination_public_key_hex'', ''observer_public_key_hex'']
          then Inl (Exn ValueError ''canonical 32-byte Ed25519 trust roots required'')
          else if \<not> distinct (map (jget d) [''authorizer_public_key_hex'', ''destination_public_key_hex'', ''observer_public_key_hex''])
          then Inl (Exn ValueError ''authorization, destination and observer trust roots must be distinct'')
          else if \<not> distinct (map (jget d) [''authorizer_key_id'', ''destination_key_id'', ''observer_key_id''])
          then Inl (Exn ValueError ''signing key identities must be distinct'')
          else if \<not> within_seconds 10 (jget d ''call_timeout_seconds'')
          then Inl (Exn ValueError ''queued destination timeout must be finite and at most ten seconds'')
          else if \<not> queued_path_ok (jget d ''path'')
          then Inl (Exn ValueError ''dedicated absolute SQLite destination path required'')
          else (case fs (jstr (jget d ''path'')) of
                  None \<Rightarrow> Inl (Exn ValueError ''invalid destination path'')
                | Some p \<Rightarrow>
                    if length (encode p) > 4096 \<or> length p > 1024 then Inl (Exn ValueError ''destination path exceeds bounds'')
                    else (let result = AList.update ''path'' (JStr p) d in
                          bindE (canonical_queued_json (JObj result)) (\<lambda>raw.
                            if length raw > 8192 then Inl (Exn ValueError ''normalized queued descriptor exceeds byte limit'')
                            else Inr result)))
      | _ \<Rightarrow> Inl (Exn ValueError ''exact queued destination descriptor required''))"

definition queued_descriptor_sha256 :: "crypto \<Rightarrow> resolver \<Rightarrow> json \<Rightarrow> string res" where
  "queued_descriptor_sha256 C fs descriptor =
     bindE (normalize_queued_descriptor fs descriptor) (\<lambda>d. bindE (canonical_queued_json (JObj d)) (\<lambda>raw. Inr (sha_hex C raw)))"

section \<open>The demonstration action\<close>

definition canonical_demo_action :: "json \<Rightarrow> string res" where
  "canonical_demo_action wire =
     (case wire of
        JObj w \<Rightarrow>
          if set (map fst w) \<noteq> {''method'', ''params''} \<or> jget w ''method'' \<noteq> JStr ''tools/call''
          then Inl (Exn ValueError ''exact queued MCP tools/call required'')
          else (case jget w ''params'' of
             JObj p \<Rightarrow>
               if set (map fst p) \<noteq> {''name'', ''arguments''} \<or> jget p ''name'' \<noteq> JStr ''write''
               then Inl (Exn ValueError ''only the bounded demonstration write tool is supported'')
               else (case jget p ''arguments'' of
                  JObj a \<Rightarrow>
                    (case (if set (map fst a) = {''value''} then jget a ''value'' else JNull) of
                       JStr v \<Rightarrow>
                         if length (encode v) > 1024 then Inl (Exn ValueError ''demonstration value exceeds UTF-8 byte limit'')
                         else bindE (canonical_queued_json wire) (\<lambda>raw.
                           if length raw > 4096 then Inl (Exn ValueError ''demonstration action exceeds canonical byte limit'')
                           else Inr raw)
                     | _ \<Rightarrow> Inl (Exn ValueError ''one demonstration string value required''))
                | _ \<Rightarrow> Inl (Exn ValueError ''one demonstration string value required''))
           | _ \<Rightarrow> Inl (Exn ValueError ''only the bounded demonstration write tool is supported''))
      | _ \<Rightarrow> Inl (Exn ValueError ''exact queued MCP tools/call required''))"

definition parse_demo_action :: "string \<Rightarrow> json res" where
  "parse_demo_action action =
     (if \<not> (1 \<le> length action \<and> length action \<le> 4096) then Inl (Exn ValueError ''bounded canonical action bytes required'')
      else (case loads action of
              None \<Rightarrow> Inl (Exn ValueError ''JSONDecodeError'')
            | Some wire \<Rightarrow>
                bindE (canonical_demo_action wire) (\<lambda>raw.
                  if raw \<noteq> action then Inl (Exn ValueError ''action is not its exact canonical encoding'') else Inr wire)))"

definition queued_effect_id :: "json \<Rightarrow> string res" where
  "queued_effect_id digest =
     (if \<not> queued_hex 64 digest then Inl (Exn ValueError ''exact queued authorization digest required'')
      else Inr (''sqlite-queued-effect-v2:'' @ jstr digest))"

definition action_value :: "json \<Rightarrow> string" where
  "action_value wire = (case wire of JObj w \<Rightarrow> (case jget w ''params'' of JObj p \<Rightarrow>
     (case jget p ''arguments'' of JObj a \<Rightarrow> jstr (jget a ''value'') | _ \<Rightarrow> []) | _ \<Rightarrow> []) | _ \<Rightarrow> [])"

definition demo_result :: "crypto \<Rightarrow> string \<Rightarrow> string \<Rightarrow> fields res" where
  "demo_result C action digest =
     bindE (parse_demo_action action) (\<lambda>wire.
     bindE (queued_effect_id (JStr digest)) (\<lambda>eff.
     let raw_value = encode (action_value wire) in
     Inr [(''domain'', JStr ''agentbridge.demo-result.v1''), (''stored_sha256'', JStr (sha_hex C raw_value)),
          (''stored_bytes'', JInt (int (length raw_value))), (''effect_id'', JStr eff)]))"

definition queued_result_envelope_bytes :: "json \<Rightarrow> json \<Rightarrow> json \<Rightarrow> json \<Rightarrow> string res" where
  "queued_result_envelope_bytes authorization result receipt attestation =
     canonical_queued_json (JObj [(''authorization'', authorization), (''result'', result),
       (''destination_receipt'', receipt), (''readback_attestation'', attestation)])"

section \<open>Authorizations\<close>

definition authorization_fields :: "string list" where
  "authorization_fields = [''domain'', ''tenant_id'', ''store_id'', ''owner_id'', ''agent_id'', ''authority_sha256'',
     ''task_id'', ''context_id'', ''intent_sha256'', ''admission_link_sha256'', ''fingerprint'',
     ''original_action_sha256'', ''target_id'', ''target_configuration_sha256'', ''destination_id'',
     ''operation_id'', ''action_sha256'', ''result_limit_bytes'', ''attempt_id'', ''fence_scope'',
     ''fence_owner'', ''fence_epoch'', ''issued_at'', ''expires_at'', ''authorizer_key_id'']"

definition queued_receipt_fields :: "string list" where
  "queued_receipt_fields = [''domain'', ''authorization_sha256'', ''tenant_id'', ''agent_id'', ''operation_id'', ''fingerprint'',
     ''target_id'', ''destination_id'', ''attempt_id'', ''fence_epoch'', ''action_sha256'', ''outcome'',
     ''external_reference'', ''committed_at'', ''result_sha256'', ''destination_key_id'']"

definition canonical_queued_authorization_payload :: "fields \<Rightarrow> string res" where
  "canonical_queued_authorization_payload d = canonical_queued_json (JObj (pick authorization_fields d))"

definition queued_authorization_sha256 :: "crypto \<Rightarrow> json \<Rightarrow> string res" where
  "queued_authorization_sha256 C authorization = bindE (canonical_queued_json authorization) (\<lambda>raw. Inr (sha_hex C raw))"

definition verify_queued_signature :: "crypto \<Rightarrow> fields \<Rightarrow> string \<Rightarrow> string \<Rightarrow> string \<Rightarrow> unit res" where
  "verify_queued_signature C envelope payload key_hex label =
     (if \<not> queued_hex 128 (jget envelope ''signature_hex'')
      then Inl (Exn UntrustedReceipt (''invalid '' @ label @ '' signature encoding''))
      else if ed25519_check C key_hex (jstr (jget envelope ''signature_hex'')) payload = Some True then Inr ()
      else Inl (Exn UntrustedReceipt (''invalid '' @ label @ '' signature'')))"

text \<open>Everything that is raised inside the checks leaves them as \<^verbatim>\<open>UntrustedReceipt\<close>.\<close>

definition untrusted :: "string \<Rightarrow> 'a res \<Rightarrow> 'a res" where
  "untrusted msg r = (case r of
     Inl e \<Rightarrow> if exn_class e = UntrustedReceipt then Inl e else Inl (Exn UntrustedReceipt msg) | Inr x \<Rightarrow> Inr x)"

definition require :: "bool \<Rightarrow> string \<Rightarrow> unit res" where
  "require b msg = (if b then Inr () else Inl (Exn UntrustedReceipt msg))"

text \<open>\<open>now\<close> is \<open>JNull\<close> for a historical check.\<close>

definition authorization_checks :: "crypto \<Rightarrow> resolver \<Rightarrow> json \<Rightarrow> json \<Rightarrow> string \<Rightarrow> json \<Rightarrow> unit res" where
  "authorization_checks C fs authorization descriptor action now =
     bindE (normalize_queued_descriptor fs descriptor) (\<lambda>desc.
     bindE (parse_demo_action action) (\<lambda>_.
     case authorization of
       JObj d \<Rightarrow>
         bindE (require (set (map fst d) = set (authorization_fields @ [''signature_hex'']))
                  ''unexpected or missing queued authorization fields'') (\<lambda>_.
         bindE (canonical_queued_json authorization) (\<lambda>raw.
         bindE (require (length raw \<le> 8192) ''queued authorization exceeds byte limit'') (\<lambda>_.
         bindE (require (list_all (\<lambda>n. queued_identifier (jget d n)) [''tenant_id'', ''store_id'', ''owner_id'', ''agent_id'', ''task_id'',
                    ''context_id'', ''target_id'', ''destination_id'', ''operation_id'', ''attempt_id'', ''fence_scope'', ''fence_owner'', ''authorizer_key_id''])
                  ''invalid queued authorization identifier'') (\<lambda>_.
         bindE (require (list_all (\<lambda>n. queued_hex 64 (jget d n)) [''authority_sha256'', ''intent_sha256'', ''admission_link_sha256'', ''fingerprint'',
                    ''original_action_sha256'', ''target_configuration_sha256'', ''action_sha256''])
                  ''invalid queued authorization digest'') (\<lambda>_.
         bindE (queued_descriptor_sha256 C fs (JObj desc)) (\<lambda>config.
         bindE (require (jget d ''domain'' = JStr ''agentbridge.queued-authorization.v2''
                    \<and> jget d ''tenant_id'' = jget desc ''tenant_id'' \<and> jget d ''target_id'' = jget desc ''target_id''
                    \<and> jget d ''destination_id'' = jget desc ''destination_id'' \<and> jget d ''authorizer_key_id'' = jget desc ''authorizer_key_id''
                    \<and> jget d ''target_configuration_sha256'' = JStr config \<and> jget d ''action_sha256'' = JStr (sha_hex C action))
                  ''queued authorization disagrees with configured destination or action'') (\<lambda>_.
         bindE (require ((case jget d ''fence_epoch'' of JInt n \<Rightarrow> 1 \<le> n \<and> n \<le> 9223372036854775807 | _ \<Rightarrow> False)
                    \<and> (case jget d ''result_limit_bytes'' of JInt n \<Rightarrow> 1 \<le> n \<and> n \<le> 1048576 | _ \<Rightarrow> False))
                  ''invalid queued authorization epoch or result limit'') (\<lambda>_.
         bindE (require (queued_seconds (jget d ''issued_at'') \<and> queued_seconds (jget d ''expires_at'')
                    \<and> num_value (jget d ''issued_at'') < num_value (jget d ''expires_at'')
                    \<and> num_value (jget d ''expires_at'') \<le> num_plus (jget d ''issued_at'') (jget desc ''call_timeout_seconds''))
                  ''invalid queued authorization window'') (\<lambda>_.
         bindE (require (now = JNull \<or> queued_seconds now \<and> num_value (jget d ''issued_at'') \<le> num_value now
                    \<and> num_value now < num_value (jget d ''expires_at''))
                  ''queued execution authorization is expired or not yet valid'') (\<lambda>_.
         bindE (canonical_queued_authorization_payload d) (\<lambda>payload.
         verify_queued_signature C d payload (jstr (jget desc ''authorizer_public_key_hex'')) ''queued authorization'')))))))))))
     | _ \<Rightarrow> Inl (Exn UntrustedReceipt ''unexpected or missing queued authorization fields'')))"

definition verify_queued_authorization :: "crypto \<Rightarrow> resolver \<Rightarrow> json \<Rightarrow> json \<Rightarrow> string \<Rightarrow> json \<Rightarrow> string res" where
  "verify_queued_authorization C fs authorization descriptor action now =
     bindE (untrusted ''malformed queued authorization or destination configuration''
              (authorization_checks C fs authorization descriptor action now)) (\<lambda>_.
     queued_authorization_sha256 C authorization)"

section \<open>Receipts\<close>

definition canonical_queued_receipt_payload :: "fields \<Rightarrow> string res" where
  "canonical_queued_receipt_payload d = canonical_queued_json (JObj (pick queued_receipt_fields d))"

definition bound_fields :: "string list" where
  "bound_fields = [''tenant_id'', ''agent_id'', ''operation_id'', ''fingerprint'',
     ''target_id'', ''destination_id'', ''attempt_id'', ''fence_epoch'', ''action_sha256'']"

definition fields_of :: "json \<Rightarrow> fields" where
  "fields_of v = (case v of JObj d \<Rightarrow> d | _ \<Rightarrow> [])"

text \<open>
  The fields are compared in value and type; the expected values are strings and an int, on which
  that is equality.
\<close>

definition receipt_checks :: "crypto \<Rightarrow> resolver \<Rightarrow> json \<Rightarrow> fields \<Rightarrow> string \<Rightarrow> string \<Rightarrow> json \<Rightarrow> json \<Rightarrow> unit res" where
  "receipt_checks C fs receipt auth digest action descriptor result =
     bindE (normalize_queued_descriptor fs descriptor) (\<lambda>desc.
     case receipt of
       JObj d \<Rightarrow>
         bindE (require (set (map fst d) = set (queued_receipt_fields @ [''signature_hex'']))
                  ''unexpected or missing queued receipt fields'') (\<lambda>_.
         bindE (canonical_queued_json receipt) (\<lambda>raw.
         bindE (require (length raw \<le> 16384) ''queued receipt exceeds byte limit'') (\<lambda>_.
         case result of
           JObj res \<Rightarrow>
             bindE (canonical_queued_json result) (\<lambda>result_raw.
             bindE (demo_result C action digest) (\<lambda>expected.
             bindE (canonical_queued_json (JObj expected)) (\<lambda>expected_raw.
             bindE (require (result_raw = expected_raw \<and> length result_raw \<le> 512)
                      ''queued result is not the exact bounded demonstration effect'') (\<lambda>_.
             bindE (require (jget d ''domain'' = JStr ''agentbridge.queued-receipt.v2'' \<and> jget d ''authorization_sha256'' = JStr digest
                        \<and> list_all (\<lambda>n. jget d n = jget auth n) bound_fields
                        \<and> jget d ''outcome'' = JStr ''succeeded'' \<and> jget d ''external_reference'' = jget res ''effect_id''
                        \<and> jget d ''result_sha256'' = JStr (sha_hex C result_raw)
                        \<and> jget d ''destination_key_id'' = jget desc ''destination_key_id'')
                      ''queued receipt does not match exact authorization and result'') (\<lambda>_.
             bindE (require (queued_seconds (jget d ''committed_at'')
                        \<and> num_value (jget auth ''issued_at'') \<le> num_value (jget d ''committed_at'')
                        \<and> num_value (jget d ''committed_at'') < num_value (jget auth ''expires_at''))
                      ''queued receipt commit is outside signed execution window'') (\<lambda>_.
             bindE (canonical_queued_receipt_payload d) (\<lambda>payload.
             verify_queued_signature C d payload (jstr (jget desc ''destination_public_key_hex'')) ''queued destination'')))))))
         | _ \<Rightarrow> Inl (Exn UntrustedReceipt ''queued result is not the exact bounded demonstration effect''))))
     | _ \<Rightarrow> Inl (Exn UntrustedReceipt ''unexpected or missing queued receipt fields''))"

definition verify_queued_destination_receipt ::
  "crypto \<Rightarrow> resolver \<Rightarrow> json \<Rightarrow> json \<Rightarrow> string \<Rightarrow> json \<Rightarrow> json \<Rightarrow> string res" where
  "verify_queued_destination_receipt C fs receipt authorization action descriptor result =
     bindE (verify_queued_authorization C fs authorization descriptor action JNull) (\<lambda>digest.
     bindE (untrusted ''malformed queued destination receipt or result''
              (receipt_checks C fs receipt (fields_of authorization) digest action descriptor result)) (\<lambda>_.
     bindE (canonical_queued_json receipt) (\<lambda>raw. Inr (sha_hex C raw))))"

section \<open>The queued destination file\<close>

definition queued_table_sql :: "(string \<times> string) list" where
  "queued_table_sql =
     [(''ab_destination_fences'',
       ''CREATE TABLE ab_destination_fences (scope TEXT PRIMARY KEY, owner TEXT NOT NULL, '' @
       ''epoch INTEGER NOT NULL, expires_seconds REAL NOT NULL)''),
      (''ab_queued_destination_binding_v2'',
       ''CREATE TABLE ab_queued_destination_binding_v2 (singleton INTEGER NOT NULL PRIMARY KEY CHECK(singleton=1),'' @
       ''version INTEGER NOT NULL CHECK(version=2),descriptor_json TEXT NOT NULL '' @
       ''CHECK(length(CAST(descriptor_json AS BLOB)) BETWEEN 1 AND 8192),'' @
       ''descriptor_sha256 TEXT NOT NULL CHECK(length(descriptor_sha256)=64),'' @
       ''schema_sha256 TEXT NOT NULL CHECK(length(schema_sha256)=64))''),
      (''ab_queued_effects_v2'',
       ''CREATE TABLE ab_queued_effects_v2 (tenant_id TEXT NOT NULL CHECK(length(tenant_id) BETWEEN 1 AND 128),'' @
       ''agent_id TEXT NOT NULL CHECK(length(agent_id) BETWEEN 1 AND 128),'' @
       ''operation_id TEXT NOT NULL CHECK(length(operation_id) BETWEEN 1 AND 128),'' @
       ''authorization_sha256 TEXT NOT NULL CHECK(length(authorization_sha256)=64),'' @
       ''fingerprint TEXT NOT NULL CHECK(length(fingerprint)=64),'' @
       ''attempt_id TEXT NOT NULL CHECK(length(attempt_id) BETWEEN 1 AND 128),'' @
       ''action_sha256 TEXT NOT NULL CHECK(length(action_sha256)=64),'' @
       ''action_bytes BLOB NOT NULL CHECK(length(action_bytes) BETWEEN 1 AND 4096),'' @
       ''authorization_json TEXT NOT NULL CHECK(length(CAST(authorization_json AS BLOB)) BETWEEN 1 AND 8192),'' @
       ''result_json TEXT NOT NULL CHECK(length(CAST(result_json AS BLOB)) BETWEEN 1 AND 512),'' @
       ''result_sha256 TEXT NOT NULL CHECK(length(result_sha256)=64),'' @
       ''receipt_json TEXT NOT NULL CHECK(length(CAST(receipt_json AS BLOB)) BETWEEN 1 AND 16384),'' @
       ''receipt_sha256 TEXT NOT NULL CHECK(length(receipt_sha256)=64),'' @
       ''effect_id TEXT NOT NULL CHECK(length(effect_id)=88),'' @
       ''committed_at REAL NOT NULL CHECK(committed_at>0 AND committed_at<=253402300800),'' @
       ''fence_scope TEXT NOT NULL CHECK(length(fence_scope) BETWEEN 1 AND 128),'' @
       ''fence_owner TEXT NOT NULL CHECK(length(fence_owner) BETWEEN 1 AND 128),'' @
       ''fence_epoch INTEGER NOT NULL CHECK(fence_epoch>=1),'' @
       ''PRIMARY KEY(tenant_id,agent_id,operation_id),UNIQUE(tenant_id,attempt_id))'')]"

definition queued_trigger_sql :: "(string \<times> string) list" where
  "queued_trigger_sql =
     [(name, ''CREATE TRIGGER '' @ name @ '' BEFORE '' @ operation @ '' ON '' @ table @ '' BEGIN '' @
             ''SELECT RAISE(ABORT,'' @ [CHR 0x27] @ ''immutable queued destination record'' @ [CHR 0x27] @ ''); END'').
        table \<leftarrow> [''ab_queued_destination_binding_v2'', ''ab_queued_effects_v2''],
        operation \<leftarrow> [''UPDATE'', ''DELETE''],
        name \<leftarrow> [table @ ''_deny_'' @ py_lower operation]]"

definition sql_texts :: "(string \<times> string) list \<Rightarrow> json" where
  "sql_texts d = JObj (map (\<lambda>(k, v). (k, JStr v)) d)"

definition queued_schema_sha256 :: "crypto \<Rightarrow> string" where
  "queued_schema_sha256 C = sha_hex C (dumps_compact (JObj [(''tables'', sql_texts queued_table_sql), (''triggers'', sql_texts queued_trigger_sql)]))"

text \<open>The keys SQLite makes for these tables; a rowid alias has none.\<close>

definition queued_keys :: "(string \<times> string list list) list" where
  "queued_keys = [(''ab_destination_fences'', [[''scope'']]), (''ab_queued_destination_binding_v2'', []),
     (''ab_queued_effects_v2'', [[''tenant_id'', ''agent_id'', ''operation_id''], [''tenant_id'', ''attempt_id'']])]"

definition table_indexes :: "sqlite_dest \<Rightarrow> string \<Rightarrow> index_row list" where
  "table_indexes s t = (case map_of (sd_indexes s) t of None \<Rightarrow> [] | Some xs \<Rightarrow> xs)"

definition visible_master :: "sqlite_dest \<Rightarrow> (string \<times> string \<times> string) list" where
  "visible_master s = filter (\<lambda>(name, _). \<not> sql_like ''sqlite_%'' name) (sd_master s)"

definition keys_qualified :: "sqlite_dest \<Rightarrow> (string \<times> string list list) list \<Rightarrow> unit res" where
  "keys_qualified s tables =
     foldr (\<lambda>(t, keys) rest.
       let indexes = table_indexes s t in
       if list_ex (\<lambda>i. \<not> ix_unique i \<or> ix_partial i \<or> ix_origin i \<notin> {''pk'', ''u''}) indexes
       then Inl (Exn ValueError ''unsupported queued destination index'')
       else if set (map ix_columns indexes) \<noteq> set keys \<or> length indexes \<noteq> length keys
       then Inl (Exn ValueError ''unexpected queued destination uniqueness restrictions'')
       else rest) tables (Inr ())"

definition qualify_queued_destination :: "crypto \<Rightarrow> resolver \<Rightarrow> fields \<Rightarrow> sqlite_dest \<Rightarrow> unit res" where
  "qualify_queued_destination C fs desc s =
     (let expected = queued_table_sql @ queued_trigger_sql; rows = visible_master s in
      if set (map fst rows) \<noteq> set (map fst expected)
      then Inl (Exn ValueError ''partial, unqualified or unexpected queued destination schema'')
      else if list_ex (\<lambda>(name, kind, sql).
                kind \<noteq> (if name \<in> set (map fst queued_table_sql) then ''table'' else ''trigger'') \<or> map_of expected name \<noteq> Some sql) rows
      then Inl (Exn ValueError ''unsupported queued destination schema definition'')
      else bindE (keys_qualified s queued_keys) (\<lambda>_.
        case sd_binding s of
          [b] \<Rightarrow>
            if bd_singleton b \<noteq> 1 \<or> bd_version b \<noteq> 2
               \<or> \<not> (1 \<le> length (encode (bd_descriptor b)) \<and> length (encode (bd_descriptor b)) \<le> 8192)
               \<or> length (bd_descriptor_sha b) \<noteq> 64 \<or> length (bd_schema_sha b) \<noteq> 64
            then Inl (Exn ValueError ''queued destination binding is missing, oversized or unsupported'')
            else bindE (canonical_queued_json (JObj desc)) (\<lambda>raw.
                 bindE (if bd_descriptor b \<noteq> raw then Inr [] else queued_descriptor_sha256 C fs (JObj desc)) (\<lambda>sha.
                 if bd_descriptor b \<noteq> raw \<or> bd_descriptor_sha b \<noteq> sha \<or> bd_schema_sha b \<noteq> queued_schema_sha256 C
                 then Inl (Exn ValueError ''queued destination binding is missing, changed or unsupported'')
                 else Inr ()))
        | _ \<Rightarrow> Inl (Exn ValueError ''queued destination binding is missing, oversized or unsupported'')))"

text \<open>Creating the tables, the binding row and the triggers in an empty file, or qualifying what is there.\<close>

definition create_queued_tables :: "string \<Rightarrow> string \<Rightarrow> string \<Rightarrow> sqlite_dest \<Rightarrow> sqlite_dest" where
  "create_queued_tables raw sha schema s =
     s\<lparr>sd_master := sd_master s @ map (\<lambda>(n, sql). (n, ''table'', sql)) queued_table_sql @ map (\<lambda>(n, sql). (n, ''trigger'', sql)) queued_trigger_sql,
       sd_indexes := [(''ab_destination_fences'', [\<lparr>ix_unique = True, ix_partial = False, ix_origin = ''pk'', ix_columns = [''scope'']\<rparr>]),
         (''ab_queued_destination_binding_v2'', []),
         (''ab_queued_effects_v2'', [\<lparr>ix_unique = True, ix_partial = False, ix_origin = ''u'', ix_columns = [''tenant_id'', ''attempt_id'']\<rparr>,
            \<lparr>ix_unique = True, ix_partial = False, ix_origin = ''pk'', ix_columns = [''tenant_id'', ''agent_id'', ''operation_id'']\<rparr>])],
       sd_binding := [\<lparr>bd_singleton = 1, bd_version = 2, bd_descriptor = raw, bd_descriptor_sha = sha, bd_schema_sha = schema\<rparr>]\<rparr>"

definition initialize_queued :: "crypto \<Rightarrow> resolver \<Rightarrow> fields \<Rightarrow> (sqlite_dest, unit) prog" where
  "initialize_queued C fs desc =
     sql_atomic (bindP
       (\<lambda>s. if visible_master s \<noteq> [] then (Inr (), s)
            else (case (canonical_queued_json (JObj desc), queued_descriptor_sha256 C fs (JObj desc)) of
                    (Inr raw, Inr sha) \<Rightarrow>
                      if 1 \<le> length raw \<and> length raw \<le> 8192 \<and> length sha = 64 \<and> length (queued_schema_sha256 C) = 64
                      then (Inr (), create_queued_tables raw sha (queued_schema_sha256 C) s)
                      else (Inl (Exn IntegrityError ''CHECK constraint failed''), s)
                  | (Inl e, _) \<Rightarrow> (Inl e, s)
                  | (_, Inl e) \<Rightarrow> (Inl e, s)))
       (\<lambda>_ s. (qualify_queued_destination C fs desc s, s)))"

text \<open>\<^verbatim>\<open>CREATE TABLE IF NOT EXISTS\<close> of the first contract.\<close>

definition create_if_missing :: "string \<Rightarrow> string \<Rightarrow> index_row list \<Rightarrow> sqlite_dest \<Rightarrow> sqlite_dest" where
  "create_if_missing name sql ix s =
     (if list_ex (\<lambda>(n, _). py_lower n = py_lower name) (sd_master s) then s
      else s\<lparr>sd_master := sd_master s @ [(name, ''table'', sql)], sd_indexes := sd_indexes s @ [(name, ix)]\<rparr>)"

definition initialize_v1 :: "sqlite_dest \<Rightarrow> sqlite_dest" where
  "initialize_v1 s =
     create_if_missing ''sandbox_effects''
       (''CREATE TABLE sandbox_effects (agent_id TEXT NOT NULL, operation_id TEXT NOT NULL, '' @
        ''fingerprint TEXT NOT NULL, outcome TEXT NOT NULL, '' @ ''external_reference TEXT NOT NULL, receipt_json TEXT NOT NULL, '' @
        ''PRIMARY KEY(agent_id,operation_id))'')
       [\<lparr>ix_unique = True, ix_partial = False, ix_origin = ''pk'', ix_columns = [''agent_id'', ''operation_id'']\<rparr>]
     (create_if_missing ''ab_destination_fences''
       (''CREATE TABLE ab_destination_fences (scope TEXT PRIMARY KEY, owner TEXT NOT NULL, epoch INTEGER NOT NULL, '' @
        ''expires_seconds REAL NOT NULL)'')
       [\<lparr>ix_unique = True, ix_partial = False, ix_origin = ''pk'', ix_columns = [''scope'']\<rparr>] s)"

text \<open>The constructor; its result is the descriptor the target keeps.\<close>

definition open_target :: "crypto \<Rightarrow> resolver \<Rightarrow> string \<Rightarrow> json option \<Rightarrow> (sqlite_dest, fields option) prog" where
  "open_target C fs path queued_descriptor =
     bindP (checkP (path \<noteq> [] \<and> path \<noteq> '':memory:'') ValueError ''single durable disposable SQLite destination required'') (\<lambda>_.
     case queued_descriptor of
       Some descriptor \<Rightarrow>
         bindP (liftP (normalize_queued_descriptor fs descriptor)) (\<lambda>desc.
         case (fs path, fs (jstr (jget desc ''path''))) of
           (Some p, Some q) \<Rightarrow>
             bindP (checkP (p = q) ValueError ''queued descriptor does not bind this exact destination file'') (\<lambda>_.
             bindP (initialize_queued C fs desc) (\<lambda>_. retP (Some desc)))
         | _ \<Rightarrow> raiseP OtherError ''path resolution failed'')
     | None \<Rightarrow>
         bindP (getP queued_tables) (\<lambda>tables.
         bindP (checkP (\<not> tables) ValueError ''queued-only destination file rejects v1 target access'') (\<lambda>_.
         bindP (putP initialize_v1) (\<lambda>_. retP None))))"

section \<open>Applying an authorized action\<close>

text \<open>The constraints of the effect table.\<close>

definition queued_row_ok :: "queued_row \<Rightarrow> bool" where
  "queued_row_ok r \<longleftrightarrow>
     list_all (\<lambda>s. 1 \<le> length s \<and> length s \<le> 128) [qe_tenant r, qe_agent r, qe_operation r, qe_attempt r, qe_scope r, qe_owner r]
     \<and> list_all (\<lambda>s. length s = 64) [qe_authorization_sha r, qe_fingerprint r, qe_action_sha r, qe_result_sha r, qe_receipt_sha r]
     \<and> 1 \<le> length (qe_action r) \<and> length (qe_action r) \<le> 4096
     \<and> 1 \<le> length (encode (qe_authorization r)) \<and> length (encode (qe_authorization r)) \<le> 8192
     \<and> 1 \<le> length (encode (qe_result r)) \<and> length (encode (qe_result r)) \<le> 512
     \<and> 1 \<le> length (encode (qe_receipt r)) \<and> length (encode (qe_receipt r)) \<le> 16384
     \<and> length (qe_effect r) = 88 \<and> 0 < qe_committed r \<and> qe_committed r \<le> 253402300800 \<and> 1 \<le> qe_epoch r"

definition same_operation :: "queued_row \<Rightarrow> queued_row \<Rightarrow> bool" where
  "same_operation r q \<longleftrightarrow> qe_tenant r = qe_tenant q \<and>
     (qe_agent r = qe_agent q \<and> qe_operation r = qe_operation q \<or> qe_attempt r = qe_attempt q)"

definition insert_queued :: "queued_row \<Rightarrow> (sqlite_dest, unit) prog" where
  "insert_queued r s =
     (if \<not> queued_row_ok r then (Inl (Exn IntegrityError ''CHECK constraint failed''), s)
      else if list_ex (same_operation r) (sd_queued s) then (Inl (Exn IntegrityError ''UNIQUE constraint failed''), s)
      else (Inr (), s\<lparr>sd_queued := sd_queued s @ [r]\<rparr>))"

definition fence_allows :: "fields \<Rightarrow> rat fence \<Rightarrow> rat \<Rightarrow> bool" where
  "fence_allows auth f now \<longleftrightarrow> fn_owner f = jstr (jget auth ''fence_owner'') \<and> JInt (fn_epoch f) = jget auth ''fence_epoch''
     \<and> \<not> fn_expires f \<le> now \<and> \<not> num_value (jget auth ''expires_at'') > fn_expires f"

definition unsigned_queued_receipt :: "crypto \<Rightarrow> fields \<Rightarrow> fields \<Rightarrow> string \<Rightarrow> fields \<Rightarrow> string \<Rightarrow> rat \<Rightarrow> fields" where
  "unsigned_queued_receipt C desc auth digest result result_raw now =
     [(''domain'', JStr ''agentbridge.queued-receipt.v2''), (''authorization_sha256'', JStr digest)]
     @ pick bound_fields auth
     @ [(''outcome'', JStr ''succeeded''), (''external_reference'', jget result ''effect_id''),
        (''committed_at'', JFloat (Fin now)), (''result_sha256'', JStr (sha_hex C result_raw)),
        (''destination_key_id'', jget desc ''destination_key_id'')]"

definition sign_queued :: "signer \<Rightarrow> fields \<Rightarrow> fields res" where
  "sign_queued sign d =
     bindE (canonical_queued_receipt_payload d) (\<lambda>payload.
     bindE (sign payload) (\<lambda>sg.
       case sg of
         None \<Rightarrow> Inl (Exn ValueError ''destination signature invalid'')
       | Some b \<Rightarrow> if length b \<noteq> 64 then Inl (Exn ValueError ''destination signature invalid'')
                   else Inr (d @ [(''signature_hex'', JStr (to_hex b))])))"

definition queued_row_of ::
  "fields \<Rightarrow> string \<Rightarrow> string \<Rightarrow> string \<Rightarrow> fields \<Rightarrow> string \<Rightarrow> fields \<Rightarrow> string \<Rightarrow> string \<Rightarrow> rat \<Rightarrow> queued_row" where
  "queued_row_of auth digest action auth_raw result result_raw receipt receipt_raw receipt_digest now =
     \<lparr>qe_tenant = jstr (jget auth ''tenant_id''), qe_agent = jstr (jget auth ''agent_id''),
      qe_operation = jstr (jget auth ''operation_id''), qe_authorization_sha = digest,
      qe_fingerprint = jstr (jget auth ''fingerprint''), qe_attempt = jstr (jget auth ''attempt_id''),
      qe_action_sha = jstr (jget auth ''action_sha256''), qe_action = action, qe_authorization = auth_raw,
      qe_result = result_raw, qe_result_sha = jstr (jget receipt ''result_sha256''), qe_receipt = receipt_raw,
      qe_receipt_sha = receipt_digest, qe_effect = jstr (jget result ''effect_id''), qe_committed = now,
      qe_scope = jstr (jget auth ''fence_scope''), qe_owner = jstr (jget auth ''fence_owner''),
      qe_epoch = jint (jget auth ''fence_epoch'')\<rparr>"

text \<open>
  The transaction, on the authorization read back from its canonical text.  \<open>now\<close> is the clock after
  the write lock is taken, \<open>now'\<close> the clock after signing.
\<close>

definition queued_transaction ::
  "crypto \<Rightarrow> resolver \<Rightarrow> signer \<Rightarrow> fields \<Rightarrow> fields \<Rightarrow> string \<Rightarrow> rat \<Rightarrow> rat \<Rightarrow> (sqlite_dest, fields \<times> fields) prog" where
  "queued_transaction C fs sign desc auth action now now' =
     bindP (\<lambda>s. (qualify_queued_destination C fs desc s, s)) (\<lambda>_.
     bindP (getP (\<lambda>s. map_of (fd_fences s) (jstr (jget auth ''fence_scope'')))) (\<lambda>row.
     case row of
       None \<Rightarrow> raiseP SqliteFenceDenied ''missing authoritative queued destination fence''
     | Some f \<Rightarrow>
         bindP (liftP (verify_queued_authorization C fs (JObj auth) (JObj desc) action (JFloat (Fin now)))) (\<lambda>digest.
         bindP (checkP (fence_allows auth f now) SqliteFenceDenied ''stale, expired or unauthorized queued destination fence'') (\<lambda>_.
         bindP (checkP (\<not> num_value (jget auth ''result_limit_bytes'') < 65536) ValueError
                  ''immutable result allowance cannot hold bounded queued evidence'') (\<lambda>_.
         bindP (getP (\<lambda>s. list_ex (\<lambda>r. qe_tenant r = jstr (jget auth ''tenant_id'') \<and>
                  (qe_agent r = jstr (jget auth ''agent_id'') \<and> qe_operation r = jstr (jget auth ''operation_id'')
                   \<or> qe_attempt r = jstr (jget auth ''attempt_id''))) (sd_queued s))) (\<lambda>duplicate.
         bindP (checkP (\<not> duplicate) SqliteDuplicateEffect ''queued operation or attempt already executed; no replay'') (\<lambda>_.
         bindP (liftP (demo_result C action digest)) (\<lambda>result.
         bindP (liftP (canonical_queued_json (JObj result))) (\<lambda>result_raw.
         bindP (liftP (sign_queued sign (unsigned_queued_receipt C desc auth digest result result_raw now))) (\<lambda>receipt.
         bindP (liftP (verify_queued_destination_receipt C fs (JObj receipt) (JObj auth) action (JObj desc) (JObj result))) (\<lambda>receipt_digest.
         bindP (checkP (fence_allows auth f now') SqliteFenceDenied ''queued destination fence expired or changed while signing'') (\<lambda>_.
         bindP (liftP (verify_queued_authorization C fs (JObj auth) (JObj desc) action (JFloat (Fin now')))) (\<lambda>_.
         bindP (liftP (canonical_queued_json (JObj auth))) (\<lambda>auth_raw.
         bindP (liftP (canonical_queued_json (JObj receipt))) (\<lambda>receipt_raw.
         bindP (insert_queued (queued_row_of auth digest action auth_raw result result_raw receipt receipt_raw receipt_digest now)) (\<lambda>_.
         retP (result, receipt)))))))))))))))))"

definition commit_queued ::
  "crypto \<Rightarrow> resolver \<Rightarrow> signer \<Rightarrow> fields option \<Rightarrow> json \<Rightarrow> string \<Rightarrow> bool \<Rightarrow> rat \<Rightarrow> rat
     \<Rightarrow> (sqlite_dest, fields \<times> fields) prog" where
  "commit_queued C fs sign descriptor authorization action lose_ack now now' =
     (case descriptor of
        None \<Rightarrow> raiseP ValueError ''queued-only operator destination configuration required''
      | Some desc \<Rightarrow>
          bindP (liftP (verify_queued_authorization C fs authorization (JObj desc) action JNull)) (\<lambda>_.
          bindP (liftP (canonical_queued_json authorization)) (\<lambda>raw.
          case loads raw of
            Some (JObj auth) \<Rightarrow>
              bindP (sql_atomic (queued_transaction C fs sign desc auth action now now')) (\<lambda>out.
              if lose_ack then raiseP TimeoutError ''committed queued SQLite destination effect; acknowledgement dropped''
              else retP out)
          | _ \<Rightarrow> raiseP ValueError ''JSONDecodeError'')))"

section \<open>What an accepted authorization is\<close>

lemma untrusted_Inr [simp]: "untrusted msg r = Inr x \<longleftrightarrow> r = Inr x"
  by (cases r) (auto simp: untrusted_def)

lemma require_Inr [simp]: "require b msg = Inr u \<longleftrightarrow> b"
  by (simp add: require_def)

lemma canonical_queued_Inr: "canonical_queued_json v = Inr raw \<longleftrightarrow> finite_json v \<and> raw = dumps_compact v"
  by (auto simp: canonical_queued_json_def dumps_strict_def)

lemma normalized_is_object: "normalize_queued_descriptor fs v = Inr desc \<Longrightarrow> \<exists>d. v = JObj d"
  by (cases v) (simp_all add: normalize_queued_descriptor_def)

lemma verify_signature_ok: "verify_queued_signature C env payload key label = Inr u \<Longrightarrow> queued_hex 128 (jget env ''signature_hex'')"
  by (auto simp: verify_queued_signature_def split: if_splits)

text \<open>The checks on the fields of an authorization, as one predicate.\<close>

definition authorization_sound :: "crypto \<Rightarrow> fields \<Rightarrow> string \<Rightarrow> json \<Rightarrow> bool" where
  "authorization_sound C d action now \<longleftrightarrow>
     set (map fst d) = set (authorization_fields @ [''signature_hex'']) \<and> finite_json (JObj d)
     \<and> length (dumps_compact (JObj d)) \<le> 8192
     \<and> list_all (\<lambda>n. queued_identifier (jget d n)) [''tenant_id'', ''store_id'', ''owner_id'', ''agent_id'', ''task_id'',
          ''context_id'', ''target_id'', ''destination_id'', ''operation_id'', ''attempt_id'', ''fence_scope'', ''fence_owner'', ''authorizer_key_id'']
     \<and> list_all (\<lambda>n. queued_hex 64 (jget d n)) [''authority_sha256'', ''intent_sha256'', ''admission_link_sha256'', ''fingerprint'',
          ''original_action_sha256'', ''target_configuration_sha256'', ''action_sha256'']
     \<and> jget d ''domain'' = JStr ''agentbridge.queued-authorization.v2'' \<and> jget d ''action_sha256'' = JStr (sha_hex C action)
     \<and> (\<exists>e. jget d ''fence_epoch'' = JInt e \<and> 1 \<le> e) \<and> (\<exists>l. jget d ''result_limit_bytes'' = JInt l)
     \<and> queued_seconds (jget d ''issued_at'') \<and> queued_seconds (jget d ''expires_at'')
     \<and> (now = JNull \<or> queued_seconds now \<and> num_value (jget d ''issued_at'') \<le> num_value now \<and> num_value now < num_value (jget d ''expires_at''))
     \<and> queued_hex 128 (jget d ''signature_hex'') \<and> (\<exists>w. parse_demo_action action = Inr w)"

lemma epoch_case: "(case v of JInt n \<Rightarrow> 1 \<le> n \<and> n \<le> m | _ \<Rightarrow> False) \<longleftrightarrow> (\<exists>n. v = JInt n \<and> 1 \<le> n \<and> n \<le> m)"
  by (auto split: json.splits)

lemma authorization_accepted:
  assumes "verify_queued_authorization C fs authorization descriptor action now = Inr digest"
  obtains d where "authorization = JObj d" and "authorization_sound C d action now" and "digest = sha_hex C (dumps_compact (JObj d))"
proof -
  from assms obtain d where d: "authorization = JObj d"
    by (cases authorization) (simp_all add: verify_queued_authorization_def authorization_checks_def bindE_Inr_iff)
  have "\<exists>w. parse_demo_action action = Inr w"
    using assms by (auto simp: verify_queued_authorization_def authorization_checks_def bindE_Inr_iff)
  moreover have "authorization_sound C d action now" if "\<exists>w. parse_demo_action action = Inr w"
    using assms [unfolded d verify_queued_authorization_def authorization_checks_def] that
    unfolding authorization_sound_def
    apply (simp only: bindE_Inr_iff untrusted_Inr require_Inr json.case epoch_case canonical_queued_Inr)
    apply (elim exE conjE)
    apply (intro conjI; (assumption | erule verify_signature_ok | blast)?)
    done
  moreover have "digest = sha_hex C (dumps_compact (JObj d))"
    using assms by (simp add: d verify_queued_authorization_def queued_authorization_sha256_def bindE_Inr_iff canonical_queued_Inr)
  ultimately show ?thesis using that d by blast
qed

section \<open>Reading a record back\<close>

text \<open>Objects with the same fields: what the stored, key-sorted text gives back.\<close>

definition same_object :: "fields \<Rightarrow> fields \<Rightarrow> bool" where
  "same_object d e \<longleftrightarrow> jget d = jget e \<and> set (map fst d) = set (map fst e) \<and> sort_json (JObj d) = sort_json (JObj e)
     \<and> finite_json (JObj d) = finite_json (JObj e)"

lemma same_object_canonical: "same_object d e \<Longrightarrow> canonical_queued_json (JObj d) = canonical_queued_json (JObj e)"
  by (simp add: same_object_def canonical_queued_json_def dumps_strict_def dumps_compact_def del: sort_json.simps finite_json.simps)

lemma pick_same: "same_object d e \<Longrightarrow> pick names d = pick names e"
  by (simp add: same_object_def pick_def)

lemma verify_authorization_same:
  assumes "same_object d e"
  shows "verify_queued_authorization C fs (JObj d) desc action now = verify_queued_authorization C fs (JObj e) desc action now"
proof -
  have j: "jget d = jget e" and k: "set (map fst d) = set (map fst e)" using assms by (simp_all add: same_object_def)
  show ?thesis
    unfolding verify_queued_authorization_def authorization_checks_def queued_authorization_sha256_def json.case
      canonical_queued_authorization_payload_def verify_queued_signature_def pick_same [OF assms] same_object_canonical [OF assms] j k ..
qed

lemma verify_receipt_same:
  assumes "same_object r r'" and "same_object d e" and "same_object res res'"
  shows "verify_queued_destination_receipt C fs (JObj r) (JObj d) action desc (JObj res)
    = verify_queued_destination_receipt C fs (JObj r') (JObj e) action desc (JObj res')"
proof -
  have j: "jget r = jget r'" "jget d = jget e" "jget res = jget res'" and k: "set (map fst r) = set (map fst r')"
    using assms by (simp_all add: same_object_def)
  show ?thesis
    unfolding verify_queued_destination_receipt_def receipt_checks_def fields_of_def json.case canonical_queued_receipt_payload_def
      verify_queued_signature_def verify_authorization_same [OF assms(2)]
      pick_same [OF assms(1)] same_object_canonical [OF assms(1)] same_object_canonical [OF assms(3)] j k ..
qed

definition flat :: "fields \<Rightarrow> bool" where
  "flat d \<longleftrightarrow> distinct (map fst d) \<and> list_all (\<lambda>(k, v). sort_json v = v) d"

lemma finite_sort: "finite_json (sort_json j) = finite_json j"
proof (induction j)
  case (JObj d)
  then show ?case by (auto simp: list_all_iff Basic_BNFs.snds.simps)
qed (auto simp: list_all_iff)

lemma flat_sorted:
  assumes "flat d"
  obtains e where "sort_json (JObj d) = JObj e" and "same_object d e"
proof -
  obtain e where e: "sort_json (JObj d) = JObj e" by simp
  have m: "map_of e k = map_of d k" for k
  proof -
    have "map_option sort_json (map_of d k) = map_of d k"
      using assms map_of_SomeD [of d k] by (cases "map_of d k") (auto simp: flat_def list_all_iff)
    with sort_json_field [OF _ e, of k] assms show ?thesis by (simp add: flat_def)
  qed
  have "jget d = jget e" using m by (simp add: fun_eq_iff jget_def)
  moreover have "set (map fst d) = set (map fst e)"
  proof -
    have "map_of d = map_of e" using m by (intro ext) simp
    then show ?thesis by (metis dom_map_of_conv_image_fst list.set_map)
  qed
  moreover have "sort_json (JObj e) = sort_json (JObj d)" using sort_json_idem [of "JObj d"] by (simp only: e)
  moreover have "finite_json (JObj e) = finite_json (JObj d)" using finite_sort [of "JObj d"] by (simp only: e)
  ultimately show ?thesis using that [OF e] by (simp add: same_object_def del: sort_json.simps finite_json.simps)
qed

text \<open>An object whose values are all scalars is flat.\<close>

definition scalar :: "json \<Rightarrow> bool" where
  "scalar v \<longleftrightarrow> (case v of JArr _ \<Rightarrow> False | JObj _ \<Rightarrow> False | _ \<Rightarrow> True)"

lemma scalar_sort: "scalar v \<Longrightarrow> sort_json v = v"
  by (cases v) (simp_all add: scalar_def)

lemma scalar_flat:
  assumes "distinct (map fst d)" and "\<And>n. n \<in> set (map fst d) \<Longrightarrow> scalar (jget d n)"
  shows "flat d"
proof -
  have "sort_json v = v" if "(k, v) \<in> set d" for k v
  proof -
    have "jget d k = v" using map_of_is_SomeI [OF assms(1) that] by (simp add: jget_def)
    with assms(2) [of k] that show ?thesis by (force intro: scalar_sort)
  qed
  with assms(1) show ?thesis by (auto simp: flat_def list_all_iff)
qed

lemma identifier_scalar: "queued_identifier v \<Longrightarrow> scalar v" "queued_hex n v \<Longrightarrow> scalar v" "queued_seconds v \<Longrightarrow> scalar v"
  by (auto simp: queued_identifier_def queued_hex_def queued_seconds_def within_seconds_def scalar_def split: json.splits)

definition authorization_identifiers :: "string list" where
  "authorization_identifiers = [''tenant_id'', ''store_id'', ''owner_id'', ''agent_id'', ''task_id'',
     ''context_id'', ''target_id'', ''destination_id'', ''operation_id'', ''attempt_id'', ''fence_scope'', ''fence_owner'', ''authorizer_key_id'']"

definition authorization_digests :: "string list" where
  "authorization_digests = [''authority_sha256'', ''intent_sha256'', ''admission_link_sha256'', ''fingerprint'',
     ''original_action_sha256'', ''target_configuration_sha256'', ''action_sha256'']"

lemma authorization_field_kinds:
  "set (authorization_fields @ [''signature_hex'']) \<subseteq> set authorization_identifiers \<union> set authorization_digests
     \<union> {''domain'', ''fence_epoch'', ''result_limit_bytes'', ''issued_at'', ''expires_at'', ''signature_hex''}"
  by code_simp

lemma authorization_scalar:
  assumes "authorization_sound C d action now" and "n \<in> set (authorization_fields @ [''signature_hex''])"
  shows "scalar (jget d n)"
proof -
  have "\<forall>n\<in>set authorization_identifiers. scalar (jget d n)" "\<forall>n\<in>set authorization_digests. scalar (jget d n)"
    using assms(1) identifier_scalar
    unfolding authorization_sound_def list_all_iff authorization_identifiers_def authorization_digests_def by blast+
  moreover have "scalar (jget d ''domain'')" "scalar (jget d ''fence_epoch'')" "scalar (jget d ''result_limit_bytes'')"
    using assms(1) unfolding authorization_sound_def by (auto simp only: scalar_def json.case)
  moreover have "scalar (jget d ''issued_at'')" "scalar (jget d ''expires_at'')" "scalar (jget d ''signature_hex'')"
    using assms(1) identifier_scalar unfolding authorization_sound_def by blast+
  ultimately show ?thesis using authorization_field_kinds assms(2) by blast
qed

lemma authorization_flat:
  assumes "authorization_sound C d action now" and "distinct (map fst d)"
  shows "flat d"
  using scalar_flat [OF assms(2)] authorization_scalar [OF assms(1)] assms(1) unfolding authorization_sound_def by blast

section \<open>What a committed action leaves behind\<close>

text \<open>The steps of a transaction before its insert: everything the new row rests on.\<close>

definition prepared ::
  "crypto \<Rightarrow> resolver \<Rightarrow> signer \<Rightarrow> fields \<Rightarrow> fields \<Rightarrow> string \<Rightarrow> rat \<Rightarrow> rat \<Rightarrow> sqlite_dest \<Rightarrow> queued_row \<Rightarrow> fields \<Rightarrow> fields \<Rightarrow> bool" where
  "prepared C fs sign desc auth action now now' s row result receipt \<longleftrightarrow>
     (\<exists>f digest receipt_digest.
        qualify_queued_destination C fs desc s = Inr ()
        \<and> map_of (fd_fences s) (jstr (jget auth ''fence_scope'')) = Some f
        \<and> verify_queued_authorization C fs (JObj auth) (JObj desc) action (JFloat (Fin now)) = Inr digest
        \<and> fence_allows auth f now \<and> fence_allows auth f now'
        \<and> \<not> list_ex (same_operation row) (sd_queued s)
        \<and> demo_result C action digest = Inr result
        \<and> sign_queued sign (unsigned_queued_receipt C desc auth digest result (dumps_compact (JObj result)) now) = Inr receipt
        \<and> verify_queued_destination_receipt C fs (JObj receipt) (JObj auth) action (JObj desc) (JObj result) = Inr receipt_digest
        \<and> row = queued_row_of auth digest action (dumps_compact (JObj auth)) result (dumps_compact (JObj result)) receipt
            (dumps_compact (JObj receipt)) receipt_digest now)"

lemma same_operation_row:
  "same_operation (queued_row_of auth digest action auth_raw result result_raw receipt receipt_raw receipt_digest now) r \<longleftrightarrow>
     qe_tenant r = jstr (jget auth ''tenant_id'') \<and>
       (qe_agent r = jstr (jget auth ''agent_id'') \<and> qe_operation r = jstr (jget auth ''operation_id'') \<or> qe_attempt r = jstr (jget auth ''attempt_id''))"
  by (auto simp: same_operation_def queued_row_of_def)

lemma same_operation_fun:
  "same_operation (queued_row_of auth digest action auth_raw result result_raw receipt receipt_raw receipt_digest now) = (\<lambda>r.
     qe_tenant r = jstr (jget auth ''tenant_id'') \<and>
       (qe_agent r = jstr (jget auth ''agent_id'') \<and> qe_operation r = jstr (jget auth ''operation_id'') \<or> qe_attempt r = jstr (jget auth ''attempt_id'')))"
  by (rule ext) (rule same_operation_row)

lemma liftP_ok: "liftP r s = (Inr a, t) \<longleftrightarrow> r = Inr a \<and> t = s"
  by (auto simp: liftP_def)

lemma getP_ok: "getP f s = (Inr a, t) \<longleftrightarrow> a = f s \<and> t = s"
  by (auto simp: getP_def)

lemma queued_transaction_ok:
  assumes "queued_transaction C fs sign desc auth action now now' s = (Inr (result, receipt), s')"
  obtains row where "prepared C fs sign desc auth action now now' s row result receipt" and "insert_queued row s = (Inr (), s')"
proof -
  obtain f where f: "map_of (fd_fences s) (jstr (jget auth ''fence_scope'')) = Some f"
    using assms by (cases "map_of (fd_fences s) (jstr (jget auth ''fence_scope''))")
      (auto simp: queued_transaction_def bindP_def split: sum.splits)
  from assms show ?thesis
    unfolding queued_transaction_def
    apply (simp only: bindP_ok_iff [of "\<lambda>s. (qualify_queued_destination C fs desc s, s)"] bindP_ok_iff [of "getP _"] getP_ok prod.inject)
    apply clarify
    apply (simp only: f option.case bindP_ok_iff getP_ok liftP_ok checkP_ok_iff retP_def canonical_queued_Inr sum.inject prod.inject)
    apply clarify
    apply (rule that)
     apply (simp only: prepared_def)
     apply (intro exI conjI; (assumption | rule f | simp add: same_operation_fun))
    apply simp
    done
qed

lemma commit_queued_cases:
  assumes "commit_queued C fs sign descriptor authorization action lose_ack now now' s = (r, s')"
  obtains "s' = s"
  | desc auth out where "descriptor = Some desc" and "loads (dumps_compact authorization) = Some (JObj auth)"
      and "queued_transaction C fs sign desc auth action now now' s = (Inr out, s')"
proof (cases descriptor)
  case None
  with assms that(1) show ?thesis by (simp add: commit_queued_def)
next
  case (Some desc)
  note d = this
  show ?thesis
  proof (cases "verify_queued_authorization C fs authorization (JObj desc) action JNull")
    case (Inl e)
    with d assms that(1) show ?thesis by (simp add: commit_queued_def bindP_def)
  next
    case (Inr dg)
    note v = this
    show ?thesis
    proof (cases "canonical_queued_json authorization")
      case (Inl e)
      with d v assms that(1) show ?thesis by (simp add: commit_queued_def bindP_def)
    next
      case (Inr raw)
      note a = assms [unfolded commit_queued_def d option.case bindP_def v liftP_def prod.case sum.case Inr]
      have raw: "raw = dumps_compact authorization" using Inr by (simp add: canonical_queued_Inr)
      show ?thesis
      proof (cases "\<exists>auth. loads raw = Some (JObj auth)")
        case False
        with a that(1) show ?thesis by (auto split: option.splits json.splits)
      next
        case True
        then obtain auth where l: "loads raw = Some (JObj auth)" by blast
        obtain x t where x: "queued_transaction C fs sign desc auth action now now' s = (x, t)"
          by (cases "queued_transaction C fs sign desc auth action now now' s")
        show ?thesis
        proof (cases x)
          case (Inl e)
          with a l x that(1) show ?thesis by (simp add: sql_atomic_def)
        next
          case (Inr out)
          then have "s' = t" using a l x by (auto simp: sql_atomic_def split: if_splits)
          with that(2) [OF d] l raw x Inr show ?thesis by simp
        qed
      qed
    qed
  qed
qed

lemma commit_queued_effect:
  assumes "commit_queued C fs sign descriptor authorization action lose_ack now now' s = (r, s')"
  shows "s' = s \<or> (\<exists>desc auth result receipt row. descriptor = Some desc \<and> py_json (JObj auth)
           \<and> prepared C fs sign desc auth action now now' s row result receipt \<and> insert_queued row s = (Inr (), s'))"
  using assms
proof (cases rule: commit_queued_cases)
  case (2 desc auth out)
  obtain result receipt where "out = (result, receipt)" by (cases out)
  with queued_transaction_ok 2 loads_py show ?thesis by metis
qed simp

lemma insert_queued_ok:
  "insert_queued row s = (Inr u, s') \<longleftrightarrow> queued_row_ok row \<and> \<not> list_ex (same_operation row) (sd_queued s) \<and> s' = s\<lparr>sd_queued := sd_queued s @ [row]\<rparr>"
  by (auto simp: insert_queued_def)

lemma prepared_fence:
  assumes "prepared C fs sign desc auth action now now' s row result receipt"
  shows "fence_holder s (qe_scope row) = Some (qe_owner row, qe_epoch row)"
  using assms by (auto simp: prepared_def fence_holder_def fence_allows_def queued_row_of_def jint_def split: json.splits)

section \<open>Records are readable\<close>

lemma jget_py: "py_json (JObj d) \<Longrightarrow> py_json (jget d n)"
  by (auto simp: jget_def list_all_iff split: option.splits dest: map_of_SomeD)

definition receipt_names :: "string list" where
  "receipt_names = [''domain'', ''authorization_sha256''] @ bound_fields
     @ [''outcome'', ''external_reference'', ''committed_at'', ''result_sha256'', ''destination_key_id'', ''signature_hex'']"

lemma receipt_names_distinct: "distinct receipt_names" "set bound_fields \<subseteq> set (authorization_fields @ [''signature_hex''])"
  by code_simp+

lemma demo_result_shape:
  "demo_result C action digest = Inr result \<Longrightarrow> \<exists>sh n. result = [(''domain'', JStr ''agentbridge.demo-result.v1''), (''stored_sha256'', JStr sh),
     (''stored_bytes'', JInt n), (''effect_id'', JStr (''sqlite-queued-effect-v2:'' @ digest))] \<and> length digest = 64"
  by (auto simp: demo_result_def bindE_Inr_iff Let_def queued_effect_id_def queued_hex_def split: if_splits)

lemma flat_reads_back:
  assumes "flat d" and "py_json (JObj d)"
  shows "\<exists>e. loads (dumps_compact (JObj d)) = Some (JObj e) \<and> same_object d e"
proof -
  obtain e where "sort_json (JObj d) = JObj e" "same_object d e" using flat_sorted [OF assms(1)] by blast
  with loads_dumps_compact [OF py_json_ok [OF assms(2)]] show ?thesis by metis
qed

lemma scalar_object:
  assumes "distinct (map fst d)" and "\<And>k v. (k, v) \<in> set d \<Longrightarrow> scalar v \<and> py_json v"
  shows "flat d" and "py_json (JObj d)"
  using assms by (auto simp: flat_def list_all_iff intro: scalar_sort)

lemma signed_shape:
  "sign_queued sign d = Inr receipt \<Longrightarrow> \<exists>b. receipt = d @ [(''signature_hex'', JStr b)]"
  by (auto simp: sign_queued_def bindE_Inr_iff split: option.splits if_splits)

lemma receipt_scalar:
  assumes "authorization_sound C auth action (JFloat (Fin now))" and "py_json (JObj auth)" and "double now"
    and "sign_queued sign (unsigned_queued_receipt C desc auth digest result raw now) = Inr receipt"
    and "result = [(''domain'', JStr a), (''stored_sha256'', JStr sh), (''stored_bytes'', JInt n), (''effect_id'', JStr e)]"
    and "scalar (jget desc ''destination_key_id'') \<and> py_json (jget desc ''destination_key_id'')"
  shows "flat receipt" and "py_json (JObj receipt)"
proof -
  obtain b where r: "receipt = unsigned_queued_receipt C desc auth digest result raw now @ [(''signature_hex'', JStr b)]"
    using signed_shape [OF assms(4)] by blast
  have k: "map fst receipt = receipt_names" by (simp add: r unsigned_queued_receipt_def pick_def receipt_names_def o_def)
  have "scalar (jget auth m) \<and> py_json (jget auth m)" if "m \<in> set bound_fields" for m
    using authorization_scalar [OF assms(1)] that receipt_names_distinct(2) jget_py [OF assms(2)] by blast
  then have "scalar v \<and> py_json v" if "(m, v) \<in> set receipt" for m v
    using that assms(3,6) by (auto simp: r unsigned_queued_receipt_def pick_def assms(5) scalar_def [of "JStr _"] scalar_def [of "JFloat _"])
  from scalar_object [OF _ this, of receipt] receipt_names_distinct(1) k show "flat receipt" "py_json (JObj receipt)" by simp_all
qed

text \<open>
  An independent reader of the effect table: the three texts of the row are read, and the receipt is
  verified against the authorization, the action and the result.
\<close>

definition readable_record :: "crypto \<Rightarrow> resolver \<Rightarrow> fields \<Rightarrow> queued_row \<Rightarrow> bool" where
  "readable_record C fs desc row \<longleftrightarrow>
     (\<exists>auth receipt result.
        loads (qe_authorization row) = Some (JObj auth) \<and> loads (qe_receipt row) = Some (JObj receipt) \<and> loads (qe_result row) = Some (JObj result)
        \<and> verify_queued_destination_receipt C fs (JObj receipt) (JObj auth) (qe_action row) (JObj desc) (JObj result) = Inr (qe_receipt_sha row)
        \<and> jstr (jget auth ''tenant_id'') = qe_tenant row \<and> jstr (jget auth ''agent_id'') = qe_agent row
        \<and> jstr (jget auth ''operation_id'') = qe_operation row \<and> jstr (jget auth ''attempt_id'') = qe_attempt row
        \<and> jstr (jget auth ''fence_scope'') = qe_scope row \<and> jstr (jget auth ''fence_owner'') = qe_owner row
        \<and> jget auth ''fence_epoch'' = JInt (qe_epoch row) \<and> jget receipt ''committed_at'' = JFloat (Fin (qe_committed row)))"

lemma normalized_key_id:
  assumes "normalize_queued_descriptor fs (JObj d) = Inr r"
  shows "queued_identifier (jget d ''destination_key_id'')"
proof (rule ccontr)
  assume "\<not> queued_identifier (jget d ''destination_key_id'')"
  then have "\<not> list_all (\<lambda>n. queued_identifier (jget d n)) [''tenant_id'', ''target_id'', ''destination_id'',
                     ''authorizer_key_id'', ''destination_key_id'', ''observer_key_id'']" by simp
  then show False using assms by (simp only: normalize_queued_descriptor_def json.case) (simp split: if_splits)
qed

lemma verified_descriptor:
  "verify_queued_authorization C fs authorization descriptor action now = Inr digest \<Longrightarrow> \<exists>r. normalize_queued_descriptor fs descriptor = Inr r"
  by (auto simp: verify_queued_authorization_def authorization_checks_def bindE_Inr_iff)

lemma identifier_value: "queued_identifier v \<Longrightarrow> \<exists>x. v = JStr x \<and> 1 \<le> length x \<and> length x \<le> 128"
  by (auto simp: queued_identifier_def split: json.splits)

lemma prepared_readable:
  assumes "prepared C fs sign desc auth action now now' s row result receipt" and py: "py_json (JObj auth)" and "double now"
  shows "readable_record C fs desc row"
proof -
  from assms(1) obtain digest rd where v: "verify_queued_authorization C fs (JObj auth) (JObj desc) action (JFloat (Fin now)) = Inr digest"
    and res: "demo_result C action digest = Inr result"
    and sg: "sign_queued sign (unsigned_queued_receipt C desc auth digest result (dumps_compact (JObj result)) now) = Inr receipt"
    and vr: "verify_queued_destination_receipt C fs (JObj receipt) (JObj auth) action (JObj desc) (JObj result) = Inr rd"
    and row: "row = queued_row_of auth digest action (dumps_compact (JObj auth)) result (dumps_compact (JObj result)) receipt
            (dumps_compact (JObj receipt)) rd now"
    by (auto simp: prepared_def)
  have snd: "authorization_sound C auth action (JFloat (Fin now))" using authorization_accepted [OF v] by auto
  obtain sh n where rs: "result = [(''domain'', JStr ''agentbridge.demo-result.v1''), (''stored_sha256'', JStr sh),
     (''stored_bytes'', JInt n), (''effect_id'', JStr (''sqlite-queued-effect-v2:'' @ digest))]"
    using demo_result_shape [OF res] by blast
  have "queued_identifier (jget desc ''destination_key_id'')"
    using verified_descriptor [OF v] normalized_key_id by blast
  then have key: "scalar (jget desc ''destination_key_id'') \<and> py_json (jget desc ''destination_key_id'')"
    by (auto simp: scalar_def dest: identifier_value)
  have "flat receipt" "py_json (JObj receipt)" by (rule receipt_scalar [OF snd py assms(3) sg rs key])+
  then obtain r' where r': "loads (dumps_compact (JObj receipt)) = Some (JObj r')" "same_object receipt r'" using flat_reads_back by blast
  have "flat result" "py_json (JObj result)" by (rule scalar_object; auto simp: rs scalar_def)+
  then obtain s' where s': "loads (dumps_compact (JObj result)) = Some (JObj s')" "same_object result s'" using flat_reads_back by blast
  have "flat auth" using authorization_flat [OF snd] py by simp
  then obtain a' where a': "loads (dumps_compact (JObj auth)) = Some (JObj a')" "same_object auth a'" using flat_reads_back [OF _ py] by blast
  have "verify_queued_destination_receipt C fs (JObj r') (JObj a') action (JObj desc) (JObj s') = Inr rd"
    using vr verify_receipt_same [OF r'(2) a'(2) s'(2)] by simp
  moreover have "jget a' = jget auth" "jget r' = jget receipt" using a' r' by (simp_all add: same_object_def)
  moreover have "jget receipt ''committed_at'' = JFloat (Fin now)"
    using signed_shape [OF sg] by (auto simp: unsigned_queued_receipt_def pick_def bound_fields_def)
  moreover have "jget auth ''fence_epoch'' = JInt (jint (jget auth ''fence_epoch''))"
    using snd unfolding authorization_sound_def by fastforce
  ultimately show ?thesis unfolding readable_record_def row queued_row_of_def
    using r'(1) s'(1) a'(1) by auto
qed

section \<open>The constraints of the effect table\<close>

lemma receipt_accepted:
  assumes "verify_queued_destination_receipt C fs (JObj receipt) authorization action descriptor (JObj result) = Inr rd"
  shows "length (dumps_compact (JObj receipt)) \<le> 16384" and "length (dumps_compact (JObj result)) \<le> 512"
    and "rd = sha_hex C (dumps_compact (JObj receipt))"
  using assms unfolding verify_queued_destination_receipt_def receipt_checks_def
  by (simp_all only: bindE_Inr_iff untrusted_Inr require_Inr json.case canonical_queued_Inr) blast+

lemma length_sha_hex: "crypto_ok C \<Longrightarrow> length (sha_hex C b) = 64"
  by (simp add: sha_hex_def crypto_ok_def)

lemma object_text_nonempty: "Suc 0 \<le> length (dumps_compact (JObj d))"
  by (simp add: dumps_compact_def)

lemma hex_value: "queued_hex n v \<Longrightarrow> \<exists>x. v = JStr x \<and> length x = n"
  by (auto simp: queued_hex_def split: json.splits)

lemma parsed_action_size: "parse_demo_action action = Inr w \<Longrightarrow> 1 \<le> length action \<and> length action \<le> 4096"
  by (auto simp: parse_demo_action_def split: if_splits)

lemma prepared_row_ok:
  assumes "prepared C fs sign desc auth action now now' s row result receipt" and C: "crypto_ok C"
  shows "queued_row_ok row"
proof -
  from assms(1) obtain digest rd where v: "verify_queued_authorization C fs (JObj auth) (JObj desc) action (JFloat (Fin now)) = Inr digest"
    and res: "demo_result C action digest = Inr result"
    and sg: "sign_queued sign (unsigned_queued_receipt C desc auth digest result (dumps_compact (JObj result)) now) = Inr receipt"
    and vr: "verify_queued_destination_receipt C fs (JObj receipt) (JObj auth) action (JObj desc) (JObj result) = Inr rd"
    and row: "row = queued_row_of auth digest action (dumps_compact (JObj auth)) result (dumps_compact (JObj result)) receipt
            (dumps_compact (JObj receipt)) rd now"
    by (auto simp: prepared_def)
  have snd: "authorization_sound C auth action (JFloat (Fin now))" using authorization_accepted [OF v] by auto
  have ids: "1 \<le> length (jstr (jget auth n)) \<and> length (jstr (jget auth n)) \<le> 128" if "n \<in> set authorization_identifiers" for n
  proof -
    have "queued_identifier (jget auth n)"
      using snd that unfolding authorization_sound_def list_all_iff authorization_identifiers_def by blast
    from identifier_value [OF this] show ?thesis by auto
  qed
  have hex: "length (jstr (jget auth n)) = 64" if "n \<in> set authorization_digests" for n
  proof -
    have "queued_hex 64 (jget auth n)"
      using snd that unfolding authorization_sound_def list_all_iff authorization_digests_def by blast
    from hex_value [OF this] show ?thesis by auto
  qed
  have i: "list_all (\<lambda>s. 1 \<le> length s \<and> length s \<le> 128) [qe_tenant row, qe_agent row, qe_operation row, qe_attempt row, qe_scope row, qe_owner row]"
    unfolding row queued_row_of_def using ids unfolding authorization_identifiers_def by simp
  obtain sh n where rs: "result = [(''domain'', JStr ''agentbridge.demo-result.v1''), (''stored_sha256'', JStr sh),
     (''stored_bytes'', JInt n), (''effect_id'', JStr (''sqlite-queued-effect-v2:'' @ digest))]" and dg: "length digest = 64"
    using demo_result_shape [OF res] by blast
  have rsha: "jget receipt ''result_sha256'' = JStr (sha_hex C (dumps_compact (JObj result)))"
    using signed_shape [OF sg] by (auto simp: unsigned_queued_receipt_def pick_def bound_fields_def)
  have h: "list_all (\<lambda>s. length s = 64) [qe_authorization_sha row, qe_fingerprint row, qe_action_sha row, qe_result_sha row, qe_receipt_sha row]"
    unfolding row queued_row_of_def
    using hex dg rsha receipt_accepted(3) [OF vr] length_sha_hex [OF C] unfolding authorization_digests_def by simp
  have sizes: "length (dumps_compact (JObj auth)) \<le> 8192" "length (dumps_compact (JObj receipt)) \<le> 16384" "length (dumps_compact (JObj result)) \<le> 512"
    using snd receipt_accepted [OF vr] unfolding authorization_sound_def by blast+
  have act: "1 \<le> length action \<and> length action \<le> 4096"
    using snd parsed_action_size unfolding authorization_sound_def by blast
  have "queued_seconds (JFloat (Fin now))" using snd unfolding authorization_sound_def by blast
  then have now: "0 < now \<and> now \<le> 253402300800" by (simp add: queued_seconds_def within_seconds_def)
  have ep: "1 \<le> jint (jget auth ''fence_epoch'')" using snd unfolding authorization_sound_def by (auto simp only: jint_JInt)
  have "length (qe_effect row) = 88" using dg by (simp add: row queued_row_of_def rs)
  with i h sizes act now ep show ?thesis
    unfolding queued_row_ok_def by (simp add: row queued_row_of_def compact_length object_text_nonempty)
qed

section \<open>The queued file as a fenced destination\<close>

datatype queued_event =
    QAcquire json json json rat
  | QCommit signer json string bool rat rat

definition queued_ops :: "sqlite_dest \<Rightarrow> (string \<times> string \<times> string) set" where
  "queued_ops s = (\<lambda>r. (qe_tenant r, qe_agent r, qe_operation r)) ` set (sd_queued s)"

text \<open>An effect counts as applied when its row is there, whatever the caller was told.\<close>

definition queued_mark :: "sqlite_dest \<Rightarrow> sqlite_dest \<Rightarrow> (string \<times> string \<times> string) fence_mark option" where
  "queued_mark s s' =
     (if length (sd_queued s) < length (sd_queued s')
      then let r = last (sd_queued s') in Some (Applied (qe_scope r) (qe_owner r) (qe_epoch r) (qe_tenant r, qe_agent r, qe_operation r))
      else None)"

fun queued_step ::
  "crypto \<Rightarrow> resolver \<Rightarrow> fields \<Rightarrow> queued_event \<Rightarrow> sqlite_dest \<Rightarrow> (string \<times> string \<times> string) fence_mark option \<times> sqlite_dest" where
  "queued_step C fs desc (QAcquire scope owner ttl now) s =
     (case sqlite_acquire scope owner ttl now s of
        (Inr n, s') \<Rightarrow> (Some (Acquired (jstr scope) (jstr owner) n), s') | (Inl _, s') \<Rightarrow> (None, s'))"
| "queued_step C fs desc (QCommit sign authorization action lose_ack now now') s =
     (case commit_queued C fs sign (Some desc) authorization action lose_ack now now' s of
        (_, s') \<Rightarrow> (queued_mark s s', s'))"

lemma queued_keeps [simp]:
  "queued_ops (s\<lparr>fd_fences := r\<rparr>) = queued_ops s" "fence_holder (s\<lparr>sd_queued := t\<rparr>) = fence_holder s"
  by (simp_all add: queued_ops_def fence_holder_def fun_eq_iff)

lemma acquire_frame:
  "sqlite_acquire scope owner ttl now s = (r, s') \<Longrightarrow> sd_queued s' = sd_queued s"
  by (auto simp: sqlite_acquire_def bindP_def sql_atomic_def Let_def split: sum.splits if_splits option.splits)

lemma acquire_frame_ops: "sqlite_acquire scope owner ttl now s = (r, s') \<Longrightarrow> queued_ops s' = queued_ops s"
  by (simp add: queued_ops_def acquire_frame)

lemma same_operation_key:
  "\<not> list_ex (same_operation row) (sd_queued s) \<Longrightarrow> (qe_tenant row, qe_agent row, qe_operation row) \<notin> queued_ops s"
  by (auto simp: queued_ops_def list_ex_iff same_operation_def)

lemma commit_mark:
  assumes "commit_queued C fs sign (Some desc) authorization action lose_ack now now' s = (r, s')"
  shows "queued_mark s s' = None \<and> s' = s \<or>
    (\<exists>row. queued_mark s s' = Some (Applied (qe_scope row) (qe_owner row) (qe_epoch row) (qe_tenant row, qe_agent row, qe_operation row))
       \<and> fence_holder s (qe_scope row) = Some (qe_owner row, qe_epoch row)
       \<and> (qe_tenant row, qe_agent row, qe_operation row) \<notin> queued_ops s \<and> s' = s\<lparr>sd_queued := sd_queued s @ [row]\<rparr>)"
  using commit_queued_effect [OF assms]
proof (elim disjE exE conjE)
  fix desc' auth result receipt row
  assume p: "prepared C fs sign desc' auth action now now' s row result receipt" and i: "insert_queued row s = (Inr (), s')"
  from i have n: "\<not> list_ex (same_operation row) (sd_queued s)" and s': "s' = s\<lparr>sd_queued := sd_queued s @ [row]\<rparr>"
    by (simp_all add: insert_queued_ok)
  have "queued_mark s s' = Some (Applied (qe_scope row) (qe_owner row) (qe_epoch row) (qe_tenant row, qe_agent row, qe_operation row))"
    by (simp add: queued_mark_def s' Let_def)
  with prepared_fence [OF p] same_operation_key [OF n] s' show ?thesis by blast
qed (simp add: queued_mark_def)

definition queued_law ::
  "sqlite_dest \<Rightarrow> (string \<times> string \<times> string) fence_mark option \<Rightarrow> sqlite_dest \<Rightarrow> bool" where
  "queued_law s m s' =
     (case m of
        None \<Rightarrow> fence_holder s' = fence_holder s \<and> queued_ops s' = queued_ops s
      | Some (Acquired sc ow ep) \<Rightarrow> fence_holder s' = (fence_holder s)(sc \<mapsto> (ow, ep)) \<and> queued_ops s' = queued_ops s
          \<and> (\<forall>o' n. fence_holder s sc = Some (o', n) \<longrightarrow> n < ep)
      | Some (Renewed sc ow ep) \<Rightarrow> False
      | Some (Applied sc ow ep k) \<Rightarrow> fence_holder s sc = Some (ow, ep) \<and> fence_holder s' = fence_holder s
          \<and> k \<notin> queued_ops s \<and> queued_ops s' = insert k (queued_ops s))"

lemma queued_step_law:
  assumes "queued_step C fs desc e s = (m, s')"
  shows "queued_law s m s'"
proof (cases e)
  case (QAcquire scope owner ttl now)
  obtain r t where a: "sqlite_acquire scope owner ttl now s = (r, t)" by (metis surj_pair)
  from assms QAcquire a sqlite_acquire_effect [OF a] acquire_frame_ops [OF a] show ?thesis
    by (cases r) (auto simp: queued_law_def)
next
  case (QCommit sign authorization action lose_ack now now')
  obtain r t where a: "commit_queued C fs sign (Some desc) authorization action lose_ack now now' s = (r, t)" by (metis surj_pair)
  from assms QCommit a have "m = queued_mark s t" "s' = t" by auto
  with commit_mark [OF a] show ?thesis by (auto simp: queued_law_def queued_ops_def)
qed

interpretation qd: fenced_destination "queued_step C fs desc" fence_holder queued_ops for C fs desc
  by unfold_locales (drule queued_step_law, simp add: queued_law_def)+

section \<open>The table of effects\<close>

definition queued_table_ok :: "crypto \<Rightarrow> resolver \<Rightarrow> fields \<Rightarrow> sqlite_dest \<Rightarrow> bool" where
  "queued_table_ok C fs desc s \<longleftrightarrow> list_all (\<lambda>r. queued_row_ok r \<and> readable_record C fs desc r) (sd_queued s)
     \<and> sorted_wrt (\<lambda>q r. \<not> same_operation r q) (sd_queued s)"

lemma commit_keeps_table:
  assumes ok: "queued_table_ok C fs desc s" and "double now"
    and c: "commit_queued C fs sign (Some desc) authorization action lose_ack now now' s = (r, s')"
  shows "queued_table_ok C fs desc s'"
  using commit_queued_effect [OF c]
proof (elim disjE exE conjE)
  fix desc' auth result receipt row
  assume d: "Some desc = Some desc'" and py: "py_json (JObj auth)"
    and p: "prepared C fs sign desc' auth action now now' s row result receipt" and i: "insert_queued row s = (Inr (), s')"
  from i have "queued_row_ok row" "\<not> list_ex (same_operation row) (sd_queued s)" "s' = s\<lparr>sd_queued := sd_queued s @ [row]\<rparr>"
    by (simp_all add: insert_queued_ok)
  with ok prepared_readable [OF p py assms(2)] d show ?thesis
    by (auto simp: queued_table_ok_def sorted_wrt_append list_ex_iff)
qed (use ok in simp)

fun queued_run :: "crypto \<Rightarrow> resolver \<Rightarrow> fields \<Rightarrow> queued_event list \<Rightarrow> sqlite_dest \<Rightarrow> sqlite_dest" where
  "queued_run C fs desc [] s = s"
| "queued_run C fs desc (e # es) s = queued_run C fs desc es (snd (queued_step C fs desc e s))"

text \<open>The clock of the database is read as a binary64 number.\<close>

fun clock_double :: "queued_event \<Rightarrow> bool" where
  "clock_double (QAcquire _ _ _ now) = double now"
| "clock_double (QCommit _ _ _ _ now now') = (double now \<and> double now')"

lemma run_keeps_table:
  "queued_table_ok C fs desc s \<Longrightarrow> list_all clock_double es \<Longrightarrow> queued_table_ok C fs desc (queued_run C fs desc es s)"
proof (induction es arbitrary: s)
  case (Cons e es)
  have "queued_table_ok C fs desc (snd (queued_step C fs desc e s))"
  proof (cases e)
    case (QAcquire scope owner ttl now)
    obtain r t where a: "sqlite_acquire scope owner ttl now s = (r, t)" by (metis surj_pair)
    with Cons.prems(1) acquire_frame [OF a] QAcquire show ?thesis by (cases r) (simp_all add: queued_table_ok_def)
  next
    case (QCommit sign authorization action lose_ack now now')
    obtain r t where a: "commit_queued C fs sign (Some desc) authorization action lose_ack now now' s = (r, t)" by (metis surj_pair)
    with commit_keeps_table [OF Cons.prems(1) _ a] Cons.prems(2) QCommit show ?thesis by simp
  qed
  with Cons show ?case by simp
qed simp

text \<open>
  The constraints of the table refuse nothing: what reaches the insert is inserted, so an accepted
  action is answered only by its result or by a lost acknowledgement.
\<close>

lemma insert_prepared:
  assumes "prepared C fs sign desc auth action now now' s row result receipt" and "crypto_ok C"
  shows "insert_queued row s = (Inr (), s\<lparr>sd_queued := sd_queued s @ [row]\<rparr>)"
  using prepared_row_ok [OF assms] assms(1) by (auto simp: insert_queued_def prepared_def)

section \<open>The descriptor as a type\<close>

text \<open>The values a normalized descriptor may have.\<close>

definition descriptor_wf :: "fields \<Rightarrow> bool" where
  "descriptor_wf d \<longleftrightarrow>
     set (map fst d) = set descriptor_fields
     \<and> jget d ''kind'' = JStr ''queued_fenced_sqlite_v2'' \<and> jget d ''protocol'' = JStr ''mcp''
     \<and> jget d ''action_schema'' = JStr ''agentbridge.demo.append.v1'' \<and> jget d ''max_action_bytes'' = JInt 4096
     \<and> list_all (\<lambda>n. queued_identifier (jget d n)) [''tenant_id'', ''target_id'', ''destination_id'',
          ''authorizer_key_id'', ''destination_key_id'', ''observer_key_id'']
     \<and> list_all (\<lambda>n. queued_hex 64 (jget d n)) [''authorizer_public_key_hex'', ''destination_public_key_hex'', ''observer_public_key_hex'']
     \<and> distinct (map (jget d) [''authorizer_public_key_hex'', ''destination_public_key_hex'', ''observer_public_key_hex''])
     \<and> distinct (map (jget d) [''authorizer_key_id'', ''destination_key_id'', ''observer_key_id''])
     \<and> within_seconds 10 (jget d ''call_timeout_seconds'')
     \<and> queued_path_ok (jget d ''path'') \<and> length (encode (jstr (jget d ''path''))) \<le> 4096
     \<and> finite_json (JObj d) \<and> length (dumps_compact (JObj d)) \<le> 8192"

text \<open>What \<^verbatim>\<open>Path.resolve\<close> promises: an absolute path without a NUL that resolves to itself.\<close>

definition resolver_ok :: "resolver \<Rightarrow> bool" where
  "resolver_ok fs \<longleftrightarrow> (\<forall>p q. starts_with p ''/'' \<longrightarrow> \<not> starts_with p ''//'' \<longrightarrow> fs p = Some q \<longrightarrow>
     fs q = Some q \<and> starts_with q ''/'' \<and> \<not> starts_with q ''//'' \<and> CHR 0x00 \<notin> set q)"

lemma jget_update: "jget (AList.update k v d) n = (if n = k then v else jget d n)"
  by (simp add: jget_def)

lemma descriptor_fields_path: "''path'' \<in> set descriptor_fields"
  by (simp add: descriptor_fields_def)

lemma normalized_checks:
  assumes "normalize_queued_descriptor fs (JObj d) = Inr r"
  shows "\<exists>p. queued_path_ok (jget d ''path'') \<and> fs (jstr (jget d ''path'')) = Some p \<and> r = AList.update ''path'' (JStr p) d
     \<and> length (encode p) \<le> 4096 \<and> length p \<le> 1024 \<and> finite_json (JObj r) \<and> length (dumps_compact (JObj r)) \<le> 8192
     \<and> set (map fst d) = set descriptor_fields
     \<and> jget d ''kind'' = JStr ''queued_fenced_sqlite_v2'' \<and> jget d ''protocol'' = JStr ''mcp''
     \<and> jget d ''action_schema'' = JStr ''agentbridge.demo.append.v1'' \<and> jget d ''max_action_bytes'' = JInt 4096
     \<and> list_all (\<lambda>n. queued_identifier (jget d n)) [''tenant_id'', ''target_id'', ''destination_id'',
          ''authorizer_key_id'', ''destination_key_id'', ''observer_key_id'']
     \<and> list_all (\<lambda>n. queued_hex 64 (jget d n)) [''authorizer_public_key_hex'', ''destination_public_key_hex'', ''observer_public_key_hex'']
     \<and> distinct (map (jget d) [''authorizer_public_key_hex'', ''destination_public_key_hex'', ''observer_public_key_hex''])
     \<and> distinct (map (jget d) [''authorizer_key_id'', ''destination_key_id'', ''observer_key_id''])
     \<and> within_seconds 10 (jget d ''call_timeout_seconds'')"
proof -
  have c: "bindE (canonical_queued_json (JObj x)) (\<lambda>raw. if length raw > 8192 then Inl e else Inr x) = Inr y \<longleftrightarrow>
      finite_json (JObj x) \<and> \<not> length (dumps_compact (JObj x)) > 8192 \<and> y = x" for x y and e :: exn
    by (auto simp: bindE_Inr_iff canonical_queued_Inr split: if_splits)
  from assms show ?thesis
    unfolding normalize_queued_descriptor_def json.case Let_def raise_simps c de_Morgan_disj not_not not_less by blast
qed

lemma normalize_wf:
  assumes "descriptor_wf d" and "fs (jstr (jget d ''path'')) = Some (jstr (jget d ''path''))" and "length (jstr (jget d ''path'')) \<le> 1024"
    and "AList.update ''path'' (jget d ''path'') d = d"
  shows "normalize_queued_descriptor fs (JObj d) = Inr d"
proof -
  obtain p where p: "jget d ''path'' = JStr p" using assms(1) by (auto simp: descriptor_wf_def queued_path_ok_def split: json.splits)
  note w = assms(1) [unfolded descriptor_wf_def]
  have u: "AList.update ''path'' (JStr p) d = d" "fs p = Some p" "length p \<le> 1024" using assms(2-4) by (simp_all add: p)
  have c: "canonical_queued_json (JObj d) = Inr (dumps_compact (JObj d))" using w by (simp only: canonical_queued_Inr)
  have l: "\<not> length (encode p) > 4096" "\<not> length p > 1024" "\<not> length (dumps_compact (JObj d)) > 8192"
    using w u by (simp_all only: p jstr_JStr not_less)
  have path: "queued_path_ok (JStr p)" using w by (simp only: p)
  show ?thesis
    unfolding normalize_queued_descriptor_def json.case Let_def p jstr_JStr u option.case c bindE_simps
    using w l path by (simp only: p if_False simp_thms)
qed

lemma update_same: "map_of d k = Some v \<Longrightarrow> AList.update k v d = d"
  by (induction d) (auto split: if_splits)

lemma normalized_wf:
  assumes fs: "resolver_ok fs" and n: "normalize_queued_descriptor fs v = Inr d"
  shows "descriptor_wf d" and "normalize_queued_descriptor fs (JObj d) = Inr d"
proof -
  obtain d0 where v: "v = JObj d0" using normalized_is_object [OF n] by blast
  from normalized_checks [OF n [unfolded v]] obtain p where
    ok: "queued_path_ok (jget d0 ''path'')" and p: "fs (jstr (jget d0 ''path'')) = Some p" and d: "d = AList.update ''path'' (JStr p) d0"
    and l: "length (encode p) \<le> 4096" "length p \<le> 1024"
    and rest: "finite_json (JObj d) \<and> length (dumps_compact (JObj d)) \<le> 8192 \<and> set (map fst d0) = set descriptor_fields
     \<and> jget d0 ''kind'' = JStr ''queued_fenced_sqlite_v2'' \<and> jget d0 ''protocol'' = JStr ''mcp''
     \<and> jget d0 ''action_schema'' = JStr ''agentbridge.demo.append.v1'' \<and> jget d0 ''max_action_bytes'' = JInt 4096
     \<and> list_all (\<lambda>n. queued_identifier (jget d0 n)) [''tenant_id'', ''target_id'', ''destination_id'',
          ''authorizer_key_id'', ''destination_key_id'', ''observer_key_id'']
     \<and> list_all (\<lambda>n. queued_hex 64 (jget d0 n)) [''authorizer_public_key_hex'', ''destination_public_key_hex'', ''observer_public_key_hex'']
     \<and> distinct (map (jget d0) [''authorizer_public_key_hex'', ''destination_public_key_hex'', ''observer_public_key_hex''])
     \<and> distinct (map (jget d0) [''authorizer_key_id'', ''destination_key_id'', ''observer_key_id''])
     \<and> within_seconds 10 (jget d0 ''call_timeout_seconds'')" by blast
  obtain p0 where p0: "jget d0 ''path'' = JStr p0" "starts_with p0 ''/''" "\<not> starts_with p0 ''//''"
    using ok by (auto simp: queued_path_ok_def split: json.splits)
  have q: "fs p = Some p" "starts_with p ''/''" "\<not> starts_with p ''//''" "CHR 0x00 \<notin> set p"
    using fs p p0 unfolding resolver_ok_def by (metis jstr_JStr)+
  obtain c cs where pc: "p = c # cs" "c = CHR ''/''" using q(2) by (cases p) (auto simp: starts_with_def)
  have path: "queued_path_ok (JStr p)"
    using q l pc by (simp add: queued_path_ok_def starts_with_def bslash_def)
  have keys: "set (map fst d) = set descriptor_fields"
    using rest descriptor_fields_path by (auto simp: d keys_update)
  have j: "jget d n = (if n = ''path'' then JStr p else jget d0 n)" for n by (simp add: d jget_update)
  show wf: "descriptor_wf d"
    unfolding descriptor_wf_def using rest path l keys by (simp add: j)
  have "map_of d ''path'' = Some (JStr p)" by (simp add: d)
  then have "AList.update ''path'' (jget d ''path'') d = d" by (simp add: j update_same)
  with normalize_wf [OF wf, of fs] q(1) l(2) show "normalize_queued_descriptor fs (JObj d) = Inr d" by (simp add: j)
qed

end
