(* ===== verification/Queued_Evidence.thy ===== *)
theory Queued_Evidence
  imports Queued_Destination
begin

text \<open>
  The properties of the queued destination, and one authorized action followed through the whole of
  \<open>commit_queued\<close>: descriptor, authorization, action, fence, receipt and stored row.  The keys and
  digests of the example come from the toy primitives \<open>pad_crypto\<close>.
\<close>

section \<open>An action that is applied\<close>

lemma hex_digits_text: "list_all (\<lambda>c. c \<in> set ''0123456789abcdef'') (to_hex b)"
proof (induction b)
  case (Cons c b)
  have d: "hex_digit n \<in> set ''0123456789abcdef''" if "n < 16" for n
  proof -
    have "list_all (\<lambda>n. hex_digit n \<in> set ''0123456789abcdef'') [0..<16]" by code_simp
    with that show ?thesis by (simp only: list_all_iff set_upt atLeastLessThan_iff) simp
  qed
  have "(of_char c :: nat) div 16 < 16" using of_char_256 [of c] by (simp add: div_less_iff_less_mult)
  with d [of "of_char c div 16"] d [of "of_char c mod 16"] Cons show ?case by (simp add: Let_def)
qed simp

lemma queued_hex_text [simp]: "queued_hex n (JStr (to_hex b)) \<longleftrightarrow> 2 * length b = n"
  using hex_digits_text by (simp add: queued_hex_def del: set_simps)

definition json_plain :: "char \<Rightarrow> bool" where
  "json_plain c \<longleftrightarrow> length (json_char c) = 1"

lemma plain_length: "list_all json_plain s \<Longrightarrow> length (json_string s) = length s + 2"
proof -
  assume "list_all json_plain s"
  then have "length (concat (map json_char s)) = length s" by (induction s) (auto simp: json_plain_def)
  then show ?thesis by (simp add: json_string_def)
qed

lemma hex_plain: "list_all json_plain (to_hex b)"
proof -
  have "\<forall>c\<in>set ''0123456789abcdef''. json_plain c" by (simp add: json_plain_def json_char_def)
  with hex_digits_text [of b] show ?thesis by (auto simp: list_all_iff simp del: set_simps)
qed

lemma sorted_object: "sorted (map fst d) \<Longrightarrow> list_all (\<lambda>(k, v). sort_json v = v) d \<Longrightarrow> sort_json (JObj d) = JObj d"
proof -
  assume s: "sorted (map fst d)" and v: "list_all (\<lambda>(k, v). sort_json v = v) d"
  have "map (\<lambda>(k, v). (k, sort_json v)) d = d" using v by (intro map_idI) (auto simp: list_all_iff)
  with s show ?thesis by (simp add: sort_key_id_if_sorted)
qed

definition demo_wire :: json where
  "demo_wire = JObj [(''method'', JStr ''tools/call''), (''params'', JObj [(''arguments'', JObj [(''value'', JStr ''v'')]), (''name'', JStr ''write'')])]"

definition demo_action :: string where
  "demo_action = dumps_compact demo_wire"

lemma demo_wire_sorted: "sort_json demo_wire = demo_wire"
  unfolding demo_wire_def by (intro sorted_object | code_simp | simp)+

lemma parse_demo: "parse_demo_action demo_action = Inr demo_wire"
proof -
  have l: "loads demo_action = Some demo_wire"
    unfolding demo_action_def using loads_dumps_compact [of demo_wire] demo_wire_sorted by (simp add: demo_wire_def)
  have n: "1 \<le> length demo_action \<and> length demo_action \<le> 4096"
    unfolding demo_action_def dumps_compact_def demo_wire_sorted by (simp add: demo_wire_def json_string_def json_char_def)
  have "canonical_demo_action demo_wire = Inr demo_action"
    using n by (auto simp: canonical_demo_action_def demo_wire_def utf8_char_def canonical_queued_json_def dumps_strict_def
        demo_action_def simp del: sort_json.simps)
  with l n show ?thesis by (simp add: parse_demo_action_def)
qed

definition key_hex :: "char \<Rightarrow> string" where
  "key_hex c = to_hex (replicate 32 c)"

definition demo_sha :: string where
  "demo_sha = to_hex (replicate 32 CHR ''h'')"

definition demo_descriptor :: fields where
  "demo_descriptor = [(''action_schema'', JStr ''agentbridge.demo.append.v1''),
     (''authorizer_key_id'', JStr ''ka''), (''authorizer_public_key_hex'', JStr (key_hex CHR ''a'')),
     (''call_timeout_seconds'', JInt 5), (''destination_id'', JStr ''d''),
     (''destination_key_id'', JStr ''kd''), (''destination_public_key_hex'', JStr (key_hex CHR ''k'')),
     (''kind'', JStr ''queued_fenced_sqlite_v2''), (''max_action_bytes'', JInt 4096),
     (''observer_key_id'', JStr ''ko''), (''observer_public_key_hex'', JStr (key_hex CHR ''o'')),
     (''path'', JStr ''/d''), (''protocol'', JStr ''mcp''), (''target_id'', JStr ''g''), (''tenant_id'', JStr ''t'')]"

lemma key_hex_inj: "key_hex c = key_hex d \<longleftrightarrow> c = d"
proof
  assume "key_hex c = key_hex d"
  then have "fromhex (key_hex c) = fromhex (key_hex d)" by simp
  then show "c = d" by (simp add: key_hex_def)
qed simp

lemma key_text [simp]: "length (json_string (key_hex c)) = 66" "queued_hex 64 (JStr (key_hex c))"
  "length (json_string demo_sha) = 66" "queued_hex 64 (JStr demo_sha)"
  by (simp_all add: key_hex_def demo_sha_def plain_length hex_plain)

lemma descriptor_sorted: "sort_json (JObj demo_descriptor) = JObj demo_descriptor"
proof (rule sorted_object)
  show "sorted (map fst demo_descriptor)" unfolding demo_descriptor_def by code_simp
qed (simp add: demo_descriptor_def)

lemma descriptor_size: "length (dumps_compact (JObj demo_descriptor)) \<le> 8192"
  unfolding dumps_compact_def descriptor_sorted
  by (simp add: demo_descriptor_def plain_length json_plain_def json_char_def int_text_def nat_text.simps) 

lemma descriptor_normalized_by:
  assumes "fs p = Some ''/d''" and "queued_path_ok (JStr p)"
  shows "normalize_queued_descriptor fs (JObj (AList.update ''path'' (JStr p) demo_descriptor)) = Inr demo_descriptor"
proof -
  let ?d = "AList.update ''path'' (JStr p) demo_descriptor"
  have keys: "set (map fst ?d) = set descriptor_fields"
    unfolding demo_descriptor_def descriptor_fields_def by auto
  have f: "canonical_queued_json (JObj demo_descriptor) = Inr (dumps_compact (JObj demo_descriptor))"
    by (simp add: canonical_queued_Inr demo_descriptor_def)
  have up: "AList.update ''path'' (JStr ''/d'') ?d = demo_descriptor"
    by (simp add: demo_descriptor_def)
  have ids: "list_all (\<lambda>n. queued_identifier (jget ?d n)) [''tenant_id'', ''target_id'', ''destination_id'',
       ''authorizer_key_id'', ''destination_key_id'', ''observer_key_id'']"
    by (simp add: demo_descriptor_def queued_identifier_def py_strip_def py_space_def utf8_char_def)
  have hexes: "list_all (\<lambda>n. queued_hex 64 (jget ?d n))
       [''authorizer_public_key_hex'', ''destination_public_key_hex'', ''observer_public_key_hex'']"
    by (simp add: demo_descriptor_def)
  have d1: "distinct (map (jget ?d) [''authorizer_public_key_hex'', ''destination_public_key_hex'', ''observer_public_key_hex''])"
    by (simp add: demo_descriptor_def key_hex_inj)
  have d2: "distinct (map (jget ?d) [''authorizer_key_id'', ''destination_key_id'', ''observer_key_id''])"
    by (simp add: demo_descriptor_def)
  have fixed: "jget ?d ''kind'' = JStr ''queued_fenced_sqlite_v2''" "jget ?d ''protocol'' = JStr ''mcp''"
    "jget ?d ''action_schema'' = JStr ''agentbridge.demo.append.v1''" "jget ?d ''max_action_bytes'' = JInt 4096"
    "jget ?d ''call_timeout_seconds'' = JInt 5" "jget ?d ''path'' = JStr p"
    by (simp_all add: demo_descriptor_def)
  have t: "within_seconds 10 (JInt 5)" by (simp add: within_seconds_def)
  have l: "\<not> length (encode ''/d'') > 4096" "\<not> length ''/d'' > 1024" "\<not> length (dumps_compact (JObj demo_descriptor)) > 8192"
    using descriptor_size by (simp_all add: utf8_char_def)
  show ?thesis
    unfolding normalize_queued_descriptor_def json.case keys fixed jstr_JStr assms(1) option.case Let_def up f bindE_simps
    using ids hexes d1 d2 t assms(2) l by (simp only: simp_thms if_False)
qed

lemma descriptor_normalized: "normalize_queued_descriptor Some (JObj demo_descriptor) = Inr demo_descriptor"
proof -
  have "AList.update ''path'' (JStr ''/d'') demo_descriptor = demo_descriptor" by (simp add: demo_descriptor_def)
  with descriptor_normalized_by [of Some "''/d''"] show ?thesis
    by (simp add: queued_path_ok_def starts_with_def bslash_def)
qed

definition demo_fields :: fields where
  "demo_fields = [(''action_sha256'', JStr demo_sha), (''admission_link_sha256'', JStr demo_sha), (''agent_id'', JStr ''a''),
     (''attempt_id'', JStr ''y''), (''authority_sha256'', JStr demo_sha), (''authorizer_key_id'', JStr ''ka''), (''context_id'', JStr ''c''),
     (''destination_id'', JStr ''d''), (''domain'', JStr ''agentbridge.queued-authorization.v2''), (''expires_at'', JInt 15),
     (''fence_epoch'', JInt 1), (''fence_owner'', JStr ''o''), (''fence_scope'', JStr ''s''), (''fingerprint'', JStr demo_sha),
     (''intent_sha256'', JStr demo_sha), (''issued_at'', JInt 10), (''operation_id'', JStr ''x''),
     (''original_action_sha256'', JStr demo_sha), (''owner_id'', JStr ''o''), (''result_limit_bytes'', JInt 65536)]"

definition demo_signature :: string where
  "demo_signature = to_hex (ed_sign pad_crypto (replicate 32 CHR ''a'') (dumps_compact (JObj (pick authorization_fields
     (demo_fields @ [(''store_id'', JStr ''s''), (''target_configuration_sha256'', JStr demo_sha), (''target_id'', JStr ''g''),
       (''task_id'', JStr ''k''), (''tenant_id'', JStr ''t'')])))))"

definition demo_auth :: fields where
  "demo_auth = demo_fields @ [(''signature_hex'', JStr demo_signature), (''store_id'', JStr ''s''),
     (''target_configuration_sha256'', JStr demo_sha), (''target_id'', JStr ''g''), (''task_id'', JStr ''k''), (''tenant_id'', JStr ''t'')]"

lemma demo_signature_text [simp]: "length (json_string demo_signature) = 130" "queued_hex 128 (JStr demo_signature)"
  by (simp_all add: demo_signature_def plain_length hex_plain pad_crypto_ok)

lemma auth_sorted: "sort_json (JObj demo_auth) = JObj demo_auth"
proof (rule sorted_object)
  show "sorted (map fst demo_auth)" unfolding demo_auth_def demo_fields_def list.map fst_conv append.simps by code_simp
qed (simp add: demo_auth_def demo_fields_def)

lemma auth_payload: "pick authorization_fields demo_auth = pick authorization_fields (demo_fields @ [(''store_id'', JStr ''s''),
     (''target_configuration_sha256'', JStr demo_sha), (''target_id'', JStr ''g''), (''task_id'', JStr ''k''), (''tenant_id'', JStr ''t'')])"
  by (simp add: pick_def authorization_fields_def demo_auth_def demo_fields_def)

lemma auth_size: "length (dumps_compact (JObj demo_auth)) \<le> 8192"
  unfolding dumps_compact_def auth_sorted
  by (simp add: demo_auth_def demo_fields_def plain_length json_plain_def json_char_def int_text_def nat_text.simps)

lemma pad_sha [simp]: "sha_hex pad_crypto b = demo_sha"
  by (simp add: sha_hex_def demo_sha_def pad_crypto_def)

lemma pad_verifies: "ed25519_check pad_crypto (key_hex c) (to_hex (ed_sign pad_crypto (replicate 32 c) d)) d = Some True"
  by (simp add: ed25519_check_def key_hex_def pad_crypto_def)

lemma demo_auth_accepted:
  assumes "now = JNull \<or> now = JFloat (Fin 12)"
  shows "verify_queued_authorization pad_crypto Some (JObj demo_auth) (JObj demo_descriptor) demo_action now = Inr demo_sha"
proof -
  have keys: "set (map fst demo_auth) = set (authorization_fields @ [''signature_hex''])"
    unfolding demo_auth_def demo_fields_def authorization_fields_def list.map fst_conv append.simps by code_simp
  have fin: "finite_json (JObj demo_auth)" "finite_json (JObj (pick authorization_fields demo_auth))" "finite_json (JObj demo_descriptor)"
    by (simp_all add: demo_auth_def demo_fields_def pick_def authorization_fields_def demo_descriptor_def)
  have ids: "list_all (\<lambda>n. queued_identifier (jget demo_auth n)) [''tenant_id'', ''store_id'', ''owner_id'', ''agent_id'', ''task_id'',
          ''context_id'', ''target_id'', ''destination_id'', ''operation_id'', ''attempt_id'', ''fence_scope'', ''fence_owner'', ''authorizer_key_id'']"
    by (simp add: demo_auth_def demo_fields_def queued_identifier_def py_strip_def py_space_def utf8_char_def)
  have hexes: "list_all (\<lambda>n. queued_hex 64 (jget demo_auth n)) [''authority_sha256'', ''intent_sha256'', ''admission_link_sha256'', ''fingerprint'',
          ''original_action_sha256'', ''target_configuration_sha256'', ''action_sha256'']"
    by (simp add: demo_auth_def demo_fields_def)
  have config: "queued_descriptor_sha256 pad_crypto Some (JObj demo_descriptor) = Inr demo_sha"
    using fin by (simp add: queued_descriptor_sha256_def descriptor_normalized canonical_queued_json_def dumps_strict_def)
  have agree: "jget demo_auth ''domain'' = JStr ''agentbridge.queued-authorization.v2''" "jget demo_auth ''tenant_id'' = jget demo_descriptor ''tenant_id''"
    "jget demo_auth ''target_id'' = jget demo_descriptor ''target_id''" "jget demo_auth ''destination_id'' = jget demo_descriptor ''destination_id''"
    "jget demo_auth ''authorizer_key_id'' = jget demo_descriptor ''authorizer_key_id''"
    "jget demo_auth ''target_configuration_sha256'' = JStr demo_sha" "jget demo_auth ''action_sha256'' = JStr demo_sha"
    by (simp_all add: demo_auth_def demo_fields_def demo_descriptor_def)
  have nums: "jget demo_auth ''fence_epoch'' = JInt 1" "jget demo_auth ''result_limit_bytes'' = JInt 65536"
    "jget demo_auth ''issued_at'' = JInt 10" "jget demo_auth ''expires_at'' = JInt 15" "jget demo_descriptor ''call_timeout_seconds'' = JInt 5"
    "jget demo_descriptor ''authorizer_public_key_hex'' = JStr (key_hex CHR ''a'')" "jget demo_auth ''signature_hex'' = JStr demo_signature"
    by (simp_all add: demo_auth_def demo_fields_def demo_descriptor_def)
  have w: "queued_seconds (JInt 10)" "queued_seconds (JInt 15)" "queued_seconds (JFloat (Fin 12))" "num_plus (JInt 10) (JInt 5) = 15"
    "num_value (JInt n) = of_int n" "num_value (JFloat (Fin q)) = q" for n q
    by (simp_all add: queued_seconds_def within_seconds_def num_plus_def num_value_def)
  have sig: "verify_queued_signature pad_crypto demo_auth (dumps_compact (JObj (pick authorization_fields demo_auth))) (key_hex CHR ''a'') ''queued authorization'' = Inr ()"
    unfolding verify_queued_signature_def nums(7) auth_payload jstr_JStr demo_signature_def pad_verifies
    using demo_signature_text(2) by (simp add: demo_signature_def)
  have c: "canonical_queued_json v = Inr (dumps_compact v)" if "finite_json v" for v
    using that by (simp add: canonical_queued_Inr)
  have "authorization_checks pad_crypto Some (JObj demo_auth) (JObj demo_descriptor) demo_action now = Inr ()"
    unfolding authorization_checks_def descriptor_normalized parse_demo bindE_simps json.case keys c [OF fin(1)] config
      canonical_queued_authorization_payload_def c [OF fin(2)] nums jstr_JStr w pad_sha
    by (rule disjE [OF assms]; use ids hexes agree auth_size w sig in \<open>simp add: require_def\<close>)
  then show ?thesis
    by (simp add: verify_queued_authorization_def untrusted_def queued_authorization_sha256_def c [OF fin(1)])
qed

definition demo_file :: sqlite_dest where
  "demo_file = create_queued_tables (dumps_compact (JObj demo_descriptor)) demo_sha demo_sha
     (empty_dest\<lparr>fd_fences := [(''s'', \<lparr>fn_owner = ''o'', fn_epoch = 1, fn_expires = 100\<rparr>)]\<rparr>)"

lemma lower_words: "py_lower ''UPDATE'' = ''update''" "py_lower ''DELETE'' = ''delete''"
  by code_simp+

lemma demo_file_qualified: "qualify_queued_destination pad_crypto Some demo_descriptor demo_file = Inr ()"
proof -
  obtain a b c d e f g where sql: "queued_table_sql = [(''ab_destination_fences'', a), (''ab_queued_destination_binding_v2'', b), (''ab_queued_effects_v2'', c)]"
    "queued_trigger_sql = [(''ab_queued_destination_binding_v2_deny_update'', d), (''ab_queued_destination_binding_v2_deny_delete'', e),
       (''ab_queued_effects_v2_deny_update'', f), (''ab_queued_effects_v2_deny_delete'', g)]"
    by (simp add: queued_table_sql_def queued_trigger_sql_def lower_words)
  have vis: "visible_master demo_file = sd_master demo_file"
    by (simp add: visible_master_def demo_file_def create_queued_tables_def empty_dest_def sql lower_char_def)
  have "\<not> set (map fst (sd_master demo_file)) \<noteq> set (map fst (queued_table_sql @ queued_trigger_sql))"
    by (simp add: demo_file_def create_queued_tables_def empty_dest_def sql)
  moreover have "\<not> list_ex (\<lambda>(name, kind, text). kind \<noteq> (if name \<in> set (map fst queued_table_sql) then ''table'' else ''trigger'')
      \<or> map_of (queued_table_sql @ queued_trigger_sql) name \<noteq> Some text) (sd_master demo_file)"
    by (simp add: demo_file_def create_queued_tables_def empty_dest_def sql)
  moreover have "keys_qualified demo_file queued_keys = Inr ()"
    by (simp add: keys_qualified_def queued_keys_def table_indexes_def demo_file_def create_queued_tables_def empty_dest_def insert_commute)
  moreover have "sd_binding demo_file = [\<lparr>bd_singleton = 1, bd_version = 2, bd_descriptor = dumps_compact (JObj demo_descriptor),
      bd_descriptor_sha = demo_sha, bd_schema_sha = demo_sha\<rparr>]"
    by (simp add: demo_file_def create_queued_tables_def)
  moreover have "canonical_queued_json (JObj demo_descriptor) = Inr (dumps_compact (JObj demo_descriptor))"
    by (simp add: canonical_queued_Inr demo_descriptor_def)
  moreover have "queued_descriptor_sha256 pad_crypto Some (JObj demo_descriptor) = Inr demo_sha"
    using calculation(5) by (simp add: queued_descriptor_sha256_def descriptor_normalized)
  moreover have "length demo_sha = 64" by (simp add: demo_sha_def)
  ultimately show ?thesis
    using descriptor_size object_text_nonempty [of demo_descriptor]
    by (simp add: qualify_queued_destination_def vis Let_def compact_length queued_schema_sha256_def image_Un)
qed

lemma sep_join_length: "length (sep_join sep xs) = sum_list (map length xs) + (length xs - 1) * length sep"
  by (induction sep xs rule: sep_join.induct) simp_all

lemma object_length:
  assumes "list_all (\<lambda>(k, v). sort_json v = v) d"
  shows "length (dumps_compact (JObj d)) = 2 + (length d - 1)
    + sum_list (map (\<lambda>p. length (json_string (fst p)) + 1 + length (dumps_with '','' '':'' (snd p))) d)"
proof -
  have m: "map (\<lambda>(k, v). (k, sort_json v)) d = d" using assms by (intro map_idI) (auto simp: list_all_iff)
  have "mset (sort_key fst d) = mset d" by simp
  then have "sum_list (map f (sort_key fst d)) = sum_list (map f d)" for f :: "_ \<Rightarrow> nat"
    by (metis mset_map sum_mset_sum_list)
  then show ?thesis by (simp add: dumps_compact_def m sep_join_length o_def split_beta)
qed

definition demo_result_fields :: fields where
  "demo_result_fields = [(''domain'', JStr ''agentbridge.demo-result.v1''), (''stored_sha256'', JStr demo_sha),
     (''stored_bytes'', JInt 1), (''effect_id'', JStr (''sqlite-queued-effect-v2:'' @ demo_sha))]"

lemma demo_result_ok: "demo_result pad_crypto demo_action demo_sha = Inr demo_result_fields"
proof -
  have "action_value demo_wire = ''v''" by (simp add: action_value_def demo_wire_def)
  then show ?thesis
    by (simp add: demo_result_def parse_demo queued_effect_id_def demo_result_fields_def Let_def utf8_char_def)
qed

definition demo_signer :: signer where
  "demo_signer = (\<lambda>d. Inr (Some (ed_sign pad_crypto (replicate 32 CHR ''k'') d)))"

definition demo_unsigned :: fields where
  "demo_unsigned = unsigned_queued_receipt pad_crypto demo_descriptor demo_auth demo_sha demo_result_fields (dumps_compact (JObj demo_result_fields)) 12"

lemma demo_unsigned_fields: "demo_unsigned =
   [(''domain'', JStr ''agentbridge.queued-receipt.v2''), (''authorization_sha256'', JStr demo_sha), (''tenant_id'', JStr ''t''), (''agent_id'', JStr ''a''),
    (''operation_id'', JStr ''x''), (''fingerprint'', JStr demo_sha), (''target_id'', JStr ''g''), (''destination_id'', JStr ''d''), (''attempt_id'', JStr ''y''),
    (''fence_epoch'', JInt 1), (''action_sha256'', JStr demo_sha), (''outcome'', JStr ''succeeded''),
    (''external_reference'', JStr (''sqlite-queued-effect-v2:'' @ demo_sha)), (''committed_at'', JFloat (Fin 12)), (''result_sha256'', JStr demo_sha),
    (''destination_key_id'', JStr ''kd'')]"
  by (simp add: demo_unsigned_def unsigned_queued_receipt_def pick_def bound_fields_def demo_auth_def demo_fields_def demo_result_fields_def demo_descriptor_def)

definition demo_receipt :: fields where
  "demo_receipt = demo_unsigned @ [(''signature_hex'', JStr (to_hex (ed_sign pad_crypto (replicate 32 CHR ''k'')
     (dumps_compact (JObj (pick queued_receipt_fields demo_unsigned))))))]"

lemma demo_receipt_signed: "sign_queued demo_signer demo_unsigned = Inr demo_receipt"
proof -
  have "finite_json (JObj (pick queued_receipt_fields demo_unsigned))"
    by (simp add: pick_def queued_receipt_fields_def demo_unsigned_fields)
  then show ?thesis
    by (simp add: sign_queued_def canonical_queued_receipt_payload_def canonical_queued_json_def dumps_strict_def demo_signer_def
        demo_receipt_def pad_crypto_ok)
qed

lemma demo_sizes: "length (dumps_compact (JObj demo_receipt)) \<le> 16384" "length (dumps_compact (JObj demo_result_fields)) \<le> 512"
proof -
  have e: "length (json_string (''sqlite-queued-effect-v2:'' @ demo_sha)) = 90"
  proof -
    have "list_all json_plain (''sqlite-queued-effect-v2:'' @ demo_sha)"
      using hex_plain by (simp add: demo_sha_def json_plain_def json_char_def)
    from plain_length [OF this] show ?thesis by (simp add: demo_sha_def)
  qed
  have f: "length (dumps_with '','' '':'' (JFloat (Fin 12))) = 4" by code_simp
  have s: "length (json_string (to_hex (ed_sign pad_crypto k d))) = 130" for k d
    using plain_length [OF hex_plain] by (simp add: pad_crypto_ok)
  note e = e [simplified]
  show "length (dumps_compact (JObj demo_result_fields)) \<le> 512"
    by (subst object_length) (simp_all add: demo_result_fields_def e plain_length json_plain_def json_char_def int_text_def nat_text.simps)
  show "length (dumps_compact (JObj demo_receipt)) \<le> 16384"
    using f by (subst object_length) (simp_all add: demo_receipt_def demo_unsigned_fields e s plain_length json_plain_def json_char_def int_text_def nat_text.simps)
qed

lemma demo_receipt_verifies:
  "verify_queued_destination_receipt pad_crypto Some (JObj demo_receipt) (JObj demo_auth) demo_action (JObj demo_descriptor) (JObj demo_result_fields)
     = Inr demo_sha"
proof -
  let ?sg = "to_hex (ed_sign pad_crypto (replicate 32 CHR ''k'') (dumps_compact (JObj (pick queued_receipt_fields demo_unsigned))))"
  have keys: "set (map fst demo_receipt) = set (queued_receipt_fields @ [''signature_hex''])"
    unfolding demo_receipt_def demo_unsigned_fields queued_receipt_fields_def list.map fst_conv append.simps by code_simp
  have fin: "finite_json (JObj demo_receipt)" "finite_json (JObj demo_result_fields)" "finite_json (JObj (pick queued_receipt_fields demo_receipt))"
    by (simp_all add: demo_receipt_def demo_unsigned_fields demo_result_fields_def pick_def queued_receipt_fields_def)
  have c: "canonical_queued_json v = Inr (dumps_compact v)" if "finite_json v" for v
    using that by (simp add: canonical_queued_Inr)
  have pick: "pick queued_receipt_fields demo_receipt = pick queued_receipt_fields demo_unsigned"
    by (simp add: pick_def queued_receipt_fields_def demo_receipt_def demo_unsigned_fields)
  have sgf: "jget demo_receipt ''signature_hex'' = JStr ?sg"
    by (simp add: demo_receipt_def demo_unsigned_fields)
  have sig: "verify_queued_signature pad_crypto demo_receipt (dumps_compact (JObj (pick queued_receipt_fields demo_receipt))) (key_hex CHR ''k'') ''queued destination'' = Inr ()"
    unfolding verify_queued_signature_def sgf pick jstr_JStr pad_verifies by (simp add: pad_crypto_ok)
  have key: "jget demo_descriptor ''destination_public_key_hex'' = JStr (key_hex CHR ''k'')" by (simp add: demo_descriptor_def)
  have match: "jget demo_receipt ''domain'' = JStr ''agentbridge.queued-receipt.v2''" "jget demo_receipt ''authorization_sha256'' = JStr demo_sha"
    "list_all (\<lambda>n. jget demo_receipt n = jget demo_auth n) bound_fields" "jget demo_receipt ''outcome'' = JStr ''succeeded''"
    "jget demo_receipt ''external_reference'' = jget demo_result_fields ''effect_id''" "jget demo_receipt ''result_sha256'' = JStr demo_sha"
    "jget demo_receipt ''destination_key_id'' = jget demo_descriptor ''destination_key_id''"
    by (simp_all add: demo_receipt_def demo_unsigned_fields bound_fields_def demo_auth_def demo_fields_def demo_result_fields_def demo_descriptor_def)
  have nums: "jget demo_receipt ''committed_at'' = JFloat (Fin 12)" "jget demo_auth ''issued_at'' = JInt 10" "jget demo_auth ''expires_at'' = JInt 15"
    by (simp_all add: demo_receipt_def demo_unsigned_fields demo_auth_def demo_fields_def)
  have w: "queued_seconds (JFloat (Fin 12))" "num_value (JInt n) = of_int n" "num_value (JFloat (Fin q)) = q" for n q
    by (simp_all add: queued_seconds_def within_seconds_def num_value_def)
  have "receipt_checks pad_crypto Some (JObj demo_receipt) demo_auth demo_sha demo_action (JObj demo_descriptor) (JObj demo_result_fields) = Inr ()"
    unfolding receipt_checks_def descriptor_normalized bindE_simps json.case keys c [OF fin(1)] c [OF fin(2)] demo_result_ok
      canonical_queued_receipt_payload_def c [OF fin(3)] nums key jstr_JStr pad_sha
    using demo_sizes match w sig by (simp add: require_def)
  then show ?thesis
    by (simp add: verify_queued_destination_receipt_def demo_auth_accepted fields_of_def untrusted_def c [OF fin(1)])
qed

lemma demo_commit_queued:
  "\<exists>r row. commit_queued pad_crypto Some demo_signer (Some demo_descriptor) (JObj demo_auth) demo_action False 12 12 demo_file
     = (Inr r, demo_file\<lparr>sd_queued := [row]\<rparr>)"
proof -
  have fin: "finite_json (JObj demo_auth)" "finite_json (JObj demo_receipt)" "finite_json (JObj demo_result_fields)"
    by (simp_all add: demo_auth_def demo_fields_def demo_receipt_def demo_unsigned_fields demo_result_fields_def)
  have c: "canonical_queued_json v = Inr (dumps_compact v)" if "finite_json v" for v
    using that by (simp add: canonical_queued_Inr)
  have "json_ok (JObj demo_auth)"
    using descriptor_size by (simp add: demo_auth_def demo_fields_def)
  then have l: "loads (dumps_compact (JObj demo_auth)) = Some (JObj demo_auth)" using loads_dumps_compact auth_sorted by metis
  have scope: "jget demo_auth ''fence_scope'' = JStr ''s''" "jget demo_auth ''result_limit_bytes'' = JInt 65536"
    by (simp_all add: demo_auth_def demo_fields_def)
  have held: "map_of (fd_fences demo_file) ''s'' = Some \<lparr>fn_owner = ''o'', fn_epoch = 1, fn_expires = 100\<rparr>" "sd_queued demo_file = []"
    by (simp_all add: demo_file_def create_queued_tables_def empty_dest_def)
  have fence: "fence_allows demo_auth \<lparr>fn_owner = ''o'', fn_epoch = 1, fn_expires = 100\<rparr> 12"
    by (simp add: fence_allows_def demo_auth_def demo_fields_def num_value_def)
  let ?row = "queued_row_of demo_auth demo_sha demo_action (dumps_compact (JObj demo_auth)) demo_result_fields
     (dumps_compact (JObj demo_result_fields)) demo_receipt (dumps_compact (JObj demo_receipt)) demo_sha 12"
  have "prepared pad_crypto Some demo_signer demo_descriptor demo_auth demo_action 12 12 demo_file ?row demo_result_fields demo_receipt"
    unfolding prepared_def
    using demo_file_qualified scope held fence demo_auth_accepted demo_result_ok demo_receipt_signed [unfolded demo_unsigned_def] demo_receipt_verifies
    by simp
  from insert_prepared [OF this pad_crypto_ok(1)] have ins: "insert_queued ?row demo_file = (Inr (), demo_file\<lparr>sd_queued := [?row]\<rparr>)"
    by (simp add: held)
  have "queued_transaction pad_crypto Some demo_signer demo_descriptor demo_auth demo_action 12 12 demo_file
     = (Inr (demo_result_fields, demo_receipt), demo_file\<lparr>sd_queued := [?row]\<rparr>)"
    by (simp add: queued_transaction_def bindP_def demo_file_qualified scope held demo_auth_accepted fence num_value_def demo_result_ok
        c [OF fin(1)] c [OF fin(2)] c [OF fin(3)] demo_receipt_signed [unfolded demo_unsigned_def] demo_receipt_verifies ins
        del: finite_json.simps)
  then show ?thesis
    by (simp add: commit_queued_def bindP_def demo_auth_accepted c [OF fin(1)] l) blast
qed

section \<open>Properties\<close>

text \<open>
  C10: A queued destination file keeps evidence of everything it did.  Whatever workers, signers and authorizations
  it meets: every row of its effect table satisfies the table's constraints, the texts stored in it can be
  read back, and the receipt among them verifies against the stored authorization, action and result under
  the keys of the descriptor; no operation and no attempt of a tenant occurs twice; and the effects
  follow the fence, so a replaced leader applies nothing.
\<close>

theorem queued_effects_are_evidence:
  assumes "queued_table_ok C fs desc s" and "list_all clock_double es"
  shows "queued_table_ok C fs desc (queued_run C fs desc es s)
    \<and> sorted_wrt fenced_order (fence_run (queued_step C fs desc) es s)
    \<and> distinct (List.map_filter applied_key (fence_run (queued_step C fs desc) es s))"
  using run_keeps_table [OF assms] qd.run_ordered qd.run_applied_once by blast

lemma commit_grows:
  assumes "commit_queued C fs sign (Some desc) authorization action lose_ack now now' s = (r, s')"
  shows "sd_queued s' = sd_queued s \<or> (\<exists>row. sd_queued s' = sd_queued s @ [row])"
  using commit_mark [OF assms] by auto

lemma demo_clock: "double 12"
  by (simp add: double_def float_max_def)

theorem queued_effects_are_evidence_witness:
  "let es = [QCommit demo_signer (JObj demo_auth) demo_action False 12 12, QCommit demo_signer (JObj demo_auth) demo_action False 12 12];
       s = queued_run pad_crypto Some demo_descriptor es demo_file
   in sd_queued s \<noteq> [] \<and> queued_table_ok pad_crypto Some demo_descriptor s
      \<and> distinct (List.map_filter applied_key (fence_run (queued_step pad_crypto Some demo_descriptor) es demo_file))"
proof -
  let ?c = "QCommit demo_signer (JObj demo_auth) demo_action False 12 12"
  obtain r row where c: "commit_queued pad_crypto Some demo_signer (Some demo_descriptor) (JObj demo_auth) demo_action False 12 12 demo_file
     = (Inr r, demo_file\<lparr>sd_queued := [row]\<rparr>)" using demo_commit_queued by blast
  have "queued_table_ok pad_crypto Some demo_descriptor demo_file" "list_all clock_double [?c, ?c]"
    using demo_clock by (simp_all add: queued_table_ok_def demo_file_def create_queued_tables_def empty_dest_def)
  note ev = queued_effects_are_evidence [OF this]
  obtain r' t where c': "commit_queued pad_crypto Some demo_signer (Some demo_descriptor) (JObj demo_auth) demo_action False 12 12
      (demo_file\<lparr>sd_queued := [row]\<rparr>) = (r', t)" by (metis surj_pair)
  have "queued_run pad_crypto Some demo_descriptor [?c, ?c] demo_file = t" by (simp add: c c')
  with commit_grows [OF c'] have "sd_queued (queued_run pad_crypto Some demo_descriptor [?c, ?c] demo_file) \<noteq> []" by auto
  with ev show ?thesis unfolding Let_def by blast
qed

text \<open>
  C30: The descriptor type: whatever \<^verbatim>\<open>normalize_queued_descriptor\<close> accepts is a well-formed descriptor (exactly the
  known fields, bounded identifiers, three distinct keys and key names, a timeout of at most ten seconds, an absolute
  path), and well-formed descriptors are closed under it: normalizing again changes nothing, so the authorizer,
  the destination and the observer compute the same configuration digest from the configured and from the
  normalized descriptor.
\<close>

theorem normalized_descriptor_is_stable:
  assumes "resolver_ok fs" and "normalize_queued_descriptor fs v = Inr d"
  shows "descriptor_wf d \<and> normalize_queued_descriptor fs (JObj d) = Inr d
    \<and> queued_descriptor_sha256 C fs (JObj d) = queued_descriptor_sha256 C fs v"
  using normalized_wf [OF assms] assms(2) by (simp add: queued_descriptor_sha256_def)

text \<open>A file system with one symbolic link.\<close>

definition link_resolver :: resolver where
  "link_resolver p = (if CHR 0x00 \<in> set p then None else if p = ''/link'' then Some ''/d'' else Some p)"

lemma link_resolver_ok: "resolver_ok link_resolver"
  by (auto simp: resolver_ok_def link_resolver_def starts_with_def)

theorem normalized_descriptor_is_stable_witness:
  "\<exists>d. normalize_queued_descriptor link_resolver (JObj (AList.update ''path'' (JStr ''/link'') demo_descriptor)) = Inr d
     \<and> d \<noteq> AList.update ''path'' (JStr ''/link'') demo_descriptor
     \<and> descriptor_wf d \<and> normalize_queued_descriptor link_resolver (JObj d) = Inr d"
proof -
  have "normalize_queued_descriptor link_resolver (JObj (AList.update ''path'' (JStr ''/link'') demo_descriptor)) = Inr demo_descriptor"
    by (rule descriptor_normalized_by) (simp_all add: link_resolver_def queued_path_ok_def starts_with_def bslash_def)
  moreover have "demo_descriptor \<noteq> AList.update ''path'' (JStr ''/link'') demo_descriptor"
    by (simp add: demo_descriptor_def)
  ultimately show ?thesis using normalized_descriptor_is_stable [OF link_resolver_ok] by blast
qed

end
