(* ===== verification/Oidc.thy ===== *)
theory Oidc
  imports Py_FloatText
begin

text \<open>
  Operator tokens: \<^verbatim>\<open>src/api/auth_oidc.py\<close>.

  A verifier keeps the identity provider's signing keys by key id.  PyJWT (reading a header,
  turning a JWK into a key object, decoding a token) is the parameter \<open>jwt\<close>; what a GET returns is
  the parameter \<open>net\<close> of every call that may use the network: the length of the body and its text
  (\<open>None\<close> when it is not UTF-8), or \<open>None\<close> when the request fails.  Each reading of the monotonic
  clock is an argument.  Messages that quote an exception of a library are cut before the quotation.
\<close>

section \<open>Configuration\<close>

record oidc_config =
  oc_issuer :: string
  oc_audience :: string
  oc_public_key_pem :: "string option"
  oc_jwks_url :: "string option"
  oc_algorithms :: "string list"
  oc_role_claim :: string
  oc_default_role :: string
  oc_jwks_ttl_seconds :: pynum
  oc_jwks_min_refresh_seconds :: pynum
  oc_fetch_timeout_seconds :: pynum

datatype 'k signing_key = Pem string | KeyObject 'k

record 'k jwt_library =
  get_unverified_header :: "string \<Rightarrow> (string \<times> json) list option"
  py_jwk :: "json \<Rightarrow> 'k option"
  jwt_decode :: "string \<Rightarrow> 'k signing_key \<Rightarrow> string list \<Rightarrow> string \<Rightarrow> string \<Rightarrow> (string \<times> json) list option"

type_synonym network = "string \<Rightarrow> (nat \<times> string option) option"

record 'k oidc_verifier =
  ov_config :: oidc_config
  ov_cache :: "(string \<times> ('k \<times> rat)) list"
  ov_full_fetch_at :: rat
  ov_last_attempt_at :: "rat option"
  ov_discovered :: json

text \<open>\<^verbatim>\<open>math.isfinite\<close> raises on an integer no float can hold.\<close>

definition interval_ok :: "pynum \<Rightarrow> bool res" where
  "interval_ok v = (case v of
       NumBool b \<Rightarrow> Inr False
     | NumInt n \<Rightarrow> if to_float v = None then Inl (Exn OverflowError ''int too large to convert to float'') else Inr (n > 0)
     | NumFloat x \<Rightarrow> Inr (case x of Fin q \<Rightarrow> q > 0 | _ \<Rightarrow> False)
     | NumOther r \<Rightarrow> Inr False)"

fun intervals_ok :: "pynum list \<Rightarrow> unit res" where
  "intervals_ok [] = Inr ()"
| "intervals_ok (v # vs) = bindE (interval_ok v) (\<lambda>ok.
     if \<not> ok then Inl (Exn ValueError ''OIDC cache and timeout intervals must be finite and positive'') else intervals_ok vs)"

definition oidc_new :: "oidc_config \<Rightarrow> 'k oidc_verifier res" where
  "oidc_new cfg =
     bindE (intervals_ok [oc_jwks_ttl_seconds cfg, oc_jwks_min_refresh_seconds cfg, oc_fetch_timeout_seconds cfg]) (\<lambda>_.
       Inr \<lparr>ov_config = cfg, ov_cache = [], ov_full_fetch_at = 0, ov_last_attempt_at = None, ov_discovered = JNull\<rparr>)"

text \<open>The number itself: Python compares an \<open>int\<close> with a \<open>float\<close> exactly.\<close>

fun interval :: "pynum \<Rightarrow> rat" where
  "interval (NumInt n) = of_int n"
| "interval (NumFloat (Fin q)) = q"
| "interval _ = 0"

section \<open>Fetching the key set\<close>

definition fetch_url :: "network \<Rightarrow> string \<Rightarrow> string option res" where
  "fetch_url net url = (case net url of
       None \<Rightarrow> Inl (Exn OtherError ''urlopen'')
     | Some (n, body) \<Rightarrow> if n > 1024 * 1024 then Inl (Exn OidcError ''OIDC metadata response exceeds size limit'') else Inr body)"

definition fetch_json :: "network \<Rightarrow> string \<Rightarrow> json option" where
  "fetch_json net url = (case fetch_url net url of
       Inl e \<Rightarrow> None
     | Inr None \<Rightarrow> None
     | Inr (Some t) \<Rightarrow> loads t)"

definition rstrip_slash :: "string \<Rightarrow> string" where
  "rstrip_slash s = rev (dropWhile (\<lambda>c. c = CHR ''/'') (rev s))"

definition discover_jwks_url :: "network \<Rightarrow> ('k oidc_verifier, json) prog" where
  "discover_jwks_url net v =
     (if truthy (ov_discovered v) then (Inr (ov_discovered v), v)
      else (case fetch_json net (rstrip_slash (oc_issuer (ov_config v)) @ ''/.well-known/openid-configuration'') of
              Some (JObj data) \<Rightarrow> (Inr (jget data ''jwks_uri''), v\<lparr>ov_discovered := jget data ''jwks_uri''\<rparr>)
            | _ \<Rightarrow> (Inr JNull, v)))"

definition fetch_jwks :: "network \<Rightarrow> ('k oidc_verifier, json) prog" where
  "fetch_jwks net =
     bindP (getP (\<lambda>v. oc_jwks_url (ov_config v))) (\<lambda>configured.
     bindP (case configured of
              Some u \<Rightarrow> if u = [] then discover_jwks_url net else retP (JStr u)
            | None \<Rightarrow> discover_jwks_url net) (\<lambda>url.
       if \<not> truthy url then raiseP OidcError ''no JWKS URL configured and OIDC discovery failed''
       else (case url of
               JStr u \<Rightarrow> (case fetch_json net u of
                            Some j \<Rightarrow> retP j
                          | None \<Rightarrow> raiseP OidcError (''failed to fetch JWKS from '' @ u))
             | _ \<Rightarrow> raiseP OidcError ''failed to fetch JWKS from '')))"

section \<open>The key for a key id\<close>

definition valid_kid :: "string \<Rightarrow> bool" where
  "valid_kid k \<longleftrightarrow> 1 \<le> length k \<and> length k \<le> 128"

definition refreshed_entry :: "'k jwt_library \<Rightarrow> json \<Rightarrow> (string \<times> 'k) option" where
  "refreshed_entry jwt jwk = (case jwk of
       JObj d \<Rightarrow>
         (case py_or (jget d ''kid'') (JStr ''_default'') of
            JStr k \<Rightarrow> if valid_kid k then map_option (\<lambda>key. (k, key)) (py_jwk jwt jwk) else None
          | _ \<Rightarrow> None)
     | _ \<Rightarrow> None)"

fun refreshed :: "'k jwt_library \<Rightarrow> rat \<Rightarrow> json list \<Rightarrow> (string \<times> ('k \<times> rat)) list \<Rightarrow> (string \<times> ('k \<times> rat)) list" where
  "refreshed jwt seen [] acc = acc"
| "refreshed jwt seen (j # js) acc =
     refreshed jwt seen js (case refreshed_entry jwt j of None \<Rightarrow> acc | Some (k, key) \<Rightarrow> AList.update k (key, seen) acc)"

definition cache_key :: "json \<Rightarrow> string res" where
  "cache_key kid = (case kid of
       JNull \<Rightarrow> Inr ''_default''
     | JStr k \<Rightarrow> if valid_kid k then Inr k else Inl (Exn OidcError ''invalid signing key identifier'')
     | _ \<Rightarrow> Inl (Exn OidcError ''invalid signing key identifier''))"

definition cached_key :: "rat \<Rightarrow> string \<Rightarrow> 'k oidc_verifier \<Rightarrow> 'k option" where
  "cached_key now k v = (case map_of (ov_cache v) k of
       Some (key, seen) \<Rightarrow> if fsub now seen < interval (oc_jwks_ttl_seconds (ov_config v)) then Some key else None
     | None \<Rightarrow> None)"

definition rate_limited :: "rat \<Rightarrow> 'k oidc_verifier \<Rightarrow> bool" where
  "rate_limited now v \<longleftrightarrow> (case ov_last_attempt_at v of
       None \<Rightarrow> False
     | Some seen \<Rightarrow> fsub now seen < interval (oc_jwks_min_refresh_seconds (ov_config v)))"

definition refresh_keys :: "'k jwt_library \<Rightarrow> network \<Rightarrow> rat \<Rightarrow> rat \<Rightarrow> string \<Rightarrow> ('k oidc_verifier, 'k) prog" where
  "refresh_keys jwt net now fetched_at k =
     bindP (putP (\<lambda>v. v\<lparr>ov_last_attempt_at := Some now\<rparr>)) (\<lambda>_.
     bindP (fetch_jwks net) (\<lambda>jwks.
       case jwks of
         JObj d \<Rightarrow>
           (case jget d ''keys'' of
              JArr keys \<Rightarrow>
                if length keys > 128 then raiseP OidcError ''malformed or oversized JWKS key collection''
                else bindP (putP (\<lambda>v. v\<lparr>ov_cache := refreshed jwt fetched_at keys [], ov_full_fetch_at := fetched_at\<rparr>)) (\<lambda>_.
                     bindP (getP (\<lambda>v. map_of (ov_cache v) k)) (\<lambda>entry.
                       case entry of
                         Some (key, _) \<Rightarrow> retP key
                       | None \<Rightarrow> raiseP OidcError ''no signing key found for kid in JWKS''))
            | _ \<Rightarrow> raiseP OidcError ''malformed or oversized JWKS key collection'')
       | _ \<Rightarrow> raiseP OidcError ''malformed or oversized JWKS key collection''))"

definition key_for_kid :: "'k jwt_library \<Rightarrow> network \<Rightarrow> rat \<Rightarrow> rat \<Rightarrow> json \<Rightarrow> ('k oidc_verifier, 'k) prog" where
  "key_for_kid jwt net now fetched_at kid =
     bindP (liftP (cache_key kid)) (\<lambda>k.
     bindP (getP (cached_key now k)) (\<lambda>cached.
       case cached of
         Some key \<Rightarrow> retP key
       | None \<Rightarrow>
           bindP (getP (rate_limited now)) (\<lambda>limited.
             if limited then raiseP OidcError ''signing key unavailable; JWKS refresh temporarily rate limited''
             else refresh_keys jwt net now fetched_at k)))"

definition resolve_signing_key ::
  "'k jwt_library \<Rightarrow> network \<Rightarrow> rat \<Rightarrow> rat \<Rightarrow> (string \<times> json) list \<Rightarrow> ('k oidc_verifier, 'k signing_key) prog" where
  "resolve_signing_key jwt net now fetched_at header =
     bindP (getP (\<lambda>v. oc_public_key_pem (ov_config v))) (\<lambda>pem.
       if pem \<noteq> None \<and> pem \<noteq> Some [] then retP (Pem (the pem))
       else bindP (key_for_kid jwt net now fetched_at (jget header ''kid'')) (\<lambda>key. retP (KeyObject key)))"

section \<open>Verifying a token\<close>

definition unset :: "string option \<Rightarrow> bool" where
  "unset x \<longleftrightarrow> x = None \<or> x = Some []"

definition oidc_verify ::
  "'k jwt_library \<Rightarrow> network \<Rightarrow> rat \<Rightarrow> rat \<Rightarrow> string \<Rightarrow> ('k oidc_verifier, (string \<times> json) list) prog" where
  "oidc_verify jwt net now fetched_at token =
     bindP (getP ov_config) (\<lambda>cfg.
     bindP (checkP (\<not> (unset (oc_public_key_pem cfg) \<and> unset (oc_jwks_url cfg) \<and> oc_issuer cfg = [])) OidcError
              ''no signing key configured (set public_key_pem, jwks_url, or issuer)'') (\<lambda>_.
       case get_unverified_header jwt token of
         None \<Rightarrow> raiseP OidcError ''malformed token header''
       | Some header \<Rightarrow>
           bindP (resolve_signing_key jwt net now fetched_at header) (\<lambda>key.
             case jwt_decode jwt token key (oc_algorithms cfg) (oc_audience cfg) (oc_issuer cfg) of
               None \<Rightarrow> raiseP OidcError ''token verification failed''
             | Some claims \<Rightarrow> retP claims)))"

definition role_of :: "oidc_config \<Rightarrow> (string \<times> json) list \<Rightarrow> json" where
  "role_of cfg claims = jget_or claims (oc_role_claim cfg) (JStr (oc_default_role cfg))"

definition bearer_token :: "string \<Rightarrow> string" where
  "bearer_token header =
     (if take 7 (py_lower header) = ''bearer '' then py_strip (tl (dropWhile (\<lambda>c. c \<noteq> CHR '' '') header)) else header)"

definition oidc_authenticate ::
  "'k jwt_library \<Rightarrow> network \<Rightarrow> rat \<Rightarrow> rat \<Rightarrow> string option \<Rightarrow> ('k oidc_verifier, (string \<times> json) list \<times> json) prog" where
  "oidc_authenticate jwt net now fetched_at header =
     (if unset header then raiseP OidcError ''missing Authorization header''
      else bindP (oidc_verify jwt net now fetched_at (bearer_token (the header))) (\<lambda>claims.
           bindP (getP ov_config) (\<lambda>cfg. retP (claims, role_of cfg claims))))"

section \<open>Which keys are trusted\<close>

text \<open>Whether a call goes to the network, and the key set a successful fetch yields.\<close>

definition refreshes :: "rat \<Rightarrow> json \<Rightarrow> 'k oidc_verifier \<Rightarrow> bool" where
  "refreshes now kid v \<longleftrightarrow> (case cache_key kid of
       Inl e \<Rightarrow> False
     | Inr k \<Rightarrow> cached_key now k v = None \<and> \<not> rate_limited now v)"

definition served :: "network \<Rightarrow> 'k oidc_verifier \<Rightarrow> json list option" where
  "served net v = (case fst (fetch_jwks net v) of
       Inr (JObj d) \<Rightarrow> (case jget d ''keys'' of JArr ks \<Rightarrow> if length ks > 128 then None else Some ks | _ \<Rightarrow> None)
     | _ \<Rightarrow> None)"

definition fetched :: "network \<Rightarrow> rat \<Rightarrow> rat \<Rightarrow> json \<Rightarrow> 'k oidc_verifier \<Rightarrow> (rat \<times> json list) list" where
  "fetched net now f kid v =
     (if refreshes now kid v then (case served net v of Some ks \<Rightarrow> [(f, ks)] | None \<Rightarrow> []) else [])"

text \<open>The states of a verifier, with the key sets it has fetched, the latest first.\<close>

inductive jwks_reach :: "'k jwt_library \<Rightarrow> (rat \<times> json list) list \<Rightarrow> 'k oidc_verifier \<Rightarrow> bool" for jwt where
  new: "oidc_new cfg = Inr v \<Longrightarrow> jwks_reach jwt [] v"
| call: "jwks_reach jwt H v \<Longrightarrow> key_for_kid jwt net now f kid v = (r, v') \<Longrightarrow> jwks_reach jwt (fetched net now f kid v @ H) v'"

definition keys_of :: "'k jwt_library \<Rightarrow> (rat \<times> json list) list \<Rightarrow> (string \<times> ('k \<times> rat)) list" where
  "keys_of jwt H = (case H of [] \<Rightarrow> [] | (f, ks) # _ \<Rightarrow> refreshed jwt f ks [])"

lemma discover_keeps: "ov_cache (snd (discover_jwks_url net v)) = ov_cache v
    \<and> ov_last_attempt_at (snd (discover_jwks_url net v)) = ov_last_attempt_at v \<and> ov_config (snd (discover_jwks_url net v)) = ov_config v"
  by (auto simp: discover_jwks_url_def split: option.splits json.splits)

lemma fetch_keeps:
  assumes "fetch_jwks net v = (r, v')"
  shows "ov_cache v' = ov_cache v \<and> ov_last_attempt_at v' = ov_last_attempt_at v \<and> ov_config v' = ov_config v"
proof -
  have "v' = v \<or> v' = snd (discover_jwks_url net v)"
    using assms by (auto simp: fetch_jwks_def bindP_def split: option.splits if_splits prod.splits sum.splits json.splits)
  with discover_keeps [of net v] show ?thesis by auto
qed

text \<open>The address asked does not depend on when the last attempt was made.\<close>

lemma served_attempt: "served net (v\<lparr>ov_last_attempt_at := x\<rparr>) = served net v"
proof -
  have "fst (discover_jwks_url net (v\<lparr>ov_last_attempt_at := x\<rparr>)) = fst (discover_jwks_url net v)"
    by (auto simp: discover_jwks_url_def split: option.splits json.splits)
  then have "fst (fetch_jwks net (v\<lparr>ov_last_attempt_at := x\<rparr>)) = fst (fetch_jwks net v)"
    by (auto simp: fetch_jwks_def bindP_def case_prod_beta split: option.splits sum.splits json.splits)
  then show ?thesis by (simp add: served_def)
qed

lemma refresh_keys_cache:
  assumes "refresh_keys jwt net now f k v = (r, v')"
  shows "ov_cache v' = (case served net v of Some ks \<Rightarrow> refreshed jwt f ks [] | None \<Rightarrow> ov_cache v)"
    and "r = Inr key \<Longrightarrow> \<exists>ks seen. served net v = Some ks \<and> map_of (refreshed jwt f ks []) k = Some (key, seen)"
proof -
  let ?v = "v\<lparr>ov_last_attempt_at := Some now\<rparr>"
  obtain x u where u: "fetch_jwks net ?v = (x, u)" by (metis surj_pair)
  from fetch_keeps [OF u] have c: "ov_cache u = ov_cache v" by simp
  have s: "served net v = (case x of
       Inr (JObj d) \<Rightarrow> (case jget d ''keys'' of JArr ks \<Rightarrow> if length ks > 128 then None else Some ks | _ \<Rightarrow> None)
     | _ \<Rightarrow> None)" using served_attempt [of net "Some now" v] u by (simp add: served_def)
  show "ov_cache v' = (case served net v of Some ks \<Rightarrow> refreshed jwt f ks [] | None \<Rightarrow> ov_cache v)"
    using assms u c unfolding s
    by (auto simp: refresh_keys_def bindP_def split: sum.splits json.splits if_splits option.splits)
  show "\<exists>ks seen. served net v = Some ks \<and> map_of (refreshed jwt f ks []) k = Some (key, seen)" if "r = Inr key"
    using assms u that unfolding s
    by (auto simp: refresh_keys_def bindP_def split: sum.splits json.splits if_splits option.splits)
qed

lemma key_for_kid_cases:
  assumes "key_for_kid jwt net now f kid v = (r, v')"
  obtains "\<not> refreshes now kid v" "v' = v" "\<And>key. r = Inr key \<Longrightarrow> \<exists>k. cache_key kid = Inr k \<and> cached_key now k v = Some key"
  | k where "refreshes now kid v" "cache_key kid = Inr k" "refresh_keys jwt net now f k v = (r, v')"
  using assms
  by (cases "cache_key kid")
    (auto simp: key_for_kid_def refreshes_def bindP_def split: option.splits if_splits)

lemma reach_cache: "jwks_reach jwt H v \<Longrightarrow> ov_cache v = keys_of jwt H"
proof (induction rule: jwks_reach.induct)
  case (new cfg v)
  then show ?case by (auto simp: oidc_new_def bindE_Inr_iff keys_of_def)
next
  case (call H v net now f kid r v')
  from call.hyps(2) show ?case
  proof (cases rule: key_for_kid_cases)
    case 1
    then show ?thesis using call.IH by (simp add: fetched_def)
  next
    case (2 k)
    from refresh_keys_cache(1) [OF 2(3)] 2(1) call.IH show ?thesis
      by (simp add: fetched_def keys_of_def split: option.splits)
  qed
qed

lemma refreshed_source:
  assumes "map_of (refreshed jwt f ks acc) k = Some (key, seen)"
  shows "map_of acc k = Some (key, seen) \<or> (seen = f \<and> (\<exists>j \<in> set ks. refreshed_entry jwt j = Some (k, key)))"
  using assms
proof (induction ks arbitrary: acc)
  case (Cons j js)
  from Cons.IH [of "case refreshed_entry jwt j of None \<Rightarrow> acc | Some (k, key) \<Rightarrow> AList.update k (key, f) acc"] Cons.prems
  show ?case by (auto split: option.splits if_splits)
qed simp


definition demo_keys :: json where
  "demo_keys = JObj [(''keys'', JArr [JObj [(''kid'', JStr ''a'')]])]"

definition demo_net :: network where
  "demo_net url = Some (24, Some (dumps_compact demo_keys))"

definition demo_lib :: "unit jwt_library" where
  "demo_lib = \<lparr>get_unverified_header = (\<lambda>_. None), py_jwk = (\<lambda>_. Some ()), jwt_decode = (\<lambda>_ _ _ _ _. None)\<rparr>"

definition demo_oidc :: oidc_config where
  "demo_oidc = \<lparr>oc_issuer = ''i'', oc_audience = ''ab'', oc_public_key_pem = None, oc_jwks_url = Some ''u'', oc_algorithms = [],
     oc_role_claim = ''role'', oc_default_role = ''viewer'', oc_jwks_ttl_seconds = NumFloat (Fin 900),
     oc_jwks_min_refresh_seconds = NumFloat (Fin 5), oc_fetch_timeout_seconds = NumFloat (Fin 5)\<rparr>"

definition demo_fresh :: "unit oidc_verifier" where
  "demo_fresh = \<lparr>ov_config = demo_oidc, ov_cache = [], ov_full_fetch_at = 0, ov_last_attempt_at = None, ov_discovered = JNull\<rparr>"

lemma demo_loads: "loads (dumps_compact demo_keys) = Some demo_keys"
proof -
  have "json_ok demo_keys" "sort_json demo_keys = demo_keys" by (simp_all add: demo_keys_def)
  then show ?thesis by (metis loads_dumps_compact)
qed

lemma demo_key: "\<exists>v. key_for_kid demo_lib demo_net 10 11 (JStr ''a'') demo_fresh = (Inr (), v)"
  by (simp add: key_for_kid_def cache_key_def valid_kid_def cached_key_def rate_limited_def refresh_keys_def fetch_jwks_def
      fetch_json_def fetch_url_def demo_net_def demo_loads [unfolded demo_keys_def] demo_fresh_def demo_oidc_def bindP_def demo_keys_def
      refreshed_entry_def py_or_def demo_lib_def)


end
