(* ===== verification/Authority.thy ===== *)
theory Authority
  imports Principals Oidc
begin

text \<open>
  The authority directory of tenant mode: \<^verbatim>\<open>src/governance/authority.py\<close>.

  The tables of the directory are association lists keyed by their primary keys; a row keeps the
  columns that are not part of the key, scopes as the JSON text the column holds.  Revisions are
  unbounded integers.  \<open>clk i\<close> is what the \<open>i\<close>-th call of \<^verbatim>\<open>time.time()\<close> in an operation returns;
  nothing is assumed of it.  The fresh grant id of \<^verbatim>\<open>uuid4\<close> is an argument.  An operation runs in
  \<open>au_transaction\<close>, which commits, rolls back, and refuses a nested transaction that would need a
  stronger lock.
\<close>

section \<open>Tables\<close>

record tenant_row =
  tn_revision :: int
  tn_active :: bool

record admin_row =
  pa_revision :: int
  pa_active :: bool

record member_row =
  mb_role :: string
  mb_revision :: int
  mb_active :: bool
  mb_capabilities :: string
  mb_targets :: string

record agent_row =
  ar_key :: string
  ar_revision :: int
  ar_active :: bool
  ar_capabilities :: string
  ar_targets :: string

record grant_row =
  gr_agent :: string
  gr_agent_revision :: int
  gr_user_issuer :: string
  gr_user_subject :: string
  gr_user_revision :: int
  gr_grantor_issuer :: string
  gr_grantor_subject :: string
  gr_grantor_kind :: string
  gr_grantor_revision :: int
  gr_capabilities :: string
  gr_targets :: string
  gr_not_before :: rat
  gr_expires_at :: rat
  gr_tenant_revision :: int
  gr_revision :: int
  gr_active :: bool

record authority_db =
  ad_tenants :: "(string \<times> tenant_row) list"
  ad_admins :: "((string \<times> string) \<times> admin_row) list"
  ad_members :: "((string \<times> string \<times> string) \<times> member_row) list"
  ad_agents :: "((string \<times> string) \<times> agent_row) list"
  ad_grants :: "((string \<times> string) \<times> grant_row) list"
  ad_replays :: "((string \<times> string \<times> string) \<times> rat) list"

record 'k directory =
  dr_db :: authority_db
  dr_key :: string
  dr_verifiers :: "(string \<times> 'k oidc_verifier) list"
  dr_sqlite :: bool
  dr_active :: "(bool \<times> bool) option"

definition tenant_roles :: "string list" where
  "tenant_roles = [''tenant_admin'', ''tenant_operator'', ''tenant_viewer'']"

definition agent_kinds :: "string list" where
  "agent_kinds = [''machine'', ''delegated_human'']"

section \<open>Transactions\<close>

text \<open>
  \<open>dr_active\<close> is the running transaction of the thread: whether it writes and whether it claims.
\<close>

definition au_transaction :: "bool \<Rightarrow> bool \<Rightarrow> bool \<Rightarrow> ('k directory, 'a) prog \<Rightarrow> ('k directory, 'a) prog" where
  "au_transaction write claim bootstrap body d =
     (case dr_active d of
        Some (writing, claiming) \<Rightarrow>
          if (write \<and> \<not> writing) \<or> (claim \<and> \<not> (writing \<or> claiming)) \<or> bootstrap
          then (Inl (Exn RuntimeError ''nested authority transaction cannot escalate its lock''), d)
          else body d
      | None \<Rightarrow>
          (case body (d\<lparr>dr_active := Some (write, claim)\<rparr>) of
             (Inl e, d') \<Rightarrow> (Inl e, d)
           | (Inr a, d') \<Rightarrow> (Inr a, d'\<lparr>dr_active := None\<rparr>)))"

definition on_db :: "(authority_db \<Rightarrow> 'a res) \<Rightarrow> ('k directory, 'a) prog" where
  "on_db f d = (f (dr_db d), d)"

definition update_db :: "(authority_db \<Rightarrow> authority_db) \<Rightarrow> ('k directory, unit) prog" where
  "update_db f = putP (\<lambda>d. d\<lparr>dr_db := f (dr_db d)\<rparr>)"

text \<open>\<^verbatim>\<open>INSERT ... ON CONFLICT(key) DO UPDATE\<close>.\<close>

definition upsert :: "'k \<Rightarrow> 'v \<Rightarrow> ('v \<Rightarrow> 'v) \<Rightarrow> ('k \<times> 'v) list \<Rightarrow> ('k \<times> 'v) list" where
  "upsert k v f rows = AList.update k (case map_of rows k of None \<Rightarrow> v | Some r \<Rightarrow> f r) rows"

text \<open>What enrolment and revocation make of a row.\<close>

definition admin_row_of :: "int \<Rightarrow> admin_row" where
  "admin_row_of revision = \<lparr>pa_revision = revision, pa_active = True\<rparr>"

definition retired_admin :: "admin_row \<Rightarrow> admin_row" where
  "retired_admin r = \<lparr>pa_revision = pa_revision r + 1, pa_active = False\<rparr>"

definition member_row_of :: "string \<times> string list \<times> string list \<Rightarrow> int \<Rightarrow> member_row" where
  "member_row_of = (\<lambda>(role, cs, ts) revision. \<lparr>mb_role = role, mb_revision = revision, mb_active = True,
     mb_capabilities = scope_text cs, mb_targets = scope_text ts\<rparr>)"

definition retired_member :: "member_row \<Rightarrow> member_row" where
  "retired_member r = r\<lparr>mb_revision := mb_revision r + 1, mb_active := False\<rparr>"

definition agent_row_of :: "string \<times> string list \<times> string list \<Rightarrow> int \<Rightarrow> agent_row" where
  "agent_row_of = (\<lambda>(key_hex, cs, ts) revision. \<lparr>ar_key = py_lower key_hex, ar_revision = revision, ar_active = True,
     ar_capabilities = scope_text cs, ar_targets = scope_text ts\<rparr>)"

definition retired_agent :: "agent_row \<Rightarrow> agent_row" where
  "retired_agent r = r\<lparr>ar_revision := ar_revision r + 1, ar_active := False\<rparr>"

section \<open>Current enrolment\<close>

definition au_tenant :: "string option \<Rightarrow> authority_db \<Rightarrow> tenant_row res" where
  "au_tenant t db = (case Option.bind t (map_of (ad_tenants db)) of
       Some r \<Rightarrow> if tn_active r then Inr r else Inl (Exn AuthorityDenied ''tenant unavailable'')
     | None \<Rightarrow> Inl (Exn AuthorityDenied ''tenant unavailable''))"

definition au_platform :: "string \<Rightarrow> string \<Rightarrow> authority_db \<Rightarrow> admin_row res" where
  "au_platform issuer subject db = (case map_of (ad_admins db) (issuer, subject) of
       Some r \<Rightarrow> if pa_active r then Inr r else Inl (Exn AuthorityDenied ''platform authority unavailable'')
     | None \<Rightarrow> Inl (Exn AuthorityDenied ''platform authority unavailable''))"

definition au_member :: "string option \<Rightarrow> string \<Rightarrow> string \<Rightarrow> authority_db \<Rightarrow> member_row res" where
  "au_member t issuer subject db = (case Option.bind t (\<lambda>t. map_of (ad_members db) (t, issuer, subject)) of
       Some r \<Rightarrow> if mb_active r then Inr r else Inl (Exn AuthorityDenied ''tenant membership unavailable'')
     | None \<Rightarrow> Inl (Exn AuthorityDenied ''tenant membership unavailable''))"

definition au_agent :: "string option \<Rightarrow> string option \<Rightarrow> authority_db \<Rightarrow> agent_row res" where
  "au_agent t a db = (case Option.bind t (\<lambda>t. Option.bind a (\<lambda>a. map_of (ad_agents db) (t, a))) of
       Some r \<Rightarrow> if ar_active r then Inr r else Inl (Exn AuthorityDenied ''agent enrollment unavailable'')
     | None \<Rightarrow> Inl (Exn AuthorityDenied ''agent enrollment unavailable''))"

text \<open>The grantor's row: its revision, when it still administers.\<close>

definition au_grantor :: "string option \<Rightarrow> grant_row \<Rightarrow> authority_db \<Rightarrow> int res" where
  "au_grantor t g db =
     (if gr_grantor_kind g = ''platform_admin''
      then bindE (au_platform (gr_grantor_issuer g) (gr_grantor_subject g) db) (\<lambda>r. Inr (pa_revision r))
      else bindE (au_member t (gr_grantor_issuer g) (gr_grantor_subject g) db) (\<lambda>r.
             if mb_role r \<noteq> ''tenant_admin'' then Inl (Exn AuthorityDenied ''delegation grantor no longer an administrator'')
             else Inr (mb_revision r)))"

definition au_grant :: "rat \<Rightarrow> string option \<Rightarrow> string option \<Rightarrow> string \<Rightarrow> agent_row \<Rightarrow> authority_db \<Rightarrow> grant_row res" where
  "au_grant now t gid agent_id agent db =
     (case Option.bind t (\<lambda>t. Option.bind gid (\<lambda>g. map_of (ad_grants db) (t, g))) of
        None \<Rightarrow> Inl (Exn AuthorityDenied ''delegation unavailable or stale'')
      | Some g \<Rightarrow>
          if \<not> gr_active g \<or> \<not> (gr_not_before g \<le> now \<and> now < gr_expires_at g)
             \<or> gr_agent g \<noteq> agent_id \<or> gr_agent_revision g \<noteq> ar_revision agent
          then Inl (Exn AuthorityDenied ''delegation unavailable or stale'')
          else bindE (au_tenant t db) (\<lambda>tn.
               if gr_tenant_revision g \<noteq> tn_revision tn then Inl (Exn AuthorityDenied ''delegation tenant revision changed'')
               else bindE (au_member t (gr_user_issuer g) (gr_user_subject g) db) (\<lambda>user.
                    bindE (au_grantor t g db) (\<lambda>grantor_revision.
                      if mb_revision user \<noteq> gr_user_revision g \<or> grantor_revision \<noteq> gr_grantor_revision g
                      then Inl (Exn AuthorityDenied ''delegation enrollment revision changed'')
                      else Inr g))))"

text \<open>\<^verbatim>\<open>_current\<close> reads the clock for the seal, and again for a delegation.\<close>

definition au_current :: "crypto \<Rightarrow> string \<Rightarrow> (nat \<Rightarrow> rat) \<Rightarrow> nat \<Rightarrow> principal \<Rightarrow> authority_db \<Rightarrow> unit res" where
  "au_current C key clk i p db =
     bindE (verify_seal C key (clk i) p) (\<lambda>_.
       if p_kind p = ''platform_admin''
       then bindE (au_platform (p_issuer p) (p_subject p) db) (\<lambda>r.
              if p_tenant p \<noteq> None \<or> pa_revision r \<noteq> p_revision p then Inl (Exn AuthorityDenied ''platform authority changed'')
              else Inr ())
       else bindE (au_tenant (p_tenant p) db) (\<lambda>tn.
              if tn_revision tn \<noteq> p_tenant_revision p then Inl (Exn AuthorityDenied ''tenant authority changed'')
              else if p_kind p \<in> set tenant_roles
              then bindE (au_member (p_tenant p) (p_issuer p) (p_subject p) db) (\<lambda>r.
                     if mb_role r \<noteq> p_kind p \<or> mb_revision r \<noteq> p_revision p
                     then Inl (Exn AuthorityDenied ''membership authority changed'') else Inr ())
              else if p_kind p \<in> set agent_kinds
              then bindE (au_agent (p_tenant p) (p_agent p) db) (\<lambda>r.
                     if ar_revision r \<noteq> p_agent_revision p then Inl (Exn AuthorityDenied ''agent authority changed'')
                     else if p_kind p = ''delegated_human''
                     then bindE (au_grant (clk (Suc i)) (p_tenant p) (p_delegation p) (the (p_agent p)) r db) (\<lambda>g.
                            if gr_revision g \<noteq> p_delegation_revision p
                            then Inl (Exn AuthorityDenied ''delegation revision changed'') else Inr ())
                     else Inr ())
              else Inl (Exn AuthorityDenied ''unsupported principal kind'')))"

definition currentP :: "crypto \<Rightarrow> (nat \<Rightarrow> rat) \<Rightarrow> nat \<Rightarrow> principal \<Rightarrow> ('k directory, unit) prog" where
  "currentP C clk i p d = (au_current C (dr_key d) clk i p (dr_db d), d)"

definition assert_current :: "crypto \<Rightarrow> (nat \<Rightarrow> rat) \<Rightarrow> principal \<Rightarrow> ('k directory, principal) prog" where
  "assert_current C clk p = bindP (au_transaction False False False (currentP C clk 0 p)) (\<lambda>_. retP p)"

definition assert_request :: "crypto \<Rightarrow> (nat \<Rightarrow> rat) \<Rightarrow> principal \<Rightarrow> string \<Rightarrow> string \<Rightarrow> ('k directory, principal) prog" where
  "assert_request C clk p body nonce =
     bindP (assert_current C clk p) (\<lambda>_.
     bindP (checkP (p_kind p \<in> set agent_kinds \<and> p_body_sha256 p = sha_hex C body \<and> p_nonce p = nonce)
              AuthorityDenied ''principal proof is bound to a different request'') (\<lambda>_.
       retP p))"

text \<open>A local operation serialised with authority changes; SQLite needs the write lock for it.\<close>

definition au_guard :: "crypto \<Rightarrow> (nat \<Rightarrow> rat) \<Rightarrow> principal \<Rightarrow> bool \<Rightarrow> ('k directory, 'a) prog \<Rightarrow> ('k directory, 'a) prog" where
  "au_guard C clk p write body =
     bindP (getP dr_sqlite) (\<lambda>sqlite.
       au_transaction write sqlite False (bindP (currentP C clk 0 p) (\<lambda>_. body)))"

definition au_admin :: "crypto \<Rightarrow> (nat \<Rightarrow> rat) \<Rightarrow> nat \<Rightarrow> principal \<Rightarrow> string option \<Rightarrow> ('k directory, unit) prog" where
  "au_admin C clk i actor t =
     bindP (currentP C clk i actor) (\<lambda>_.
       checkP (p_kind actor = ''platform_admin'' \<or> (t \<noteq> None \<and> p_kind actor = ''tenant_admin'' \<and> p_tenant actor = t))
         AuthorityDenied ''appropriately scoped administrator required'')"

section \<open>Enrolment\<close>

definition known_issuer :: "string \<Rightarrow> 'k directory \<Rightarrow> bool" where
  "known_issuer issuer d \<longleftrightarrow> map_of (dr_verifiers d) issuer \<noteq> None"

definition requireP :: "('s \<Rightarrow> bool) \<Rightarrow> exc_class \<Rightarrow> string \<Rightarrow> ('s, unit) prog" where
  "requireP b c msg s = (if b s then (Inr (), s) else (Inl (Exn c msg), s))"

definition bootstrap_platform_admin :: "string \<Rightarrow> string \<Rightarrow> ('k directory, unit) prog" where
  "bootstrap_platform_admin issuer subject =
     bindP (requireP (known_issuer issuer) ValueError ''trusted issuer required'') (\<lambda>_.
     bindP (liftP (au_subject subject)) (\<lambda>_.
     au_transaction True False False (
       bindP (requireP (\<lambda>d. ad_admins (dr_db d) = []) AuthorityDenied ''platform bootstrap is permanently closed'') (\<lambda>_.
       update_db (\<lambda>db. db\<lparr>ad_admins := ad_admins db @ [((issuer, subject), admin_row_of 1)]\<rparr>)))))"

definition set_tenant :: "crypto \<Rightarrow> (nat \<Rightarrow> rat) \<Rightarrow> principal \<Rightarrow> string \<Rightarrow> bool \<Rightarrow> ('k directory, unit) prog" where
  "set_tenant C clk actor t active =
     bindP (liftP (au_identifier ''tenant_id'' t)) (\<lambda>_.
     au_transaction True False False (
       bindP (au_admin C clk 0 actor None) (\<lambda>_.
       update_db (\<lambda>db. db\<lparr>ad_tenants := upsert t \<lparr>tn_revision = 1, tn_active = active\<rparr>
         (\<lambda>r. \<lparr>tn_revision = tn_revision r + 1, tn_active = active\<rparr>) (ad_tenants db)\<rparr>))))"

definition enroll_platform_admin :: "crypto \<Rightarrow> (nat \<Rightarrow> rat) \<Rightarrow> principal \<Rightarrow> string \<Rightarrow> string \<Rightarrow> ('k directory, unit) prog" where
  "enroll_platform_admin C clk actor issuer subject =
     bindP (requireP (known_issuer issuer) ValueError ''trusted issuer required'') (\<lambda>_.
     bindP (liftP (au_subject subject)) (\<lambda>_.
     au_transaction True False False (
       bindP (au_admin C clk 0 actor None) (\<lambda>_.
       update_db (\<lambda>db. db\<lparr>ad_admins := upsert (issuer, subject) (admin_row_of 1)
         (\<lambda>r. admin_row_of (pa_revision r + 1)) (ad_admins db)\<rparr>)))))"

definition revoke_platform_admin :: "crypto \<Rightarrow> (nat \<Rightarrow> rat) \<Rightarrow> principal \<Rightarrow> string \<Rightarrow> string \<Rightarrow> ('k directory, unit) prog" where
  "revoke_platform_admin C clk actor issuer subject =
     au_transaction True False False (
       bindP (au_admin C clk 0 actor None) (\<lambda>_.
       bindP (on_db (au_platform issuer subject)) (\<lambda>_.
       bindP (requireP (\<lambda>d. \<not> length (filter (\<lambda>(k, r). pa_active r) (ad_admins (dr_db d))) \<le> 1) AuthorityDenied
                ''cannot revoke the last active platform administrator'') (\<lambda>_.
       update_db (\<lambda>db. db\<lparr>ad_admins := AList.map_entry (issuer, subject) retired_admin (ad_admins db)\<rparr>)))))"

definition enroll_member ::
  "crypto \<Rightarrow> (nat \<Rightarrow> rat) \<Rightarrow> principal \<Rightarrow> string \<Rightarrow> string \<Rightarrow> string \<Rightarrow> string \<Rightarrow> string list \<Rightarrow> string list \<Rightarrow> ('k directory, unit) prog" where
  "enroll_member C clk actor t issuer subject role capabilities targets =
     bindP (liftP (au_identifier ''tenant_id'' t)) (\<lambda>_.
     bindP (liftP (au_subject subject)) (\<lambda>_.
     bindP (requireP (\<lambda>d. role \<in> set tenant_roles \<and> known_issuer issuer d) ValueError
              ''enrolled tenant role and configured issuer required'') (\<lambda>_.
     bindP (liftP (au_scopes capabilities)) (\<lambda>cs.
     bindP (liftP (au_scopes targets)) (\<lambda>ts.
     au_transaction True False False (
       bindP (au_admin C clk 0 actor (Some t)) (\<lambda>_.
       bindP (on_db (au_tenant (Some t))) (\<lambda>_.
       update_db (\<lambda>db. db\<lparr>ad_members := upsert (t, issuer, subject) (member_row_of (role, cs, ts) 1)
         (\<lambda>r. member_row_of (role, cs, ts) (mb_revision r + 1)) (ad_members db)\<rparr>)))))))))"

definition is_hex :: "nat \<Rightarrow> string \<Rightarrow> bool" where
  "is_hex n s \<longleftrightarrow> length s = n \<and> list_all (\<lambda>c. hex_val c \<noteq> None) s"

definition enroll_agent ::
  "crypto \<Rightarrow> (nat \<Rightarrow> rat) \<Rightarrow> principal \<Rightarrow> string \<Rightarrow> string \<Rightarrow> string \<Rightarrow> string list \<Rightarrow> string list \<Rightarrow> ('k directory, unit) prog" where
  "enroll_agent C clk actor t agent key_hex capabilities targets =
     bindP (liftP (au_identifier ''tenant_id'' t)) (\<lambda>_.
     bindP (liftP (au_identifier ''agent_id'' agent)) (\<lambda>_.
     bindP (checkP (is_hex 64 key_hex) ValueError ''32-byte Ed25519 enrollment key required'') (\<lambda>_.
     bindP (liftP (au_scopes capabilities)) (\<lambda>cs.
     bindP (liftP (au_scopes targets)) (\<lambda>ts.
     au_transaction True False False (
       bindP (au_admin C clk 0 actor (Some t)) (\<lambda>_.
       bindP (on_db (au_tenant (Some t))) (\<lambda>_.
       update_db (\<lambda>db. db\<lparr>ad_agents := upsert (t, agent) (agent_row_of (key_hex, cs, ts) 1)
         (\<lambda>r. agent_row_of (key_hex, cs, ts) (ar_revision r + 1)) (ad_agents db)\<rparr>)))))))))"

definition revoke_agent :: "crypto \<Rightarrow> (nat \<Rightarrow> rat) \<Rightarrow> principal \<Rightarrow> string \<Rightarrow> string \<Rightarrow> ('k directory, unit) prog" where
  "revoke_agent C clk actor t agent =
     au_transaction True False False (
       bindP (au_admin C clk 0 actor (Some t)) (\<lambda>_.
       bindP (on_db (au_agent (Some t) (Some agent))) (\<lambda>_.
       update_db (\<lambda>db. db\<lparr>ad_agents := AList.map_entry (t, agent) retired_agent (ad_agents db)\<rparr>))))"

definition revoke_member :: "crypto \<Rightarrow> (nat \<Rightarrow> rat) \<Rightarrow> principal \<Rightarrow> string \<Rightarrow> string \<Rightarrow> string \<Rightarrow> ('k directory, unit) prog" where
  "revoke_member C clk actor t issuer subject =
     au_transaction True False False (
       bindP (au_admin C clk 0 actor (Some t)) (\<lambda>_.
       bindP (on_db (au_member (Some t) issuer subject)) (\<lambda>_.
       update_db (\<lambda>db. db\<lparr>ad_members := AList.map_entry (t, issuer, subject) retired_member (ad_members db)\<rparr>))))"

definition list_agents ::
  "crypto \<Rightarrow> (nat \<Rightarrow> rat) \<Rightarrow> principal \<Rightarrow> string \<Rightarrow> ('k directory, (string \<times> string \<times> string \<times> int \<times> bool) list) prog" where
  "list_agents C clk actor t =
     au_transaction False False False (
       bindP (au_admin C clk 0 actor (Some t)) (\<lambda>_.
       bindP (on_db (au_tenant (Some t))) (\<lambda>_.
       on_db (\<lambda>db. Inr (map (\<lambda>((t', a), r). (t', a, ar_key r, ar_revision r, ar_active r))
         (sort_key (\<lambda>((t', a), r). a) (filter (\<lambda>((t', a), r). t' = t) (ad_agents db))))))))"

section \<open>Delegation\<close>

text \<open>A number an argument may be: not a \<open>bool\<close>, finite; the value is exact.\<close>

definition finite_number :: "json \<Rightarrow> rat option res" where
  "finite_number v = (case v of
       JInt n \<Rightarrow> if to_float (NumInt n) = None then Inl (Exn OverflowError ''int too large to convert to float'')
                 else Inr (Some (of_int n))
     | JFloat (Fin q) \<Rightarrow> Inr (Some q)
     | _ \<Rightarrow> Inr None)"

text \<open>\<^verbatim>\<open>not_before < expires_at <= min(user.valid_until, now + 3600)\<close> with the lower bound \<open>now\<close>.\<close>

definition delegation_period :: "rat \<Rightarrow> json \<Rightarrow> json \<Rightarrow> json option \<Rightarrow> (rat \<times> rat) res" where
  "delegation_period now valid_until expires_at not_before =
     bindE (finite_number expires_at) (\<lambda>e.
     bindE (if e = None then Inr None
            else case not_before of None \<Rightarrow> Inr (Some now) | Some v \<Rightarrow> finite_number v) (\<lambda>b.
       case (e, b, num_of valid_until) of
         (Some e, Some b, Some (Fin u)) \<Rightarrow>
           if now \<le> b \<and> b < e \<and> e \<le> min u (fadd now 3600) then Inr (b, e)
           else Inl (Exn ValueError ''bounded delegation inside authenticated consent lifetime required'')
       | _ \<Rightarrow> Inl (Exn ValueError ''bounded delegation inside authenticated consent lifetime required'')))"

definition grant_delegation ::
  "crypto \<Rightarrow> (nat \<Rightarrow> rat) \<Rightarrow> string \<Rightarrow> principal \<Rightarrow> principal \<Rightarrow> string \<Rightarrow> string list \<Rightarrow> string list \<Rightarrow> json \<Rightarrow> json option
     \<Rightarrow> ('k directory, string) prog" where
  "grant_delegation C clk fresh actor user agent_id capabilities targets expires_at not_before =
     bindP (getP dr_key) (\<lambda>key.
     bindP (liftP (verify_seal C key (clk 0) user)) (\<lambda>_.
     bindP (checkP (p_kind user \<in> set tenant_roles \<and> p_tenant user \<noteq> None) AuthorityDenied
              ''authenticated tenant user consent context required'') (\<lambda>_.
     bindP (liftP (au_scopes capabilities)) (\<lambda>cs.
     bindP (liftP (au_scopes targets)) (\<lambda>ts.
     bindP (liftP (delegation_period (clk 1) (p_valid_until user) expires_at not_before)) (\<lambda>(b, e).
     au_transaction True False False (
       bindP (au_admin C clk 2 actor (p_tenant user)) (\<lambda>_.
       bindP (currentP C clk 4 user) (\<lambda>_.
       bindP (liftP (au_identifier ''agent_id'' agent_id)) (\<lambda>_.
       bindP (on_db (au_agent (p_tenant user) (Some agent_id))) (\<lambda>agent.
       bindP (checkP (cs \<noteq> []) AuthorityDenied ''delegation exceeds enrolled user or agent scopes'') (\<lambda>_.
       bindP (liftP (read_scopes (ar_capabilities agent))) (\<lambda>acs.
       bindP (checkP (set cs \<subseteq> set (p_capabilities user) \<inter> set acs) AuthorityDenied
                ''delegation exceeds enrolled user or agent scopes'') (\<lambda>_.
       bindP (liftP (read_scopes (ar_targets agent))) (\<lambda>ats.
       bindP (checkP (set ts \<subseteq> set (p_targets user) \<inter> set ats) AuthorityDenied
                ''delegation exceeds enrolled user or agent scopes'') (\<lambda>_.
       bindP (requireP (\<lambda>d. map_of (ad_grants (dr_db d)) (the (p_tenant user), fresh) = None) IntegrityError
                ''authority_delegations'') (\<lambda>_.
       bindP (update_db (\<lambda>db. db\<lparr>ad_grants := ad_grants db @ [((the (p_tenant user), fresh),
         \<lparr>gr_agent = agent_id, gr_agent_revision = ar_revision agent, gr_user_issuer = p_issuer user,
          gr_user_subject = p_subject user, gr_user_revision = p_revision user, gr_grantor_issuer = p_issuer actor,
          gr_grantor_subject = p_subject actor, gr_grantor_kind = p_kind actor, gr_grantor_revision = p_revision actor,
          gr_capabilities = scope_text cs, gr_targets = scope_text ts, gr_not_before = fl b, gr_expires_at = fl e,
          gr_tenant_revision = p_tenant_revision user, gr_revision = 1, gr_active = True\<rparr>)]\<rparr>)) (\<lambda>_.
       retP fresh))))))))))))))))))"

definition revoke_delegation :: "crypto \<Rightarrow> (nat \<Rightarrow> rat) \<Rightarrow> principal \<Rightarrow> string \<Rightarrow> string \<Rightarrow> ('k directory, unit) prog" where
  "revoke_delegation C clk actor t gid =
     au_transaction True False False (
       bindP (au_admin C clk 0 actor (Some t)) (\<lambda>_.
       bindP (requireP (\<lambda>d. map_of (ad_grants (dr_db d)) (t, gid) \<noteq> None) AuthorityDenied ''delegation unavailable'') (\<lambda>_.
       update_db (\<lambda>db. db\<lparr>ad_grants := AList.map_entry (t, gid)
         (\<lambda>g. g\<lparr>gr_active := False, gr_revision := gr_revision g + 1\<rparr>) (ad_grants db)\<rparr>))))"

section \<open>Authentication\<close>

definition mintP :: "crypto \<Rightarrow> principal \<Rightarrow> ('k directory, principal) prog" where
  "mintP C p d = (au_mint C (dr_key d) p, d)"

definition on_verifier :: "string \<Rightarrow> ('k oidc_verifier, 'a) prog \<Rightarrow> ('k directory, 'a) prog" where
  "on_verifier issuer m d = (case map_of (dr_verifiers d) issuer of
       None \<Rightarrow> (Inl (Exn AuthorityDenied ''trusted issuer and bounded signed token required''), d)
     | Some v \<Rightarrow> (case m v of (r, v') \<Rightarrow> (r, d\<lparr>dr_verifiers := AList.update issuer v' (dr_verifiers d)\<rparr>)))"

definition operator_claims :: "rat \<Rightarrow> string \<Rightarrow> string option \<Rightarrow> (string \<times> json) list \<Rightarrow> (string \<times> json) res" where
  "operator_claims now issuer tenant claims =
     bindE (case jget claims ''sub'' of JStr s \<Rightarrow> au_subject s | _ \<Rightarrow> Inl (Exn ValueError ''invalid bounded subject'')) (\<lambda>subject.
     bindE (finite_number (jget claims ''exp'')) (\<lambda>expires.
       if \<not> (case expires of Some e \<Rightarrow> e > now | None \<Rightarrow> False) then Inl (Exn ValueError ''explicit token expiry required'')
       else if jget claims ''iss'' \<noteq> JStr issuer
               \<or> (map_of claims ''tenant_id'' \<noteq> None \<and> jget claims ''tenant_id'' \<noteq> text_or_null tenant)
       then Inl (Exn ValueError ''conflicting verified tenant or issuer'')
       else bindE (case tenant of None \<Rightarrow> Inr [] | Some t \<Rightarrow> au_identifier ''tenant_id'' t) (\<lambda>_.
            Inr (subject, jget claims ''exp''))))"

definition denied_operator :: "exn \<Rightarrow> ('s, 'a) prog" where
  "denied_operator e =
     (if exn_class e \<in> {OidcError, ValueError, TypeError}
      then raiseP AuthorityDenied ''operator token is not valid for enrolled authority''
      else liftP (Inl e))"

definition operator_login ::
  "rat \<Rightarrow> 'k jwt_library \<Rightarrow> network \<Rightarrow> rat \<Rightarrow> rat \<Rightarrow> string \<Rightarrow> string \<Rightarrow> string option \<Rightarrow> ('k directory, string \<times> json) prog" where
  "operator_login now jwt net tick tick' issuer token tenant =
     handleP (bindP (on_verifier issuer (oidc_verify jwt net tick tick' token)) (\<lambda>claims.
              liftP (operator_claims now issuer tenant claims))) denied_operator"

definition authenticate_operator ::
  "crypto \<Rightarrow> (nat \<Rightarrow> rat) \<Rightarrow> 'k jwt_library \<Rightarrow> network \<Rightarrow> rat \<Rightarrow> rat \<Rightarrow> string \<Rightarrow> string \<Rightarrow> string option
     \<Rightarrow> ('k directory, principal) prog" where
  "authenticate_operator C clk jwt net tick tick' issuer token tenant =
     bindP (requireP (\<lambda>d. known_issuer issuer d \<and> 1 \<le> length token \<and> length token \<le> 16384) AuthorityDenied
              ''trusted issuer and bounded signed token required'') (\<lambda>_.
     bindP (operator_login (clk 0) jwt net tick tick' issuer token tenant) (\<lambda>(subject, expires).
     au_transaction False False False (
       case tenant of
         None \<Rightarrow>
           bindP (on_db (au_platform issuer subject)) (\<lambda>r.
           mintP C ((plain_principal None subject issuer ''platform_admin'' (pa_revision r))\<lparr>p_valid_until := expires\<rparr>))
       | Some t \<Rightarrow>
           bindP (on_db (au_tenant tenant)) (\<lambda>tn.
           bindP (on_db (au_member tenant issuer subject)) (\<lambda>r.
           bindP (liftP (read_scopes (mb_capabilities r))) (\<lambda>cs.
           bindP (liftP (read_scopes (mb_targets r))) (\<lambda>ts.
           mintP C ((plain_principal tenant subject issuer (mb_role r) (mb_revision r))
             \<lparr>p_tenant_revision := tn_revision tn, p_valid_until := expires, p_capabilities := cs, p_targets := ts\<rparr>))))))))"

definition agent_principal ::
  "crypto \<Rightarrow> string \<Rightarrow> string \<Rightarrow> tenant_row \<Rightarrow> string \<Rightarrow> agent_row \<Rightarrow> (string \<times> grant_row) option \<Rightarrow> rat \<Rightarrow> string \<Rightarrow> string
     \<Rightarrow> principal res" where
  "agent_principal C key t tn agent_id agent grant valid_until body_sha nonce =
     (case grant of
        Some (gid, g) \<Rightarrow>
          bindE (read_scopes (gr_capabilities g)) (\<lambda>cs.
          bindE (read_scopes (gr_targets g)) (\<lambda>ts.
          au_mint C key ((plain_principal (Some t) (gr_user_subject g) (gr_user_issuer g) ''delegated_human'' (ar_revision agent))
            \<lparr>p_tenant_revision := tn_revision tn, p_agent := Some agent_id, p_agent_revision := ar_revision agent,
             p_delegation := Some gid, p_delegation_revision := gr_revision g, p_user_revision := gr_user_revision g,
             p_grantor_revision := gr_grantor_revision g, p_valid_until := JFloat (Fin (min (gr_expires_at g) valid_until)),
             p_capabilities := cs, p_targets := ts, p_body_sha256 := body_sha, p_nonce := nonce\<rparr>)))
      | None \<Rightarrow>
          bindE (read_scopes (ar_capabilities agent)) (\<lambda>cs.
          bindE (read_scopes (ar_targets agent)) (\<lambda>ts.
          au_mint C key ((plain_principal (Some t) agent_id ''urn:agentbridge:enrollment'' ''machine'' (ar_revision agent))
            \<lparr>p_tenant_revision := tn_revision tn, p_agent := Some agent_id, p_agent_revision := ar_revision agent,
             p_valid_until := JFloat (Fin valid_until), p_capabilities := cs, p_targets := ts,
             p_body_sha256 := body_sha, p_nonce := nonce\<rparr>))))"

text \<open>
  The checks before the database is read; every one of them ends in the same refusal.  The result is
  the signed bytes and the time stamp of the nonce.
\<close>

definition signed_request ::
  "crypto \<Rightarrow> rat \<Rightarrow> string \<Rightarrow> string \<Rightarrow> string \<Rightarrow> string \<Rightarrow> string \<Rightarrow> string option \<Rightarrow> (string \<times> rat) option" where
  "signed_request C now t agent nonce body signature_hex delegation =
     (if length body > 1048576 \<or> length nonce > 256 \<or> \<not> is_hex 128 signature_hex then None
      else (case canonical_tenant_payload C t agent nonce body delegation of
              Inl e \<Rightarrow> None
            | Inr data \<Rightarrow>
                (case split_first CHR '':'' nonce of
                   [stamp, random] \<Rightarrow>
                     (case float_of_string stamp of
                        Some (Fin s) \<Rightarrow> if \<bar>fsub now s\<bar> > 300 \<or> length random < 16 then None else Some (data, s)
                      | _ \<Rightarrow> None)
                 | _ \<Rightarrow> None)))"

definition authenticate_agent ::
  "crypto \<Rightarrow> (nat \<Rightarrow> rat) \<Rightarrow> string \<Rightarrow> string \<Rightarrow> string \<Rightarrow> string \<Rightarrow> string \<Rightarrow> string option \<Rightarrow> ('k directory, principal) prog" where
  "authenticate_agent C clk t agent_id nonce body signature_hex delegation =
     (case signed_request C (clk 0) t agent_id nonce body signature_hex delegation of
        None \<Rightarrow> raiseP AuthorityDenied ''invalid signed tenant request''
      | Some (data, stamp) \<Rightarrow>
          au_transaction False True False (
            bindP (on_db (au_tenant (Some t))) (\<lambda>tn.
            bindP (on_db (au_agent (Some t) (Some agent_id))) (\<lambda>agent.
            bindP (checkP (case (fromhex (ar_key agent), fromhex signature_hex) of
                             (Some pk, Some sg) \<Rightarrow> length pk = 32 \<and> ed_verify C pk sg data
                           | _ \<Rightarrow> False) AuthorityDenied ''enrolled request signature required'') (\<lambda>_.
            bindP (case delegation of
                     None \<Rightarrow> retP None
                   | Some gid \<Rightarrow> bindP (on_db (au_grant (clk 1) (Some t) delegation agent_id agent)) (\<lambda>g. retP (Some (gid, g)))) (\<lambda>grant.
            bindP (requireP (\<lambda>d. map_of (ad_replays (dr_db d)) (t, agent_id, nonce) = None) AuthorityDenied
                     ''signed request replay denied'') (\<lambda>_.
            bindP (update_db (\<lambda>db. db\<lparr>ad_replays := ad_replays db @ [((t, agent_id, nonce), clk 2)]\<rparr>)) (\<lambda>_.
            bindP (getP dr_key) (\<lambda>key.
            liftP (agent_principal C key t tn agent_id agent grant (fadd stamp 300) (sha_hex C body) nonce))))))))))"

definition au_authorize ::
  "crypto \<Rightarrow> (nat \<Rightarrow> rat) \<Rightarrow> principal \<Rightarrow> string \<Rightarrow> string option \<Rightarrow> ('k directory, principal) prog" where
  "au_authorize C clk p capability target =
     bindP (au_transaction False False False (
       bindP (currentP C clk 0 p) (\<lambda>_.
       checkP (p_kind p \<in> set agent_kinds \<and> capability \<in> set (p_capabilities p)
               \<and> (case target of None \<Rightarrow> True | Some x \<Rightarrow> x \<in> set (p_targets p))) AuthorityDenied
         ''action outside authenticated principal scope''))) (\<lambda>_.
     retP p)"

definition prune_replays :: "crypto \<Rightarrow> (nat \<Rightarrow> rat) \<Rightarrow> principal \<Rightarrow> int \<Rightarrow> ('k directory, nat) prog" where
  "prune_replays C clk actor limit =
     bindP (checkP (1 \<le> limit \<and> limit \<le> 10000) ValueError ''bounded replay retention batch required'') (\<lambda>_.
     au_transaction True False False (
       bindP (au_admin C clk 0 actor None) (\<lambda>_.
       bindP (getP (\<lambda>d. take (nat limit) (sort_key snd (filter (\<lambda>(k, seen). seen < fsub (clk 2) 600) (ad_replays (dr_db d)))))) (\<lambda>doomed.
       bindP (update_db (\<lambda>db. db\<lparr>ad_replays := filter (\<lambda>(k, seen). k \<notin> set (map fst doomed)) (ad_replays db)\<rparr>)) (\<lambda>_.
       retP (length doomed))))))"

section \<open>When an operation returns\<close>

lemma transaction_ok:
  "dr_active d = None \<Longrightarrow> au_transaction w c False body d = (Inr a, d') \<longleftrightarrow>
     (\<exists>e. body (d\<lparr>dr_active := Some (w, c)\<rparr>) = (Inr a, e) \<and> d' = e\<lparr>dr_active := None\<rparr>)"
  by (auto simp: au_transaction_def split: prod.splits sum.splits)

lemma transaction_exn: "dr_active d = None \<Longrightarrow> au_transaction w c b body d = (Inl e, d') \<Longrightarrow> d' = d"
  by (auto simp: au_transaction_def split: prod.splits sum.splits)

lemma on_db_ok: "on_db f d = (Inr a, d') \<longleftrightarrow> f (dr_db d) = Inr a \<and> d' = d"
  by (auto simp: on_db_def)

lemma update_db_ok: "update_db f d = (Inr a, d') \<longleftrightarrow> d' = d\<lparr>dr_db := f (dr_db d)\<rparr>"
  by (auto simp: update_db_def)

lemma currentP_ok: "currentP C clk i p d = (Inr a, d') \<longleftrightarrow> au_current C (dr_key d) clk i p (dr_db d) = Inr () \<and> d' = d"
  by (auto simp: currentP_def)

lemma requireP_ok: "requireP b c m s = (Inr u, s') \<longleftrightarrow> b s \<and> s' = s"
  by (auto simp: requireP_def)

lemma liftP_returns: "liftP r s = (Inr a, s') \<longleftrightarrow> r = Inr a \<and> s' = s"
  by auto

lemma getP_returns: "getP f s = (Inr a, s') \<longleftrightarrow> a = f s \<and> s' = s"
  by auto

lemma retP_returns: "retP x s = (Inr a, s') \<longleftrightarrow> a = x \<and> s' = s"
  by auto

definition administers :: "crypto \<Rightarrow> (nat \<Rightarrow> rat) \<Rightarrow> nat \<Rightarrow> principal \<Rightarrow> string option \<Rightarrow> 'k directory \<Rightarrow> bool" where
  "administers C clk i actor t d \<longleftrightarrow> au_current C (dr_key d) clk i actor (dr_db d) = Inr ()
     \<and> (p_kind actor = ''platform_admin'' \<or> (t \<noteq> None \<and> p_kind actor = ''tenant_admin'' \<and> p_tenant actor = t))"

lemma au_admin_ok: "au_admin C clk i actor t d = (Inr a, d') \<longleftrightarrow> administers C clk i actor t d \<and> d' = d"
  by (auto simp: au_admin_def administers_def bindP_ok_iff currentP_ok)

lemma mintP_ok: "mintP C p d = (Inr q, d') \<longleftrightarrow> au_mint C (dr_key d) p = Inr q \<and> d' = d"
  by (auto simp: mintP_def)

lemmas au_ok = bindP_ok_iff transaction_ok on_db_ok update_db_ok currentP_ok requireP_ok liftP_returns getP_returns retP_returns
  au_admin_ok mintP_ok checkP_ok_iff

lemma in_transaction [simp]: "administers C clk i p t (d\<lparr>dr_active := x\<rparr>) = administers C clk i p t d"
  "known_issuer s (d\<lparr>dr_active := x\<rparr>) = known_issuer s d"
  by (simp_all add: administers_def known_issuer_def)

definition changed :: "(authority_db \<Rightarrow> authority_db) \<Rightarrow> 'k directory \<Rightarrow> 'k directory" where
  "changed f d = d\<lparr>dr_db := f (dr_db d)\<rparr>"

lemma back_out: "dr_active d = None \<Longrightarrow> d\<lparr>dr_active := x, dr_db := y, dr_active := None\<rparr> = d\<lparr>dr_db := y\<rparr>"
  "dr_active d = None \<Longrightarrow> d\<lparr>dr_active := None\<rparr> = d"
  "dr_active d = None \<Longrightarrow> d\<lparr>dr_active := None, dr_db := y\<rparr> = d\<lparr>dr_db := y\<rparr>"
  by simp_all

lemma bootstrap_ok:
  assumes "dr_active d = None" and "bootstrap_platform_admin issuer subject d = (Inr u, d')"
  shows "ad_admins (dr_db d) = []"
    and "d' = changed (\<lambda>db. db\<lparr>ad_admins := ad_admins db @ [((issuer, subject), admin_row_of 1)]\<rparr>) d"
  using assms by (auto simp: bootstrap_platform_admin_def au_ok changed_def)

lemma set_tenant_ok:
  assumes "dr_active d = None" and "set_tenant C clk actor t active d = (Inr u, d')"
  shows "administers C clk 0 actor None d"
    and "d' = changed (\<lambda>db. db\<lparr>ad_tenants := upsert t \<lparr>tn_revision = 1, tn_active = active\<rparr>
         (\<lambda>r. \<lparr>tn_revision = tn_revision r + 1, tn_active = active\<rparr>) (ad_tenants db)\<rparr>) d"
  using assms by (auto simp: set_tenant_def au_ok changed_def)

lemma enroll_platform_admin_ok:
  assumes "dr_active d = None" and "enroll_platform_admin C clk actor issuer subject d = (Inr u, d')"
  shows "administers C clk 0 actor None d"
    and "d' = changed (\<lambda>db. db\<lparr>ad_admins := upsert (issuer, subject) (admin_row_of 1)
         (\<lambda>r. admin_row_of (pa_revision r + 1)) (ad_admins db)\<rparr>) d"
  using assms by (auto simp: enroll_platform_admin_def au_ok changed_def)

lemma revoke_platform_admin_ok:
  assumes "dr_active d = None" and "revoke_platform_admin C clk actor issuer subject d = (Inr u, d')"
  shows "administers C clk 0 actor None d"
    and "1 < length (filter (\<lambda>(k, r). pa_active r) (ad_admins (dr_db d)))"
    and "d' = changed (\<lambda>db. db\<lparr>ad_admins := AList.map_entry (issuer, subject) retired_admin (ad_admins db)\<rparr>) d"
  using assms by (auto simp: revoke_platform_admin_def au_ok changed_def)

lemma enroll_member_ok:
  assumes "dr_active d = None" and "enroll_member C clk actor t issuer subject role cap tgt d = (Inr u, d')"
  obtains cs ts where "administers C clk 0 actor (Some t) d" and "au_scopes cap = Inr cs" and "au_scopes tgt = Inr ts"
    and "d' = changed (\<lambda>db. db\<lparr>ad_members := upsert (t, issuer, subject) (member_row_of (role, cs, ts) 1)
         (\<lambda>r. member_row_of (role, cs, ts) (mb_revision r + 1)) (ad_members db)\<rparr>) d"
  using assms by (auto simp: enroll_member_def au_ok changed_def)

lemma enroll_agent_ok:
  assumes "dr_active d = None" and "enroll_agent C clk actor t agent key cap tgt d = (Inr u, d')"
  obtains cs ts where "administers C clk 0 actor (Some t) d" and "au_scopes cap = Inr cs" and "au_scopes tgt = Inr ts"
    and "d' = changed (\<lambda>db. db\<lparr>ad_agents := upsert (t, agent) (agent_row_of (key, cs, ts) 1)
         (\<lambda>r. agent_row_of (key, cs, ts) (ar_revision r + 1)) (ad_agents db)\<rparr>) d"
  using assms by (auto simp: enroll_agent_def au_ok changed_def simp del: checkP_apply)

lemma revoke_agent_ok:
  assumes "dr_active d = None" and "revoke_agent C clk actor t agent d = (Inr u, d')"
  shows "administers C clk 0 actor (Some t) d"
    and "d' = changed (\<lambda>db. db\<lparr>ad_agents := AList.map_entry (t, agent) retired_agent (ad_agents db)\<rparr>) d"
  using assms by (auto simp: revoke_agent_def au_ok changed_def)

lemma revoke_member_ok:
  assumes "dr_active d = None" and "revoke_member C clk actor t issuer subject d = (Inr u, d')"
  shows "administers C clk 0 actor (Some t) d"
    and "d' = changed (\<lambda>db. db\<lparr>ad_members := AList.map_entry (t, issuer, subject) retired_member (ad_members db)\<rparr>) d"
  using assms by (auto simp: revoke_member_def au_ok changed_def)

lemma revoke_delegation_ok:
  assumes "dr_active d = None" and "revoke_delegation C clk actor t gid d = (Inr u, d')"
  shows "administers C clk 0 actor (Some t) d"
    and "d' = changed (\<lambda>db. db\<lparr>ad_grants := AList.map_entry (t, gid)
         (\<lambda>g. g\<lparr>gr_active := False, gr_revision := gr_revision g + 1\<rparr>) (ad_grants db)\<rparr>) d"
  using assms by (auto simp: revoke_delegation_def au_ok changed_def)

lemma prune_replays_ok:
  assumes "dr_active d = None" and "prune_replays C clk actor limit d = (Inr n, d')"
  obtains doomed where "administers C clk 0 actor None d"
    and "set doomed \<subseteq> {x \<in> set (ad_replays (dr_db d)). snd x < fsub (clk 2) 600}"
    and "d' = changed (\<lambda>db. db\<lparr>ad_replays := filter (\<lambda>(k, seen). k \<notin> set (map fst doomed)) (ad_replays db)\<rparr>) d"
proof -
  let ?doomed = "take (nat limit) (sort_key snd (filter (\<lambda>(k, seen). seen < fsub (clk 2) 600) (ad_replays (dr_db d))))"
  have "set ?doomed \<subseteq> {x \<in> set (ad_replays (dr_db d)). snd x < fsub (clk 2) 600}"
    using set_take_subset [of "nat limit"] by fastforce
  with assms that [of ?doomed] show ?thesis by (auto simp: prune_replays_def au_ok changed_def simp del: checkP_apply)
qed

text \<open>A grant within the scopes of the user's context and of the agent's row.\<close>

definition delegation_row :: "principal \<Rightarrow> principal \<Rightarrow> string \<Rightarrow> agent_row \<Rightarrow> string list \<Rightarrow> string list \<Rightarrow> rat \<Rightarrow> rat \<Rightarrow> grant_row" where
  "delegation_row actor user agent_id agent cs ts b e =
     \<lparr>gr_agent = agent_id, gr_agent_revision = ar_revision agent, gr_user_issuer = p_issuer user,
      gr_user_subject = p_subject user, gr_user_revision = p_revision user, gr_grantor_issuer = p_issuer actor,
      gr_grantor_subject = p_subject actor, gr_grantor_kind = p_kind actor, gr_grantor_revision = p_revision actor,
      gr_capabilities = scope_text cs, gr_targets = scope_text ts, gr_not_before = fl b, gr_expires_at = fl e,
      gr_tenant_revision = p_tenant_revision user, gr_revision = 1, gr_active = True\<rparr>"

lemma grant_delegation_ok:
  assumes "dr_active d = None" and "grant_delegation C clk fresh actor user agent_id cap tgt expires nb d = (Inr gid, d')"
  obtains t agent cs ts acs ats b e where "p_tenant user = Some t" "p_kind user \<in> set tenant_roles"
    and "administers C clk 2 actor (Some t) d" "au_current C (dr_key d) clk 4 user (dr_db d) = Inr ()"
    and "au_agent (Some t) (Some agent_id) (dr_db d) = Inr agent"
    and "au_scopes cap = Inr cs" "au_scopes tgt = Inr ts"
    and "read_scopes (ar_capabilities agent) = Inr acs" "set cs \<subseteq> set (p_capabilities user) \<inter> set acs"
    and "read_scopes (ar_targets agent) = Inr ats" "set ts \<subseteq> set (p_targets user) \<inter> set ats"
    and "map_of (ad_grants (dr_db d)) (t, fresh) = None"
    and "delegation_period (clk 1) (p_valid_until user) expires nb = Inr (b, e)"
    and "d' = changed (\<lambda>db. db\<lparr>ad_grants := ad_grants db @ [((t, fresh), delegation_row actor user agent_id agent cs ts b e)]\<rparr>) d"
  using assms by (auto simp: grant_delegation_def au_ok changed_def delegation_row_def simp del: checkP_apply split: prod.splits)

lemma authenticate_agent_ok:
  assumes "dr_active d = None" and "authenticate_agent C clk t agent_id nonce body sg delegation d = (Inr p, d')"
  obtains data stamp tn agent grant where "signed_request C (clk 0) t agent_id nonce body sg delegation = Some (data, stamp)"
    and "au_tenant (Some t) (dr_db d) = Inr tn" "au_agent (Some t) (Some agent_id) (dr_db d) = Inr agent"
    and "case grant of None \<Rightarrow> delegation = None
         | Some (gid, g) \<Rightarrow> delegation = Some gid \<and> au_grant (clk 1) (Some t) (Some gid) agent_id agent (dr_db d) = Inr g"
    and "map_of (ad_replays (dr_db d)) (t, agent_id, nonce) = None"
    and "agent_principal C (dr_key d) t tn agent_id agent grant (fadd stamp 300) (sha_hex C body) nonce = Inr p"
    and "d' = changed (\<lambda>db. db\<lparr>ad_replays := ad_replays db @ [((t, agent_id, nonce), clk 2)]\<rparr>) d"
proof -
  from assms obtain data stamp where sr: "signed_request C (clk 0) t agent_id nonce body sg delegation = Some (data, stamp)"
    by (auto simp: authenticate_agent_def split: option.splits)
  with assms obtain tn agent grant where "au_tenant (Some t) (dr_db d) = Inr tn" "au_agent (Some t) (Some agent_id) (dr_db d) = Inr agent"
    and "case grant of None \<Rightarrow> delegation = None
         | Some (gid, g) \<Rightarrow> delegation = Some gid \<and> au_grant (clk 1) (Some t) (Some gid) agent_id agent (dr_db d) = Inr g"
    and "map_of (ad_replays (dr_db d)) (t, agent_id, nonce) = None"
    and "agent_principal C (dr_key d) t tn agent_id agent grant (fadd stamp 300) (sha_hex C body) nonce = Inr p"
    and "d' = changed (\<lambda>db. db\<lparr>ad_replays := ad_replays db @ [((t, agent_id, nonce), clk 2)]\<rparr>) d"
    by (cases delegation)
      (fastforce simp: authenticate_agent_def au_ok changed_def simp del: checkP_apply split: option.splits)+
  with sr show ?thesis by (rule that)
qed

lemma mint_ok: "au_mint C key q = Inr p \<longleftrightarrow> (\<exists>s. au_seal C key q = Inr s \<and> p = q\<lparr>p_proof := s\<rparr>)"
  by (auto simp: au_mint_def bindE_Inr_iff)

lemma same_verifiers [simp]: "\<exists>V. d = d\<lparr>dr_verifiers := V\<rparr>"
  by (intro exI [of _ "dr_verifiers d"]) simp

lemma operator_login_keeps:
  assumes "operator_login now jwt net tick tick' issuer token tenant d = (r, d')"
  obtains V where "d' = d\<lparr>dr_verifiers := V\<rparr>"
proof -
  obtain x d1 where v: "on_verifier issuer (oidc_verify jwt net tick tick' token) d = (x, d1)" by (metis surj_pair)
  from v have "\<exists>V. d1 = d\<lparr>dr_verifiers := V\<rparr>"
    by (auto simp: on_verifier_def split: option.splits prod.splits)
  moreover have "d' = d1"
    using assms v by (cases x) (auto simp: operator_login_def handleP_def denied_operator_def bindP_def split: sum.splits if_splits)
  ultimately show ?thesis using that by blast
qed

lemma operator_exn:
  assumes "dr_active d = None" and "authenticate_operator C clk jwt net tick tick' issuer token tenant d = (Inl e, d')"
  obtains V where "d' = d\<lparr>dr_verifiers := V\<rparr>"
proof -
  obtain r d1 where v: "operator_login (clk 0) jwt net tick tick' issuer token tenant d = (r, d1)" by (metis surj_pair)
  from operator_login_keeps [OF v] obtain V where d1: "d1 = d\<lparr>dr_verifiers := V\<rparr>" .
  then have "dr_active d1 = None" using assms(1) by simp
  note tx = transaction_exn [OF this]
  from assms(2) v have "d' = d \<or> d' = d1"
    by (cases r) (auto simp: authenticate_operator_def bindP_exn_iff requireP_def split: if_splits dest: tx)
  then show ?thesis using that d1 same_verifiers [of d] by blast
qed

lemma operator_ok:
  assumes "dr_active d = None" and "authenticate_operator C clk jwt net tick tick' issuer token tenant d = (Inr p, d')"
  obtains V where "d' = d\<lparr>dr_verifiers := V\<rparr>" and "tenant = None" "p_kind p = ''platform_admin''"
  | V t r where "d' = d\<lparr>dr_verifiers := V\<rparr>" and "tenant = Some t" "p_tenant p = Some t" "p_kind p = mb_role r"
    "map_of (ad_members (dr_db d)) (t, p_issuer p, p_subject p) = Some r" "p_revision p = mb_revision r"
    "read_scopes (mb_capabilities r) = Inr (p_capabilities p)" "read_scopes (mb_targets r) = Inr (p_targets p)"
proof -
  from assms(2) obtain subject expires d1
    where v: "operator_login (clk 0) jwt net tick tick' issuer token tenant d = (Inr (subject, expires), d1)"
    by (auto simp: authenticate_operator_def au_ok)
  from operator_login_keeps [OF v] obtain V where d1: "d1 = d\<lparr>dr_verifiers := V\<rparr>" .
  have act: "dr_active (d\<lparr>dr_verifiers := V\<rparr>) = None" using assms(1) by simp
  show ?thesis
  proof (cases tenant)
    case None
    with assms v d1 have "d' = d\<lparr>dr_verifiers := V\<rparr>" "p_kind p = ''platform_admin''"
      by (auto simp: authenticate_operator_def au_ok transaction_ok [OF act] mint_ok plain_principal_def)
    with None show ?thesis by (intro that(1))
  next
    case (Some t)
    with assms v d1 have "\<exists>r. d' = d\<lparr>dr_verifiers := V\<rparr> \<and> p_tenant p = Some t \<and> p_kind p = mb_role r
      \<and> map_of (ad_members (dr_db d)) (t, p_issuer p, p_subject p) = Some r \<and> p_revision p = mb_revision r
      \<and> read_scopes (mb_capabilities r) = Inr (p_capabilities p) \<and> read_scopes (mb_targets r) = Inr (p_targets p)"
      by (auto simp: authenticate_operator_def au_ok transaction_ok [OF act] mint_ok plain_principal_def au_member_def
          split: if_splits option.splits)
    with Some show ?thesis using that(2) by blast
  qed
qed

end
