(* ===== verification/Authority_Runs.thy ===== *)
theory Authority_Runs
  imports Authority
begin

text \<open>
  What the authority directory promises along any sequence of its operations.

  A presented context counts as genuine when its seal is not a forgery: if the seal verifies, then
  this directory minted the context.  That is the security of HMAC under a key that stays in the
  process, stated for the contexts that are actually presented.
\<close>

section \<open>Rows that only move forward\<close>

text \<open>
  Enrolment tables share one contract: enrolling or revoking gives the row a new revision, so a row
  is either unchanged or newer.  A context remembers the revision it was minted at.
\<close>

definition advances :: "('r \<Rightarrow> int) \<Rightarrow> ('k \<Rightarrow> 'r option) \<Rightarrow> ('k \<Rightarrow> 'r option) \<Rightarrow> bool" where
  "advances ver T T' \<longleftrightarrow> (\<forall>k r. T k = Some r \<longrightarrow> (\<exists>r'. T' k = Some r' \<and> (r' = r \<or> ver r < ver r')))"

definition remembered :: "('r \<Rightarrow> int) \<Rightarrow> ('k \<Rightarrow> 'r option) \<Rightarrow> 'k \<Rightarrow> int \<Rightarrow> ('r \<Rightarrow> bool) \<Rightarrow> bool" where
  "remembered ver T k n P \<longleftrightarrow> (\<exists>r. T k = Some r \<and> n \<le> ver r \<and> (n = ver r \<longrightarrow> P r))"

lemma advances_refl [simp]: "advances ver T T"
  by (simp add: advances_def)

lemma advances_trans: "advances ver T T' \<Longrightarrow> advances ver T' T'' \<Longrightarrow> advances ver T T''"
  unfolding advances_def by (blast intro: order_less_trans)

lemma remembered_advances:
  assumes "remembered ver T k n P" and "advances ver T T'"
  shows "remembered ver T' k n P"
proof -
  from assms(1) obtain r where r: "T k = Some r" "n \<le> ver r" "n = ver r \<longrightarrow> P r" by (auto simp: remembered_def)
  with assms(2) obtain r' where "T' k = Some r'" "r' = r \<or> ver r < ver r'" by (auto simp: advances_def)
  with r show ?thesis by (auto simp: remembered_def)
qed

lemma remembered_now: "remembered ver T k n P \<Longrightarrow> T k = Some r \<Longrightarrow> ver r = n \<Longrightarrow> P r"
  by (auto simp: remembered_def)

lemma remembered_mono: "remembered ver T k n P \<Longrightarrow> (\<And>r. P r \<Longrightarrow> Q r) \<Longrightarrow> remembered ver T k n Q"
  by (auto simp: remembered_def)

lemma map_of_upsert: "map_of (upsert k v f rows) = (map_of rows)(k \<mapsto> (case map_of rows k of None \<Rightarrow> v | Some r \<Rightarrow> f r))"
  by (simp add: upsert_def update_conv')

lemma distinct_upsert: "distinct (map fst rows) \<Longrightarrow> distinct (map fst (upsert k v f rows))"
  by (simp add: upsert_def distinct_update)

lemma upsert_advances: "(\<And>r. ver r < ver (f r)) \<Longrightarrow> advances ver (map_of rows) (map_of (upsert k v f rows))"
  by (auto simp: advances_def map_of_upsert)

lemma map_entry_advances: "(\<And>r. ver r < ver (f r)) \<Longrightarrow> advances ver (map_of rows) (map_of (AList.map_entry k f rows))"
  by (auto simp: advances_def map_of_map_entry)

locale enrolment =
  fixes revision :: "'r \<Rightarrow> int" and active :: "'r \<Rightarrow> bool"
    and enrolled :: "'c \<Rightarrow> int \<Rightarrow> 'r" and retired :: "'r \<Rightarrow> 'r"
  assumes enrolled_revision: "revision (enrolled c n) = n"
    and enrolled_active: "active (enrolled c n)"
    and retired_revision: "revision (retired r) = revision r + 1"
    and retired_inactive: "\<not> active (retired r)"
begin

lemma enrol_advances:
  "advances revision (map_of rows) (map_of (upsert k (enrolled c 1) (\<lambda>r. enrolled c (revision r + 1)) rows))"
  by (rule upsert_advances) (simp add: enrolled_revision)

lemma enrol_active:
  "\<exists>r. map_of (upsert k (enrolled c 1) (\<lambda>r. enrolled c (revision r + 1)) rows) k = Some r \<and> active r"
  by (simp add: map_of_upsert enrolled_active split: option.splits)

lemma retire_advances: "advances revision (map_of rows) (map_of (AList.map_entry k retired rows))"
  by (rule map_entry_advances) (simp add: retired_revision)

lemma retire_newer:
  "map_of rows k = Some r \<Longrightarrow> map_of (AList.map_entry k retired rows) k = Some (retired r) \<and> \<not> active (retired r)
     \<and> revision r < revision (retired r)"
  by (simp add: map_of_map_entry retired_inactive retired_revision)

lemma remembered_stale:
  assumes "map_of rows k = Some r" and "n \<le> revision r"
    and "advances revision (map_of (AList.map_entry k retired rows)) T" and "T k = Some r'"
  shows "\<not> (active r' \<and> revision r' = n)"
proof -
  note new = retire_newer [OF assms(1)]
  with assms(3,4) have "r' = retired r \<or> revision (retired r) < revision r'" unfolding advances_def by fastforce
  with new assms(2) show ?thesis by auto
qed

end

interpretation members: enrolment mb_revision mb_active member_row_of retired_member
  by unfold_locales (auto simp: member_row_of_def retired_member_def)

interpretation agents: enrolment ar_revision ar_active agent_row_of retired_agent
  by unfold_locales (auto simp: agent_row_of_def retired_agent_def)

interpretation admins: enrolment pa_revision pa_active "\<lambda>_ :: unit. admin_row_of" retired_admin
  by unfold_locales (auto simp: admin_row_of_def retired_admin_def)

section \<open>Sequences of operations\<close>

datatype 'k auth_op =
    Bootstrap string string
  | Operator "nat \<Rightarrow> rat" "'k jwt_library" network rat rat string string "string option"
  | SetTenant "nat \<Rightarrow> rat" principal string bool
  | EnrollAdmin "nat \<Rightarrow> rat" principal string string
  | RevokeAdmin "nat \<Rightarrow> rat" principal string string
  | EnrollMember "nat \<Rightarrow> rat" principal string string string string "string list" "string list"
  | EnrollAgent "nat \<Rightarrow> rat" principal string string string "string list" "string list"
  | RevokeAgent "nat \<Rightarrow> rat" principal string string
  | RevokeMember "nat \<Rightarrow> rat" principal string string string
  | Grant "nat \<Rightarrow> rat" string principal principal string "string list" "string list" json "json option"
  | RevokeGrant "nat \<Rightarrow> rat" principal string string
  | Request "nat \<Rightarrow> rat" string string string string string "string option"
  | Authorize "nat \<Rightarrow> rat" principal string "string option"
  | Prune "nat \<Rightarrow> rat" principal int

fun presented :: "'k auth_op \<Rightarrow> principal list" where
  "presented (Bootstrap i s) = []"
| "presented (Operator clk jwt net k k' i tok t) = []"
| "presented (SetTenant clk p t b) = [p]"
| "presented (EnrollAdmin clk p i s) = [p]"
| "presented (RevokeAdmin clk p i s) = [p]"
| "presented (EnrollMember clk p t i s r cs ts) = [p]"
| "presented (EnrollAgent clk p t a k cs ts) = [p]"
| "presented (RevokeAgent clk p t a) = [p]"
| "presented (RevokeMember clk p t i s) = [p]"
| "presented (Grant clk g p u a cs ts e b) = [p, u]"
| "presented (RevokeGrant clk p t g) = [p]"
| "presented (Request clk t a n b sg del) = []"
| "presented (Authorize clk p c t) = [p]"
| "presented (Prune clk p l) = [p]"

definition minted :: "principal res \<Rightarrow> principal list" where
  "minted r = (case r of Inl e \<Rightarrow> [] | Inr p \<Rightarrow> [p])"

text \<open>One operation: the contexts it mints, and the directory it leaves.\<close>

fun auth_exec :: "crypto \<Rightarrow> 'k auth_op \<Rightarrow> 'k directory \<Rightarrow> principal list \<times> 'k directory" where
  "auth_exec C (Bootstrap i s) d = ([], snd (bootstrap_platform_admin i s d))"
| "auth_exec C (Operator clk jwt net k k' i tok t) d =
     (case authenticate_operator C clk jwt net k k' i tok t d of (r, d') \<Rightarrow> (minted r, d'))"
| "auth_exec C (SetTenant clk p t b) d = ([], snd (set_tenant C clk p t b d))"
| "auth_exec C (EnrollAdmin clk p i s) d = ([], snd (enroll_platform_admin C clk p i s d))"
| "auth_exec C (RevokeAdmin clk p i s) d = ([], snd (revoke_platform_admin C clk p i s d))"
| "auth_exec C (EnrollMember clk p t i s r cs ts) d = ([], snd (enroll_member C clk p t i s r cs ts d))"
| "auth_exec C (EnrollAgent clk p t a k cs ts) d = ([], snd (enroll_agent C clk p t a k cs ts d))"
| "auth_exec C (RevokeAgent clk p t a) d = ([], snd (revoke_agent C clk p t a d))"
| "auth_exec C (RevokeMember clk p t i s) d = ([], snd (revoke_member C clk p t i s d))"
| "auth_exec C (Grant clk g p u a cs ts e b) d = ([], snd (grant_delegation C clk g p u a cs ts e b d))"
| "auth_exec C (RevokeGrant clk p t g) d = ([], snd (revoke_delegation C clk p t g d))"
| "auth_exec C (Request clk t a n b sg del) d =
     (case authenticate_agent C clk t a n b sg del d of (r, d') \<Rightarrow> (minted r, d'))"
| "auth_exec C (Authorize clk p c t) d = ([], snd (au_authorize C clk p c t d))"
| "auth_exec C (Prune clk p l) d = ([], snd (prune_replays C clk p l d))"

definition genuine :: "crypto \<Rightarrow> principal list \<Rightarrow> 'k directory \<Rightarrow> principal \<Rightarrow> bool" where
  "genuine C M d p \<longleftrightarrow> (au_seal C (dr_key d) p = Inr (p_proof p) \<longrightarrow> p \<in> set M)"

definition empty_authority :: authority_db where
  "empty_authority = \<lparr>ad_tenants = [], ad_admins = [], ad_members = [], ad_agents = [], ad_grants = [], ad_replays = []\<rparr>"

inductive reach :: "crypto \<Rightarrow> principal list \<Rightarrow> 'k directory \<Rightarrow> bool" for C where
  start: "dr_db d = empty_authority \<Longrightarrow> dr_active d = None \<Longrightarrow> reach C [] d"
| step: "reach C M d \<Longrightarrow> list_all (genuine C M d) (presented op) \<Longrightarrow> auth_exec C op d = (ms, d') \<Longrightarrow> reach C (ms @ M) d'"

text \<open>
  What every operation does to the tables: rows stay or get a newer revision, and a grant keeps
  everything but its activity and revision.
\<close>

definition frozen :: "grant_row \<Rightarrow> grant_row" where
  "frozen g = g\<lparr>gr_active := False, gr_revision := 0\<rparr>"

definition grows :: "authority_db \<Rightarrow> authority_db \<Rightarrow> bool" where
  "grows db db' \<longleftrightarrow> advances tn_revision (map_of (ad_tenants db)) (map_of (ad_tenants db'))
     \<and> advances pa_revision (map_of (ad_admins db)) (map_of (ad_admins db'))
     \<and> advances mb_revision (map_of (ad_members db)) (map_of (ad_members db'))
     \<and> advances ar_revision (map_of (ad_agents db)) (map_of (ad_agents db'))
     \<and> (\<forall>k g. map_of (ad_grants db) k = Some g \<longrightarrow> (\<exists>g'. map_of (ad_grants db') k = Some g' \<and> frozen g' = frozen g))"

lemma grows_refl [simp]: "grows db db"
  by (auto simp: grows_def)

lemma grows_trans:
  assumes "grows db db'" and "grows db' db''"
  shows "grows db db''"
proof -
  have "\<exists>g''. map_of (ad_grants db'') k = Some g'' \<and> frozen g'' = frozen g" if "map_of (ad_grants db) k = Some g" for k g
  proof -
    from that assms(1) obtain g' where "map_of (ad_grants db') k = Some g'" "frozen g' = frozen g" unfolding grows_def by blast
    with assms(2) show ?thesis unfolding grows_def by (metis (full_types))
  qed
  with assms show ?thesis by (auto simp: grows_def intro: advances_trans)
qed

text \<open>A refused operation changes nothing: its checks only read, and its transaction rolls back.\<close>

definition refusal_keeps :: "('k directory, 'a) prog \<Rightarrow> bool" where
  "refusal_keeps m \<longleftrightarrow> (\<forall>d e d'. dr_active d = None \<longrightarrow> m d = (Inl e, d') \<longrightarrow> d' = d)"

lemma refusal_transaction: "refusal_keeps (au_transaction w c b body)"
  by (auto simp: refusal_keeps_def dest: transaction_exn)

lemma refusal_bind: "keepsP (\<lambda>d. d) m \<Longrightarrow> (\<And>a. refusal_keeps (f a)) \<Longrightarrow> refusal_keeps (bindP m f)"
  unfolding refusal_keeps_def bindP_exn_iff keepsP_def by (metis snd_conv)

lemma refusal_simple: "refusal_keeps (raiseP c m)" "refusal_keeps (retP x)"
  by (simp_all add: refusal_keeps_def)

lemma refusal_after: "refusal_keeps m \<Longrightarrow> refusal_keeps (bindP m (\<lambda>_. retP x))"
  by (auto simp: refusal_keeps_def bindP_exn_iff)

lemma requireP_keeps: "keepsP (\<lambda>d. d) (requireP b c m)"
  by (simp add: keepsP_def requireP_def)

lemmas refusal_rules = refusal_transaction refusal_bind refusal_simple requireP_keeps keepsP_simple

lemma refused:
  "refusal_keeps (bootstrap_platform_admin i s)" "refusal_keeps (set_tenant C clk p t b)"
  "refusal_keeps (enroll_platform_admin C clk p i s)" "refusal_keeps (revoke_platform_admin C clk p i s)"
  "refusal_keeps (enroll_member C clk p t i s r cs ts)" "refusal_keeps (enroll_agent C clk p t a k cs ts)"
  "refusal_keeps (revoke_agent C clk p t a)" "refusal_keeps (revoke_member C clk p t i s)"
  "refusal_keeps (grant_delegation C clk g p u a cs ts e nb)" "refusal_keeps (revoke_delegation C clk p t g)"
  "refusal_keeps (authenticate_agent C clk t a n bd sg del)" "refusal_keeps (prune_replays C clk p l)"
  "refusal_keeps (au_authorize C clk p c tg)"
  unfolding bootstrap_platform_admin_def set_tenant_def enroll_platform_admin_def revoke_platform_admin_def
    enroll_member_def enroll_agent_def revoke_agent_def revoke_member_def grant_delegation_def revoke_delegation_def
    authenticate_agent_def prune_replays_def au_authorize_def
  by (auto intro!: refusal_rules refusal_after split: option.splits prod.splits)

lemma refusedD: "refusal_keeps m \<Longrightarrow> dr_active d = None \<Longrightarrow> m d = (Inl e, d') \<Longrightarrow> d' = d"
  by (simp add: refusal_keeps_def)

lemma grows_table:
  "advances tn_revision (map_of (ad_tenants db)) (map_of X1) \<Longrightarrow> grows db (db\<lparr>ad_tenants := X1\<rparr>)"
  "advances pa_revision (map_of (ad_admins db)) (map_of X2) \<Longrightarrow> grows db (db\<lparr>ad_admins := X2\<rparr>)"
  "advances mb_revision (map_of (ad_members db)) (map_of X3) \<Longrightarrow> grows db (db\<lparr>ad_members := X3\<rparr>)"
  "advances ar_revision (map_of (ad_agents db)) (map_of X4) \<Longrightarrow> grows db (db\<lparr>ad_agents := X4\<rparr>)"
  "grows db (db\<lparr>ad_replays := X5\<rparr>)"
  "map_of (ad_grants db) k = None \<Longrightarrow> grows db (db\<lparr>ad_grants := ad_grants db @ [(k, g)]\<rparr>)"
  "(\<And>g. frozen (f g) = frozen g) \<Longrightarrow> grows db (db\<lparr>ad_grants := AList.map_entry k f (ad_grants db)\<rparr>)"
  by (auto simp: grows_def map_of_map_entry map_add_def split: option.splits)

definition kept :: "'k directory \<Rightarrow> 'k directory \<Rightarrow> bool" where
  "kept d d' \<longleftrightarrow> grows (dr_db d) (dr_db d') \<and> dr_active d' = None \<and> dr_key d' = dr_key d"

lemma kept_refl: "dr_active d = None \<Longrightarrow> kept d d"
  by (simp add: kept_def)

lemma kept_trans: "kept d d' \<Longrightarrow> kept d' d'' \<Longrightarrow> kept d d''"
  by (auto simp: kept_def intro: grows_trans)

lemma kept_changed: "dr_active d = None \<Longrightarrow> d' = changed f d \<Longrightarrow> grows (dr_db d) (f (dr_db d)) \<Longrightarrow> kept d d'"
  by (simp add: kept_def changed_def)

lemma kept_verifiers: "dr_active d = None \<Longrightarrow> d' = d\<lparr>dr_verifiers := V\<rparr> \<Longrightarrow> kept d d'"
  by (simp add: kept_def)

lemma authorize_ok:
  "dr_active d = None \<Longrightarrow> au_authorize C clk p c tg d = (Inr q, d') \<longleftrightarrow>
     au_current C (dr_key d) clk 0 p (dr_db d) = Inr () \<and> p_kind p \<in> set agent_kinds \<and> c \<in> set (p_capabilities p)
     \<and> (case tg of None \<Rightarrow> True | Some x \<Rightarrow> x \<in> set (p_targets p)) \<and> q = p \<and> d' = d"
  by (auto simp: au_authorize_def au_ok simp del: checkP_apply)

lemma au_authorize_keeps:
  assumes act: "dr_active d = None" shows "snd (au_authorize C clk p c tg d) = d"
proof (cases "au_authorize C clk p c tg d")
  case (Pair r d')
  then have "d' = d" by (cases r) (auto simp: authorize_ok [OF act] dest: refusedD [OF refused(13) act])
  with Pair show ?thesis by simp
qed

lemma enroll_member_role: "enroll_member C clk p t i s role cap tgt d = (Inr u, d') \<Longrightarrow> role \<in> set tenant_roles"
  by (auto simp: enroll_member_def bindP_ok_iff requireP_ok)

text \<open>
  The specification of a step: what an operation that goes through has established and what it
  leaves in the tables.
\<close>

inductive effect :: "crypto \<Rightarrow> 'k directory \<Rightarrow> 'k auth_op \<Rightarrow> authority_db \<Rightarrow> bool" for C d where
  eff_bootstrap: "ad_admins (dr_db d) = [] \<Longrightarrow>
    effect C d (Bootstrap i s) ((dr_db d)\<lparr>ad_admins := [((i, s), admin_row_of 1)]\<rparr>)"
| eff_tenant: "administers C clk 0 p None d \<Longrightarrow>
    effect C d (SetTenant clk p t b) ((dr_db d)\<lparr>ad_tenants := upsert t \<lparr>tn_revision = 1, tn_active = b\<rparr>
      (\<lambda>r. \<lparr>tn_revision = tn_revision r + 1, tn_active = b\<rparr>) (ad_tenants (dr_db d))\<rparr>)"
| eff_admin: "administers C clk 0 p None d \<Longrightarrow>
    effect C d (EnrollAdmin clk p i s) ((dr_db d)\<lparr>ad_admins := upsert (i, s) (admin_row_of 1)
      (\<lambda>r. admin_row_of (pa_revision r + 1)) (ad_admins (dr_db d))\<rparr>)"
| eff_admin_revoked: "administers C clk 0 p None d \<Longrightarrow> 1 < length (filter (\<lambda>(k, r). pa_active r) (ad_admins (dr_db d))) \<Longrightarrow>
    effect C d (RevokeAdmin clk p i s) ((dr_db d)\<lparr>ad_admins := AList.map_entry (i, s) retired_admin (ad_admins (dr_db d))\<rparr>)"
| eff_member: "administers C clk 0 p (Some t) d \<Longrightarrow> role \<in> set tenant_roles \<Longrightarrow> au_scopes cap = Inr cs \<Longrightarrow> au_scopes tgt = Inr ts \<Longrightarrow>
    effect C d (EnrollMember clk p t i s role cap tgt) ((dr_db d)\<lparr>ad_members := upsert (t, i, s) (member_row_of (role, cs, ts) 1)
      (\<lambda>r. member_row_of (role, cs, ts) (mb_revision r + 1)) (ad_members (dr_db d))\<rparr>)"
| eff_agent: "administers C clk 0 p (Some t) d \<Longrightarrow> au_scopes cap = Inr cs \<Longrightarrow> au_scopes tgt = Inr ts \<Longrightarrow>
    effect C d (EnrollAgent clk p t a key cap tgt) ((dr_db d)\<lparr>ad_agents := upsert (t, a) (agent_row_of (key, cs, ts) 1)
      (\<lambda>r. agent_row_of (key, cs, ts) (ar_revision r + 1)) (ad_agents (dr_db d))\<rparr>)"
| eff_agent_revoked: "administers C clk 0 p (Some t) d \<Longrightarrow>
    effect C d (RevokeAgent clk p t a) ((dr_db d)\<lparr>ad_agents := AList.map_entry (t, a) retired_agent (ad_agents (dr_db d))\<rparr>)"
| eff_member_revoked: "administers C clk 0 p (Some t) d \<Longrightarrow>
    effect C d (RevokeMember clk p t i s) ((dr_db d)\<lparr>ad_members := AList.map_entry (t, i, s) retired_member (ad_members (dr_db d))\<rparr>)"
| eff_grant: "p_tenant u = Some t \<Longrightarrow> p_kind u \<in> set tenant_roles \<Longrightarrow> administers C clk 2 p (Some t) d \<Longrightarrow>
    au_current C (dr_key d) clk 4 u (dr_db d) = Inr () \<Longrightarrow> au_agent (Some t) (Some a) (dr_db d) = Inr agent \<Longrightarrow>
    read_scopes (ar_capabilities agent) = Inr acs \<Longrightarrow> set cs \<subseteq> set (p_capabilities u) \<inter> set acs \<Longrightarrow>
    read_scopes (ar_targets agent) = Inr ats \<Longrightarrow> set ts \<subseteq> set (p_targets u) \<inter> set ats \<Longrightarrow>
    map_of (ad_grants (dr_db d)) (t, fresh) = None \<Longrightarrow>
    effect C d (Grant clk fresh p u a cap tgt ex nb)
      ((dr_db d)\<lparr>ad_grants := ad_grants (dr_db d) @ [((t, fresh), delegation_row p u a agent cs ts b e)]\<rparr>)"
| eff_grant_revoked: "administers C clk 0 p (Some t) d \<Longrightarrow>
    effect C d (RevokeGrant clk p t g) ((dr_db d)\<lparr>ad_grants := AList.map_entry (t, g)
      (\<lambda>g. g\<lparr>gr_active := False, gr_revision := gr_revision g + 1\<rparr>) (ad_grants (dr_db d))\<rparr>)"
| eff_request: "signed_request C (clk 0) t a n bd sg del = Some (data, stamp) \<Longrightarrow>
    map_of (ad_replays (dr_db d)) (t, a, n) = None \<Longrightarrow>
    effect C d (Request clk t a n bd sg del) ((dr_db d)\<lparr>ad_replays := ad_replays (dr_db d) @ [((t, a, n), clk 2)]\<rparr>)"
| eff_prune: "administers C clk 0 p None d \<Longrightarrow>
    set doomed \<subseteq> {x \<in> set (ad_replays (dr_db d)). snd x < fsub (clk 2) 600} \<Longrightarrow>
    effect C d (Prune clk p l) ((dr_db d)\<lparr>ad_replays := filter (\<lambda>(k, seen). k \<notin> set (map fst doomed)) (ad_replays (dr_db d))\<rparr>)"

definition refines :: "crypto \<Rightarrow> 'k auth_op \<Rightarrow> 'k directory \<Rightarrow> 'k directory \<Rightarrow> bool" where
  "refines C op d d' \<longleftrightarrow> dr_active d' = None \<and> dr_key d' = dr_key d
     \<and> (dr_db d' = dr_db d \<or> effect C d op (dr_db d'))"

lemma refines_op:
  assumes "refusal_keeps m" and act: "dr_active d = None"
    and "\<And>a d'. m d = (Inr a, d') \<Longrightarrow> \<exists>f. d' = changed f d \<and> effect C d op (f (dr_db d))"
  shows "refines C op d (snd (m d))"
proof (cases "m d")
  case (Pair r d')
  show ?thesis
  proof (cases r)
    case (Inl e)
    with refusedD [OF assms(1) act] Pair act show ?thesis by (simp add: refines_def)
  next
    case (Inr a)
    with Pair assms(3) obtain f where "d' = changed f d" "effect C d op (f (dr_db d))" by blast
    with Pair act show ?thesis by (simp add: refines_def changed_def)
  qed
qed

lemma refines_by:
  assumes act: "dr_active d = None"
  shows "refines C (Bootstrap i s) d (snd (bootstrap_platform_admin i s d))"
    and "refines C (SetTenant clk p t b) d (snd (set_tenant C clk p t b d))"
    and "refines C (EnrollAdmin clk p i s) d (snd (enroll_platform_admin C clk p i s d))"
    and "refines C (RevokeAdmin clk p i s) d (snd (revoke_platform_admin C clk p i s d))"
    and "refines C (EnrollMember clk p t i s r cs ts) d (snd (enroll_member C clk p t i s r cs ts d))"
    and "refines C (EnrollAgent clk p t a k cs ts) d (snd (enroll_agent C clk p t a k cs ts d))"
    and "refines C (RevokeAgent clk p t a) d (snd (revoke_agent C clk p t a d))"
    and "refines C (RevokeMember clk p t i s) d (snd (revoke_member C clk p t i s d))"
    and "refines C (RevokeGrant clk p t g) d (snd (revoke_delegation C clk p t g d))"
proof -
  note by_effect = exI [where P = "\<lambda>f. _ = changed f d \<and> effect C d _ (f (dr_db d))", OF conjI]
  show "refines C (Bootstrap i s) d (snd (bootstrap_platform_admin i s d))"
    by (rule refines_op [OF refused(1) act], rule by_effect, erule bootstrap_ok(2) [OF act])
      (auto dest!: bootstrap_ok(1) [OF act] intro!: eff_bootstrap)
  show "refines C (SetTenant clk p t b) d (snd (set_tenant C clk p t b d))"
    by (rule refines_op [OF refused(2) act], rule by_effect, erule set_tenant_ok(2) [OF act])
      (rule eff_tenant, erule set_tenant_ok(1) [OF act])
  show "refines C (EnrollAdmin clk p i s) d (snd (enroll_platform_admin C clk p i s d))"
    by (rule refines_op [OF refused(3) act], rule by_effect, erule enroll_platform_admin_ok(2) [OF act])
      (rule eff_admin, erule enroll_platform_admin_ok(1) [OF act])
  show "refines C (RevokeAdmin clk p i s) d (snd (revoke_platform_admin C clk p i s d))"
    by (rule refines_op [OF refused(4) act], rule by_effect, erule revoke_platform_admin_ok(3) [OF act])
      (rule eff_admin_revoked, erule revoke_platform_admin_ok(1) [OF act], erule revoke_platform_admin_ok(2) [OF act])
  show "refines C (EnrollMember clk p t i s r cs ts) d (snd (enroll_member C clk p t i s r cs ts d))"
    by (rule refines_op [OF refused(5) act], frule enroll_member_role, erule enroll_member_ok [OF act])
      (erule by_effect, erule (3) eff_member)
  show "refines C (EnrollAgent clk p t a k cs ts) d (snd (enroll_agent C clk p t a k cs ts d))"
    by (rule refines_op [OF refused(6) act], erule enroll_agent_ok [OF act]) (erule by_effect, erule (2) eff_agent)
  show "refines C (RevokeAgent clk p t a) d (snd (revoke_agent C clk p t a d))"
    by (rule refines_op [OF refused(7) act], rule by_effect, erule revoke_agent_ok(2) [OF act])
      (rule eff_agent_revoked, erule revoke_agent_ok(1) [OF act])
  show "refines C (RevokeMember clk p t i s) d (snd (revoke_member C clk p t i s d))"
    by (rule refines_op [OF refused(8) act], rule by_effect, erule revoke_member_ok(2) [OF act])
      (rule eff_member_revoked, erule revoke_member_ok(1) [OF act])
  show "refines C (RevokeGrant clk p t g) d (snd (revoke_delegation C clk p t g d))"
    by (rule refines_op [OF refused(10) act], rule by_effect, erule revoke_delegation_ok(2) [OF act])
      (rule eff_grant_revoked, erule revoke_delegation_ok(1) [OF act])
qed

lemma refines_more:
  assumes act: "dr_active d = None"
  shows "refines C (Grant clk g p u a cs ts e b) d (snd (grant_delegation C clk g p u a cs ts e b d))"
    and "refines C (Request clk t a n bd sg del) d (snd (authenticate_agent C clk t a n bd sg del d))"
    and "refines C (Prune clk p l) d (snd (prune_replays C clk p l d))"
    and "refines C (Authorize clk p c tg) d (snd (au_authorize C clk p c tg d))"
    and "refines C (Operator clk jwt net k k' i tok tn) d (snd (authenticate_operator C clk jwt net k k' i tok tn d))"
proof -
  note by_effect = exI [where P = "\<lambda>f. _ = changed f d \<and> effect C d _ (f (dr_db d))", OF conjI]
  show "refines C (Grant clk g p u a cs ts e b) d (snd (grant_delegation C clk g p u a cs ts e b d))"
    by (rule refines_op [OF refused(9) act], erule grant_delegation_ok [OF act]) (erule by_effect, rule eff_grant)
  show "refines C (Request clk t a n bd sg del) d (snd (authenticate_agent C clk t a n bd sg del d))"
    by (rule refines_op [OF refused(11) act], erule authenticate_agent_ok [OF act]) (erule by_effect, rule eff_request)
  show "refines C (Prune clk p l) d (snd (prune_replays C clk p l d))"
    by (rule refines_op [OF refused(12) act], erule prune_replays_ok [OF act]) (erule by_effect, erule (1) eff_prune)
  show "refines C (Authorize clk p c tg) d (snd (au_authorize C clk p c tg d))"
    by (simp add: refines_def au_authorize_keeps [OF act] act)
  show "refines C (Operator clk jwt net k k' i tok tn) d (snd (authenticate_operator C clk jwt net k k' i tok tn d))"
    by (cases "authenticate_operator C clk jwt net k k' i tok tn d", cases "fst (authenticate_operator C clk jwt net k k' i tok tn d)")
      (auto simp: refines_def act elim!: operator_exn [OF act] operator_ok [OF act])
qed

lemma exec_refines:
  assumes act: "dr_active d = None" and e: "auth_exec C op d = (ms, d')"
  shows "refines C op d d'"
  using refines_by [OF act] refines_more [OF act] e by (cases op) (auto simp: case_prod_beta)

text \<open>A step keeps rows or gives them newer revisions.\<close>

lemma effect_grows: "effect C d op db \<Longrightarrow> grows (dr_db d) db"
proof (induction rule: effect.induct)
  case (eff_bootstrap i s)
  then show ?case by (intro grows_table) (simp add: advances_def)
next
  case (eff_tenant clk p t b)
  show ?case by (intro grows_table upsert_advances) simp
next
  case (eff_grant_revoked clk p t g)
  show ?case by (intro grows_table) (simp add: frozen_def)
qed (intro grows_table admins.enrol_advances admins.retire_advances members.enrol_advances members.retire_advances
      agents.enrol_advances agents.retire_advances; assumption)+

lemma exec_kept: "dr_active d = None \<Longrightarrow> auth_exec C op d = (ms, d') \<Longrightarrow> kept d d'"
  by (auto simp: kept_def refines_def dest!: exec_refines dest: effect_grows)

text \<open>Executing a list of operations.\<close>

fun auth_run :: "crypto \<Rightarrow> 'k auth_op list \<Rightarrow> 'k directory \<Rightarrow> 'k directory" where
  "auth_run C [] d = d"
| "auth_run C (op # ops) d = auth_run C ops (snd (auth_exec C op d))"

lemma run_kept: "dr_active d = None \<Longrightarrow> kept d (auth_run C ops d)"
proof (induction ops arbitrary: d)
  case Nil
  then show ?case by (simp add: kept_refl)
next
  case (Cons op ops)
  have k: "kept d (snd (auth_exec C op d))" by (rule exec_kept [OF Cons.prems prod.collapse [symmetric]])
  then have "dr_active (snd (auth_exec C op d)) = None" by (simp add: kept_def)
  from kept_trans [OF k Cons.IH [OF this]] show ?case by simp
qed

lemma reach_idle: "reach C M d \<Longrightarrow> dr_active d = None"
  by (induction rule: reach.induct) (auto dest: exec_kept simp: kept_def)

section \<open>What contexts and grants rest on\<close>

definition scopes_are :: "('r \<Rightarrow> string) \<Rightarrow> ('r \<Rightarrow> string) \<Rightarrow> string list \<Rightarrow> string list \<Rightarrow> 'r \<Rightarrow> bool" where
  "scopes_are cap tgt cs ts r \<longleftrightarrow> read_scopes (cap r) = Inr cs \<and> read_scopes (tgt r) = Inr ts"

definition scopes_within :: "('r \<Rightarrow> string) \<Rightarrow> ('r \<Rightarrow> string) \<Rightarrow> string list \<Rightarrow> string list \<Rightarrow> 'r \<Rightarrow> bool" where
  "scopes_within cap tgt cs ts r \<longleftrightarrow> (\<exists>cs' ts'. read_scopes (cap r) = Inr cs' \<and> read_scopes (tgt r) = Inr ts'
     \<and> set cs \<subseteq> set cs' \<and> set ts \<subseteq> set ts')"

definition context_ok :: "authority_db \<Rightarrow> principal \<Rightarrow> bool" where
  "context_ok db p \<longleftrightarrow>
     (p_kind p \<in> set tenant_roles \<longrightarrow> (\<exists>t. p_tenant p = Some t \<and>
        remembered mb_revision (map_of (ad_members db)) (t, p_issuer p, p_subject p) (p_revision p)
          (scopes_are mb_capabilities mb_targets (p_capabilities p) (p_targets p))))
   \<and> (p_kind p \<in> set agent_kinds \<longrightarrow> (\<exists>t a. p_tenant p = Some t \<and> p_agent p = Some a \<and>
        remembered ar_revision (map_of (ad_agents db)) (t, a) (p_agent_revision p)
          (\<lambda>r. p_kind p = ''machine'' \<longrightarrow> scopes_are ar_capabilities ar_targets (p_capabilities p) (p_targets p) r)))
   \<and> (p_kind p = ''delegated_human'' \<longrightarrow> (\<exists>t g row. p_tenant p = Some t \<and> p_delegation p = Some g
        \<and> map_of (ad_grants db) (t, g) = Some row \<and> scopes_are gr_capabilities gr_targets (p_capabilities p) (p_targets p) row))"

definition grant_ok :: "authority_db \<Rightarrow> string \<Rightarrow> grant_row \<Rightarrow> bool" where
  "grant_ok db t g \<longleftrightarrow> (\<exists>cs ts. scopes_are gr_capabilities gr_targets cs ts g
     \<and> remembered ar_revision (map_of (ad_agents db)) (t, gr_agent g) (gr_agent_revision g)
         (scopes_within ar_capabilities ar_targets cs ts)
     \<and> remembered mb_revision (map_of (ad_members db)) (t, gr_user_issuer g, gr_user_subject g) (gr_user_revision g)
         (scopes_within mb_capabilities mb_targets cs ts))"

definition roles_ok :: "authority_db \<Rightarrow> bool" where
  "roles_ok db \<longleftrightarrow> (\<forall>k r. map_of (ad_members db) k = Some r \<longrightarrow> mb_role r \<in> set tenant_roles)"

definition authority_inv :: "principal list \<Rightarrow> authority_db \<Rightarrow> bool" where
  "authority_inv M db \<longleftrightarrow> list_all (context_ok db) M
     \<and> roles_ok db
     \<and> (\<forall>t g row. map_of (ad_grants db) (t, g) = Some row \<longrightarrow> grant_ok db t row)"

lemma frozen_same: "frozen g' = frozen g \<Longrightarrow> gr_capabilities g' = gr_capabilities g \<and> gr_targets g' = gr_targets g
    \<and> gr_agent g' = gr_agent g \<and> gr_agent_revision g' = gr_agent_revision g \<and> gr_user_issuer g' = gr_user_issuer g
    \<and> gr_user_subject g' = gr_user_subject g \<and> gr_user_revision g' = gr_user_revision g"
  by (cases g; cases g') (simp add: frozen_def)

lemma context_ok_grows:
  assumes "context_ok db p" and g: "grows db db'"
  shows "context_ok db' p"
proof -
  have mb: "advances mb_revision (map_of (ad_members db)) (map_of (ad_members db'))"
    and ar: "advances ar_revision (map_of (ad_agents db)) (map_of (ad_agents db'))" using g by (simp_all add: grows_def)
  have gr: "\<exists>row'. map_of (ad_grants db') k = Some row' \<and> scopes_are gr_capabilities gr_targets cs ts row'"
    if "map_of (ad_grants db) k = Some row" "scopes_are gr_capabilities gr_targets cs ts row" for k row cs ts
  proof -
    from that(1) g obtain row' where "map_of (ad_grants db') k = Some row'" "frozen row' = frozen row"
      unfolding grows_def by blast
    with that(2) show ?thesis by (auto simp: scopes_are_def dest: frozen_same)
  qed
  from assms(1) remembered_advances [OF _ mb] remembered_advances [OF _ ar] gr show ?thesis
    unfolding context_ok_def by meson
qed

lemma grant_ok_grows:
  assumes "grant_ok db t row" and "grows db db'" and "frozen row' = frozen row"
  shows "grant_ok db' t row'"
  using assms(1,2) remembered_advances unfolding grant_ok_def grows_def scopes_are_def frozen_same [OF assms(3), THEN conjunct1]
  using frozen_same [OF assms(3)] by metis

text \<open>What \<^const>\<open>au_current\<close> has checked.\<close>

lemma au_tenant_ok: "au_tenant t db = Inr r \<longleftrightarrow> (\<exists>x. t = Some x \<and> map_of (ad_tenants db) x = Some r \<and> tn_active r)"
  by (cases t) (auto simp: au_tenant_def split: option.splits if_splits)

lemma au_member_ok:
  "au_member t i s db = Inr r \<longleftrightarrow> (\<exists>x. t = Some x \<and> map_of (ad_members db) (x, i, s) = Some r \<and> mb_active r)"
  by (cases t) (auto simp: au_member_def split: option.splits if_splits)

lemma au_agent_ok:
  "au_agent t a db = Inr r \<longleftrightarrow> (\<exists>x y. t = Some x \<and> a = Some y \<and> map_of (ad_agents db) (x, y) = Some r \<and> ar_active r)"
  by (cases t; cases a) (auto simp: au_agent_def split: option.splits if_splits)

lemma current_seal: "au_current C key clk i p db = Inr () \<Longrightarrow> au_seal C key p = Inr (p_proof p)"
  by (auto simp: au_current_def verify_seal_def bindE_Inr_iff split: if_splits)

lemma role_kinds: "k \<in> set tenant_roles \<Longrightarrow> k \<noteq> ''platform_admin'' \<and> k \<notin> set agent_kinds"
  "k \<in> set agent_kinds \<Longrightarrow> k \<noteq> ''platform_admin'' \<and> k \<notin> set tenant_roles"
  by (auto simp: tenant_roles_def agent_kinds_def)

lemma current_member:
  assumes "au_current C key clk i p db = Inr ()" and "p_kind p \<in> set tenant_roles"
  obtains t r where "p_tenant p = Some t" "map_of (ad_members db) (t, p_issuer p, p_subject p) = Some r"
    "mb_active r" "mb_role r = p_kind p" "mb_revision r = p_revision p"
  using assms role_kinds(1) [OF assms(2)]
  by (auto simp: au_current_def bindE_Inr_iff au_tenant_ok au_member_ok split: if_splits)

lemma current_agent:
  assumes "au_current C key clk i p db = Inr ()" and "p_kind p \<in> set agent_kinds"
  obtains t a tn r where "p_tenant p = Some t" "p_agent p = Some a" "map_of (ad_tenants db) t = Some tn" "tn_active tn"
    "map_of (ad_agents db) (t, a) = Some r" "ar_active r" "ar_revision r = p_agent_revision p"
    "p_kind p = ''delegated_human'' \<longrightarrow>
       (\<exists>g. au_grant (clk (Suc i)) (Some t) (p_delegation p) a r db = Inr g \<and> gr_revision g = p_delegation_revision p)"
  using assms role_kinds(2) [OF assms(2)]
  by (auto simp: au_current_def bindE_Inr_iff au_tenant_ok au_agent_ok split: if_splits)

lemma au_grant_ok:
  assumes "au_grant now (Some t) gid a ar db = Inr g"
  obtains x u where "gid = Some x" "map_of (ad_grants db) (t, x) = Some g" "gr_active g"
    "gr_not_before g \<le> now" "now < gr_expires_at g" "gr_agent g = a" "gr_agent_revision g = ar_revision ar"
    "map_of (ad_members db) (t, gr_user_issuer g, gr_user_subject g) = Some u" "mb_active u" "mb_revision u = gr_user_revision g"
    "au_grantor (Some t) g db = Inr (gr_grantor_revision g)"
  using assms by (cases gid) (auto simp: au_grant_def bindE_Inr_iff au_member_ok split: if_splits option.splits)

text \<open>The column text reads back as the scopes.\<close>

lemma strings_of_map [simp]: "strings_of (map JStr xs) = Some xs"
  by (induction xs) simp_all

lemma read_scope_text [simp]: "read_scopes (scope_text cs) = Inr cs"
proof -
  have "json_ok (JArr (map JStr cs))" "sort_json (JArr (map JStr cs)) = JArr (map JStr cs)"
    by (simp_all add: list_all_iff)
  then have "loads (scope_text cs) = Some (JArr (map JStr cs))"
    unfolding scope_text_def using loads_dumps_compact by metis
  then show ?thesis by (simp add: read_scopes_def)
qed

lemma rememberedI: "T k = Some r \<Longrightarrow> n = ver r \<Longrightarrow> P r \<Longrightarrow> remembered ver T k n P"
  by (simp add: remembered_def)

lemma operator_context:
  assumes act: "dr_active d = None" and inv: "authority_inv M (dr_db d)"
    and a: "authenticate_operator C clk jwt net tick tick' issuer token tenant d = (Inr p, d')"
  shows "context_ok (dr_db d) p"
  using act a
proof (cases rule: operator_ok)
  case (1 V)
  then show ?thesis by (simp add: context_ok_def tenant_roles_def agent_kinds_def)
next
  case (2 V t r)
  then have "p_kind p \<in> set tenant_roles" using inv by (auto simp: authority_inv_def roles_ok_def)
  with 2 role_kinds(1) [OF this] show ?thesis
    by (auto simp: context_ok_def scopes_are_def agent_kinds_def intro!: rememberedI)
qed

lemma request_context:
  assumes act: "dr_active d = None"
    and a: "authenticate_agent C clk t agent_id nonce body sg del d = (Inr p, d')"
  shows "context_ok (dr_db d) p"
  using act a
proof (cases rule: authenticate_agent_ok)
  case (1 data stamp tn agent grant)
  show ?thesis
  proof (cases grant)
    case None
    with 1 have "p_kind p = ''machine''" "p_tenant p = Some t" "p_agent p = Some agent_id" "p_agent_revision p = ar_revision agent"
      "scopes_are ar_capabilities ar_targets (p_capabilities p) (p_targets p) agent"
      by (auto simp: agent_principal_def bindE_Inr_iff mint_ok plain_principal_def scopes_are_def)
    with 1 show ?thesis
      by (auto simp: context_ok_def au_agent_ok tenant_roles_def intro!: rememberedI)
  next
    case (Some x)
    then obtain gid g where g: "grant = Some (gid, g)" by (cases x) auto
    with 1 have gr: "au_grant (clk 1) (Some t) (Some gid) agent_id agent (dr_db d) = Inr g" by simp
    from g 1 have "p_kind p = ''delegated_human''" "p_tenant p = Some t" "p_agent p = Some agent_id"
      "p_agent_revision p = ar_revision agent" "p_delegation p = Some gid"
      "scopes_are gr_capabilities gr_targets (p_capabilities p) (p_targets p) g"
      by (auto simp: agent_principal_def bindE_Inr_iff mint_ok plain_principal_def scopes_are_def)
    with 1 gr show ?thesis
      by (auto simp: context_ok_def au_agent_ok tenant_roles_def intro!: rememberedI elim!: au_grant_ok)
  qed
qed

lemma new_grant_ok:
  assumes act: "dr_active d = None" and inv: "authority_inv M (dr_db d)" and gen: "genuine C M d user"
    and cur: "au_current C (dr_key d) clk i user (dr_db d) = Inr ()" and role: "p_kind user \<in> set tenant_roles"
    and t: "p_tenant user = Some t" and ag: "au_agent (Some t) (Some agent_id) (dr_db d) = Inr agent"
    and c: "read_scopes (ar_capabilities agent) = Inr acs" "set cs \<subseteq> set (p_capabilities user) \<inter> set acs"
    and g: "read_scopes (ar_targets agent) = Inr ats" "set ts \<subseteq> set (p_targets user) \<inter> set ats"
  shows "grant_ok (dr_db d) t (delegation_row actor user agent_id agent cs ts b e)"
proof -
  have "user \<in> set M" using gen current_seal [OF cur] by (simp add: genuine_def)
  then have "context_ok (dr_db d) user" using inv by (auto simp: authority_inv_def list_all_iff)
  with role t have mem: "remembered mb_revision (map_of (ad_members (dr_db d))) (t, p_issuer user, p_subject user) (p_revision user)
      (scopes_are mb_capabilities mb_targets (p_capabilities user) (p_targets user))" by (auto simp: context_ok_def)
  have "remembered mb_revision (map_of (ad_members (dr_db d))) (t, p_issuer user, p_subject user) (p_revision user)
      (scopes_within mb_capabilities mb_targets cs ts)"
    by (rule remembered_mono [OF mem]) (use c(2) g(2) in \<open>auto simp: scopes_are_def scopes_within_def\<close>)
  moreover have "remembered ar_revision (map_of (ad_agents (dr_db d))) (t, agent_id) (ar_revision agent)
      (scopes_within ar_capabilities ar_targets cs ts)"
    using ag c g by (auto simp: au_agent_ok scopes_within_def intro!: rememberedI)
  ultimately show ?thesis
    by (auto simp: grant_ok_def delegation_row_def scopes_are_def)
qed

section \<open>The invariant holds along every run\<close>

lemma exec_roles:
  assumes e: "effect C d op db" and r: "roles_ok (dr_db d)"
  shows "roles_ok db"
  using e r
proof cases
  case (eff_member clk p t role cap cs tgt ts i s)
  with r show ?thesis by (auto simp: roles_ok_def map_of_upsert member_row_of_def split: option.splits)
next
  case (eff_member_revoked clk p t i s)
  with r show ?thesis by (auto simp: roles_ok_def map_of_map_entry retired_member_def split: option.splits if_splits)
qed (auto simp: roles_ok_def)

lemma exec_grants:
  assumes act: "dr_active d = None" and e: "effect C d op db" and inv: "authority_inv M (dr_db d)"
    and gen: "list_all (genuine C M d) (presented op)" and g: "map_of (ad_grants db) (t, x) = Some row"
  shows "grant_ok db t row"
proof -
  note grow = effect_grows [OF e]
  have old: "grant_ok db t row" if "map_of (ad_grants (dr_db d)) (t, x) = Some row'" "frozen row = frozen row'" for row'
  proof -
    have "grant_ok (dr_db d) t row'" using inv that(1) by (simp add: authority_inv_def)
    from grant_ok_grows [OF this grow that(2)] show ?thesis .
  qed
  from e show ?thesis
  proof cases
    case (eff_grant u t' clk p a agent acs cs ats ts fresh cap tgt ex nb b e)
    show ?thesis
    proof (cases "(t, x) = (t', fresh)")
      case True
      have "genuine C M d u" using gen eff_grant(1) by simp
      from new_grant_ok [OF act inv this eff_grant(6,4,3,7-11)] True
      have "grant_ok (dr_db d) t (delegation_row p u a agent cs ts b e)" by simp
      from grant_ok_grows [OF this grow refl] True g eff_grant show ?thesis by (simp add: map_add_def)
    next
      case False
      with g eff_grant old show ?thesis by (auto simp: map_add_def split: option.splits)
    qed
  next
    case (eff_grant_revoked clk p t' g')
    with g old show ?thesis by (auto simp: map_of_map_entry frozen_def split: option.splits if_splits)
  qed (use g old in \<open>auto\<close>)
qed

lemma exec_contexts:
  assumes act: "dr_active d = None" and inv: "authority_inv M (dr_db d)" and e: "auth_exec C op d = (ms, d')" and p: "p \<in> set ms"
  shows "context_ok (dr_db d) p"
proof (cases op)
  case (Operator clk jwt net k k' i tok t)
  with e p show ?thesis
    by (auto simp: minted_def intro: operator_context [OF act inv] split: prod.splits sum.splits)
next
  case (Request clk t a n b sg del)
  with e p show ?thesis
    by (auto simp: minted_def intro: request_context [OF act] split: prod.splits sum.splits)
qed (use e p in auto)

lemma exec_inv:
  assumes act: "dr_active d = None" and inv: "authority_inv M (dr_db d)"
    and gen: "list_all (genuine C M d) (presented op)" and e: "auth_exec C op d = (ms, d')"
  shows "authority_inv (ms @ M) (dr_db d')"
proof -
  have grow: "grows (dr_db d) (dr_db d')" using exec_kept [OF act e] by (simp add: kept_def)
  have "context_ok (dr_db d') p" if "p \<in> set (ms @ M)" for p
    using that exec_contexts [OF act inv e] inv context_ok_grows [OF _ grow] by (auto simp: authority_inv_def list_all_iff)
  moreover from exec_refines [OF act e] consider "dr_db d' = dr_db d" | "effect C d op (dr_db d')" by (auto simp: refines_def)
  then have "roles_ok (dr_db d')
    \<and> (\<forall>t g row. map_of (ad_grants (dr_db d')) (t, g) = Some row \<longrightarrow> grant_ok (dr_db d') t row)"
    using inv exec_roles exec_grants [OF act _ inv gen] by cases (auto simp: authority_inv_def)
  ultimately show ?thesis by (auto simp: authority_inv_def list_all_iff)
qed

lemma reach_inv: "reach C M d \<Longrightarrow> authority_inv M (dr_db d)"
proof (induction rule: reach.induct)
  case (start d)
  then show ?case by (simp add: authority_inv_def roles_ok_def empty_authority_def)
next
  case (step M d op ms d')
  from exec_inv [OF reach_idle [OF step.hyps(1)] step.IH step.hyps(2,3)] show ?case .
qed

end
