(* ===== verification/Authority_Properties.thy ===== *)
theory Authority_Properties
  imports Authority_Runs Fencing
begin

text \<open>
  The properties of the authority directory: what an authorised action rests on, the permanence of a
  revocation, the reach of an administrator, the replay table under pruning, and that a correctly
  signed request of an enrolled agent is served.  The demonstration run bootstraps a directory, logs
  an operator in twice, enrols a tenant, a member and an agent, and serves a request of that agent.
\<close>

section \<open>Helper facts\<close>

text \<open>Once there is a platform administrator there always is an active one.\<close>

definition admin_ok :: "authority_db \<Rightarrow> bool" where
  "admin_ok db \<longleftrightarrow> distinct (map fst (ad_admins db))
     \<and> (ad_admins db = [] \<or> (\<exists>k r. map_of (ad_admins db) k = Some r \<and> pa_active r))"

lemma other_active:
  assumes "distinct (map fst rows)" and "1 < length (filter (\<lambda>(k, r). P r) rows)"
  obtains k' r where "k' \<noteq> k" "map_of rows k' = Some r" "P r"
proof -
  let ?f = "filter (\<lambda>(k, r). P r) rows"
  have d: "distinct (map fst ?f)" using assms(1) by (simp add: distinct_filter_keys)
  then have "card (set (map fst ?f)) = length ?f" by (metis distinct_card length_map)
  with assms(2) have "\<not> set (map fst ?f) \<subseteq> {k}" using card_mono [of "{k}" "set (map fst ?f)"] by auto
  then obtain x where "x \<in> set ?f" "fst x \<noteq> k" by fastforce
  with assms(1) that [of "fst x" "snd x"] show ?thesis by (cases x) simp
qed

lemma effect_admin: "effect C d op db \<Longrightarrow> admin_ok (dr_db d) \<Longrightarrow> admin_ok db"
proof (induction rule: effect.induct)
  case (eff_bootstrap i s)
  then show ?case by (simp add: admin_ok_def admin_row_of_def)
next
  case (eff_admin clk p i s)
  then show ?case using admins.enrol_active [where k = "(i, s)" and rows = "ad_admins (dr_db d)"]
    by (auto simp: admin_ok_def distinct_upsert)
next
  case (eff_admin_revoked clk p i s)
  then have "distinct (map fst (ad_admins (dr_db d)))" by (simp add: admin_ok_def)
  from other_active [OF this eff_admin_revoked.hyps(2), of "(i, s)"]
  obtain k r where "k \<noteq> (i, s)" "map_of (ad_admins (dr_db d)) k = Some r" "pa_active r" .
  then have "map_of (AList.map_entry (i, s) retired_admin (ad_admins (dr_db d))) k = Some r \<and> pa_active r"
    by (simp only: map_of_map_entry fun_upd_apply if_False)
  moreover have "distinct (map fst (AList.map_entry (i, s) retired_admin (ad_admins (dr_db d))))"
    using \<open>distinct (map fst (ad_admins (dr_db d)))\<close> by (rule distinct_map_entry)
  ultimately show ?case by (cases k) (auto simp: admin_ok_def)
qed (auto simp: admin_ok_def)

text \<open>What belongs to one tenant.\<close>

definition tenant_view :: "string \<Rightarrow> authority_db \<Rightarrow> tenant_row option \<times> (string \<Rightarrow> string \<Rightarrow> member_row option)
    \<times> (string \<Rightarrow> agent_row option) \<times> (string \<Rightarrow> grant_row option)" where
  "tenant_view t db = (map_of (ad_tenants db) t, \<lambda>i s. map_of (ad_members db) (t, i, s),
     \<lambda>a. map_of (ad_agents db) (t, a), \<lambda>g. map_of (ad_grants db) (t, g))"

section \<open>No request twice\<close>

fun clock_of :: "'k auth_op \<Rightarrow> (nat \<Rightarrow> rat) option" where
  "clock_of (Request clk t a n b sg del) = Some clk"
| "clock_of (Prune clk p l) = Some clk"
| "clock_of _ = None"

text \<open>The readings of requests and prunings do not go backwards along the run.\<close>

fun timed :: "rat \<Rightarrow> 'k auth_op list \<Rightarrow> bool" where
  "timed T [] \<longleftrightarrow> True"
| "timed T (op # ops) \<longleftrightarrow> (case clock_of op of
       None \<Rightarrow> timed T ops
     | Some clk \<Rightarrow> T \<le> clk 0 \<and> clk 0 \<le> clk 2 \<and> clock_ok (clk 0) \<and> clock_ok (clk 2) \<and> timed (clk 2) ops)"

fun accepted_request :: "crypto \<Rightarrow> 'k auth_op \<Rightarrow> 'k directory \<Rightarrow> (string \<times> string \<times> string) list" where
  "accepted_request C (Request clk t a n b sg del) d =
     (case authenticate_agent C clk t a n b sg del d of (Inr p, d') \<Rightarrow> [(t, a, n)] | _ \<Rightarrow> [])"
| "accepted_request C op d = []"

fun accepted_requests :: "crypto \<Rightarrow> 'k auth_op list \<Rightarrow> 'k directory \<Rightarrow> (string \<times> string \<times> string) list" where
  "accepted_requests C [] d = []"
| "accepted_requests C (op # ops) d = accepted_request C op d @ accepted_requests C ops (snd (auth_exec C op d))"

definition stamped :: "string \<Rightarrow> rat \<Rightarrow> bool" where
  "stamped n x \<longleftrightarrow> (\<exists>s r. split_first CHR '':'' n = [s, r] \<and> float_of_string s = Some (Fin x))"

lemma stamped_unique: "stamped n x \<Longrightarrow> stamped n y \<Longrightarrow> x = y"
  by (auto simp: stamped_def)

text \<open>An accepted request stays in the table, or its time stamp is out of every later window.\<close>

definition spent :: "rat \<Rightarrow> authority_db \<Rightarrow> string \<times> string \<times> string \<Rightarrow> bool" where
  "spent T db k \<longleftrightarrow> (\<exists>x. stamped (snd (snd k)) x
     \<and> ((\<exists>seen. map_of (ad_replays db) k = Some seen \<and> x \<le> seen + 300) \<or> x + 300 < T))"

definition replay_inv :: "rat \<Rightarrow> authority_db \<Rightarrow> (string \<times> string \<times> string) set \<Rightarrow> bool" where
  "replay_inv T db A \<longleftrightarrow> distinct (map fst (ad_replays db)) \<and> (\<forall>k \<in> A. spent T db k)"

lemma spent_later: "spent T db k \<Longrightarrow> T \<le> T' \<Longrightarrow> spent T' db k"
  unfolding spent_def by (meson less_le_trans)

lemma signed_stamp:
  assumes "clock_ok now" and "signed_request C now t a n b sg del = Some (data, x)"
  shows "stamped n x" and "\<bar>now - x\<bar> \<le> 300"
proof -
  from assms(2) obtain s r where s: "split_first CHR '':'' n = [s, r]" "float_of_string s = Some (Fin x)" "\<bar>fsub now x\<bar> \<le> 300"
    by (auto simp: signed_request_def split: if_splits sum.splits list.splits option.splits pyfloat.splits)
  then show "stamped n x" by (auto simp: stamped_def)
  from float_of_string_fl [OF s(2)] obtain q where "x = fl q" by blast
  with stamp_window [OF assms(1), of 300 q] s(3) show "\<bar>now - x\<bar> \<le> 300" by simp
qed

lemma prune_cutoff: "clock_ok now \<Longrightarrow> fsub now 600 = now - 600"
  using cutoff_exact [of now 300] by simp

lemma prune_spent:
  assumes s: "spent T db k" and now: "clock_ok now" "T \<le> now"
    and doomed: "set doomed \<subseteq> {x \<in> set (ad_replays db). snd x < fsub now 600}" and d: "distinct (map fst (ad_replays db))"
  shows "spent now (db\<lparr>ad_replays := filter (\<lambda>(k, seen). k \<notin> set (map fst doomed)) (ad_replays db)\<rparr>) k"
proof -
  from s obtain x where x: "stamped (snd (snd k)) x"
    and "(\<exists>seen. map_of (ad_replays db) k = Some seen \<and> x \<le> seen + 300) \<or> x + 300 < T" by (auto simp: spent_def)
  then consider "x + 300 < now" | seen where "map_of (ad_replays db) k = Some seen" "x \<le> seen + 300" using now(2) by fastforce
  then show ?thesis
  proof cases
    case 1
    with x show ?thesis by (auto simp: spent_def)
  next
    case (2 seen)
    show ?thesis
    proof (cases "k \<in> set (map fst doomed)")
      case True
      then obtain y where "y \<in> set doomed" "fst y = k" by auto
      then have y: "(k, snd y) \<in> set (ad_replays db)" "snd y < fsub now 600" using doomed by auto
      from map_of_is_SomeI [OF d y(1)] 2(1) y(2) have "seen < fsub now 600" by simp
      with 2(2) x show ?thesis unfolding prune_cutoff [OF now(1)] by (auto simp: spent_def)
    next
      case False
      with 2 d have "map_of (filter (\<lambda>(k, seen). k \<notin> set (map fst doomed)) (ad_replays db)) k = Some seen"
        by (intro map_of_is_SomeI distinct_filter_keys) (auto dest: map_of_SomeD)
      with x 2(2) show ?thesis by (auto simp: spent_def)
    qed
  qed
qed

lemma effect_replays: "effect C d op db \<Longrightarrow> clock_of op = None \<Longrightarrow> ad_replays db = ad_replays (dr_db d)"
  by (induction rule: effect.induct) simp_all

lemma replay_inv_cong: "ad_replays db' = ad_replays db \<Longrightarrow> replay_inv T db A \<Longrightarrow> replay_inv T db' A"
  unfolding replay_inv_def spent_def by metis

lemma replay_inv_later: "replay_inv T db A \<Longrightarrow> T \<le> T' \<Longrightarrow> replay_inv T' db A"
  by (auto simp: replay_inv_def intro: spent_later)

definition still_fresh :: "crypto \<Rightarrow> 'k auth_op \<Rightarrow> 'k auth_op list \<Rightarrow> 'k directory \<Rightarrow> (string \<times> string \<times> string) set \<Rightarrow> bool" where
  "still_fresh C op ops d A \<longleftrightarrow> (\<exists>T. timed T ops
     \<and> replay_inv T (dr_db (snd (auth_exec C op d))) (A \<union> set (accepted_request C op d))
     \<and> set (accepted_request C op d) \<inter> A = {} \<and> distinct (accepted_request C op d))"

lemma request_replay:
  assumes act: "dr_active d = None" and inv: "replay_inv T (dr_db d) A"
    and T: "T \<le> clk 0" "clk 0 \<le> clk 2" "clock_ok (clk 0)" "timed (clk 2) ops"
  shows "still_fresh C (Request clk t a n b sg del) ops d A"
proof -
  have later: "replay_inv (clk 2) (dr_db d) A" using T by (intro replay_inv_later [OF inv]) simp
  obtain r d' where rd: "authenticate_agent C clk t a n b sg del d = (r, d')" by (metis surj_pair)
  show ?thesis
  proof (cases r)
    case (Inl e)
    with refusedD [OF refused(11) act] rd have "d' = d" by blast
    with Inl rd later T show ?thesis by (auto simp: still_fresh_def)
  next
    case (Inr p)
    with rd have ok: "authenticate_agent C clk t a n b sg del d = (Inr p, d')" by simp
    obtain data x where sr: "signed_request C (clk 0) t a n b sg del = Some (data, x)"
      and new: "map_of (ad_replays (dr_db d)) (t, a, n) = None"
      and d': "d' = changed (\<lambda>db. db\<lparr>ad_replays := ad_replays db @ [((t, a, n), clk 2)]\<rparr>) d"
      by (rule authenticate_agent_ok [OF act ok], rule that)
    from signed_stamp [OF T(3) sr] have x: "stamped n x" "\<bar>clk 0 - x\<bar> \<le> 300" by auto
    have fresh: "(t, a, n) \<notin> A"
    proof
      assume "(t, a, n) \<in> A"
      with inv new obtain y where "stamped n y" "y + 300 < T" by (auto simp: replay_inv_def spent_def)
      with stamped_unique [OF x(1)] x(2) T(1) show False by auto
    qed
    have sp: "spent (clk 2) (dr_db d') k" if "k \<in> insert (t, a, n) A" for k
    proof (cases "k = (t, a, n)")
      case True
      with x T(2) new show ?thesis by (auto simp: spent_def d' changed_def map_add_def)
    next
      case False
      with that later have "spent (clk 2) (dr_db d) k" by (auto simp: replay_inv_def)
      then show ?thesis unfolding spent_def d' changed_def by (auto simp: map_add_def split: option.splits)
    qed
    have "distinct (map fst (ad_replays (dr_db d')))"
      using inv new by (simp add: replay_inv_def d' changed_def map_of_None_keys)
    with sp have "replay_inv (clk 2) (dr_db d') (A \<union> {(t, a, n)})" by (auto simp: replay_inv_def)
    with fresh T(4) ok show ?thesis by (auto simp: still_fresh_def)
  qed
qed

lemma prune_replay:
  assumes act: "dr_active d = None" and inv: "replay_inv T (dr_db d) A"
    and T: "T \<le> clk 0" "clk 0 \<le> clk 2" "clock_ok (clk 2)" "timed (clk 2) ops"
  shows "still_fresh C (Prune clk p l) ops d A"
proof -
  let ?d = "snd (auth_exec C (Prune clk p l) d)"
  have "refines C (Prune clk p l) d ?d" by (rule exec_refines [OF act prod.collapse [symmetric]])
  then consider "dr_db ?d = dr_db d" | "effect C d (Prune clk p l) (dr_db ?d)" by (auto simp: refines_def)
  then have "replay_inv (clk 2) (dr_db ?d) A"
  proof cases
    case 1
    then show ?thesis using T replay_inv_later [OF inv] by simp
  next
    case 2
    have le: "T \<le> clk 2" using T by simp
    from 2 show ?thesis
      by cases (use inv prune_spent [OF _ T(3) le] in \<open>auto simp: replay_inv_def intro: distinct_filter_keys\<close>)
  qed
  with T(4) show ?thesis by (auto simp: still_fresh_def)
qed

lemma step_replay:
  assumes act: "dr_active d = None" and inv: "replay_inv T (dr_db d) A" and t: "timed T (op # ops)"
  shows "still_fresh C op ops d A"
proof (cases "clock_of op")
  case None
  have "refines C op d (snd (auth_exec C op d))" by (rule exec_refines [OF act prod.collapse [symmetric]])
  with None have "ad_replays (dr_db (snd (auth_exec C op d))) = ad_replays (dr_db d)"
    by (auto simp: refines_def dest: effect_replays)
  from replay_inv_cong [OF this inv] None t show ?thesis by (cases op) (auto simp: still_fresh_def)
next
  case (Some clk)
  then show ?thesis using t request_replay [OF act inv] prune_replay [OF act inv] by (cases op) auto
qed

section \<open>An enrolled agent is served\<close>

lemma finite_text_or_null [simp]: "finite_json (text_or_null x)"
  by (cases x) (simp_all add: text_or_null_def)

lemma seal_exists: "finite_json (p_valid_until p) \<Longrightarrow> \<exists>s. au_seal C key p = Inr s"
  by (auto simp: au_seal_def dumps_strict_def sealed_values_def binding_def list_all_iff)

lemma seal_ignores_proof [simp]: "au_seal C key (p\<lparr>p_proof := x\<rparr>) = au_seal C key p"
  by (simp add: au_seal_def sealed_values_def binding_def)

lemma mint_exists: "finite_json (p_valid_until q) \<Longrightarrow> \<exists>s. au_mint C key q = Inr (q\<lparr>p_proof := s\<rparr>) \<and> au_seal C key q = Inr s"
  using seal_exists [of q C key] by (auto simp: au_mint_def)

lemma is_hex_to_hex: "is_hex n (to_hex b) \<longleftrightarrow> n = 2 * length b"
proof -
  have "length (to_hex b) = 2 * length b" "list_all (\<lambda>c. hex_val c \<noteq> None) (to_hex b)"
  proof (induction b)
    case (Cons c cs)
    have "k div 16 < 16" if "k < 256" for k :: nat using that by auto
    from this [OF of_char_256 [of c]] Cons show "length (to_hex (c # cs)) = 2 * length (c # cs)"
      "list_all (\<lambda>c. hex_val c \<noteq> None) (to_hex (c # cs))" by (simp_all add: Let_def hex_val_digit)
  qed simp_all
  then show ?thesis by (auto simp: is_hex_def)
qed

lemma authorize_returns:
  assumes act: "dr_active d = None"
  shows "fst (au_authorize C clk p c tg d) = Inr p \<longleftrightarrow>
     au_current C (dr_key d) clk 0 p (dr_db d) = Inr () \<and> p_kind p \<in> set agent_kinds \<and> c \<in> set (p_capabilities p)
     \<and> (case tg of None \<Rightarrow> True | Some x \<Rightarrow> x \<in> set (p_targets p))"
proof -
  have "au_authorize C clk p c tg d = (fst (au_authorize C clk p c tg d), d)"
    using au_authorize_keeps [OF act] by (metis prod.collapse)
  then have "fst (au_authorize C clk p c tg d) = Inr p \<longleftrightarrow> au_authorize C clk p c tg d = (Inr p, d)" by (metis fst_conv)
  then show ?thesis by (simp add: authorize_ok [OF act])
qed

lemma request_served:
  assumes C: "crypto_ok C" "\<And>m. length (ed_sign C k m) = 64" "length k = 32"
    and act: "dr_active d = None"
    and tn: "map_of (ad_tenants (dr_db d)) t = Some tn" "tn_active tn"
    and ag: "map_of (ad_agents (dr_db d)) (t, a) = Some r" "ar_active r" "ar_key r = to_hex (ed_public C k)"
    and sc: "read_scopes (ar_capabilities r) = Inr cs" "read_scopes (ar_targets r) = Inr ts"
    and sg: "sign_tenant_request C (ident_generate C a k) t nonce body None = Inr sg"
    and nonce: "length nonce \<le> 256" "split_first CHR '':'' nonce = [st, rnd]" "16 \<le> length rnd"
      "float_of_string st = Some (Fin x)" "\<bar>fsub (clk 0) x\<bar> \<le> 300"
    and fresh: "map_of (ad_replays (dr_db d)) (t, a, nonce) = None" and size: "length body \<le> 1048576"
  shows "\<exists>p d'. authenticate_agent C clk t a nonce body sg None d = (Inr p, d')
    \<and> p_kind p = ''machine'' \<and> p_tenant p = Some t \<and> p_agent p = Some a
    \<and> (\<forall>clk' c tg. fst (au_authorize C clk' p c tg d') = Inr p \<longleftrightarrow>
         clk' 0 < fadd x 300 \<and> c \<in> set cs \<and> (case tg of None \<Rightarrow> True | Some y \<Rightarrow> y \<in> set ts))"
proof -
  from sg obtain data where data: "canonical_tenant_payload C t a nonce body None = Inr data" "sg = to_hex (ed_sign C k data)"
    by (auto simp: sign_tenant_request_def ident_generate_def ident_sign_def bindE_Inr_iff)
  have sr: "signed_request C (clk 0) t a nonce body sg None = Some (data, x)"
    using nonce size C(2) by (simp add: signed_request_def data is_hex_to_hex not_less not_le)
  have ver: "length (ed_public C k) = 32" "ed_verify C (ed_public C k) (ed_sign C k data) data"
    using C(1,3) by (simp_all add: crypto_ok_def)
  let ?q = "(plain_principal (Some t) a ''urn:agentbridge:enrollment'' ''machine'' (ar_revision r))
    \<lparr>p_tenant_revision := tn_revision tn, p_agent := Some a, p_agent_revision := ar_revision r,
     p_valid_until := JFloat (Fin (fadd x 300)), p_capabilities := cs, p_targets := ts,
     p_body_sha256 := sha_hex C body, p_nonce := nonce\<rparr>"
  obtain s where m: "au_mint C (dr_key d) ?q = Inr (?q\<lparr>p_proof := s\<rparr>)" "au_seal C (dr_key d) ?q = Inr s"
    using mint_exists [of ?q C "dr_key d"] by (auto simp: plain_principal_def)
  let ?p = "?q\<lparr>p_proof := s\<rparr>" and ?d = "changed (\<lambda>db. db\<lparr>ad_replays := ad_replays db @ [((t, a, nonce), clk 2)]\<rparr>) d"
  have "authenticate_agent C clk t a nonce body sg None d = (Inr ?p, ?d)"
    using act tn ag sc fresh ver m(1)
    by (simp add: authenticate_agent_def sr [unfolded data(2)] au_transaction_def on_db_def au_tenant_def au_agent_def bindP_def requireP_def
        update_db_def agent_principal_def data(2) changed_def)
  moreover have act': "dr_active ?d = None" using act by (simp add: changed_def)
  have p: "p_kind ?p = ''machine''" "p_tenant ?p = Some t" "p_agent ?p = Some a" "p_agent_revision ?p = ar_revision r"
    "p_tenant_revision ?p = tn_revision tn" "p_valid_until ?p = JFloat (Fin (fadd x 300))" "p_capabilities ?p = cs" "p_targets ?p = ts"
    by (simp_all add: plain_principal_def)
  have seal: "au_seal C (dr_key ?d) ?p = Inr (p_proof ?p)"
    using m(2) by (simp add: changed_def)
  have "fst (au_authorize C clk' ?p c tg ?d) = Inr ?p \<longleftrightarrow>
         clk' 0 < fadd x 300 \<and> c \<in> set cs \<and> (case tg of None \<Rightarrow> True | Some y \<Rightarrow> y \<in> set ts)" for clk' c tg
    unfolding authorize_returns [OF act'] au_current_def verify_seal_def seal p finite_after_def
    using tn ag by (simp add: au_tenant_def au_agent_def agent_kinds_def tenant_roles_def changed_def)
  ultimately show ?thesis using p(1-3) by blast
qed

section \<open>A demonstration\<close>

definition demo_jwt :: "unit jwt_library" where
  "demo_jwt = \<lparr>get_unverified_header = (\<lambda>_. Some []), py_jwk = (\<lambda>_. None),
     jwt_decode = (\<lambda>_ _ _ _ _. Some [(''sub'', JStr ''root''), (''exp'', JInt 2000000000), (''iss'', JStr ''i'')])\<rparr>"

definition demo_verifier :: "unit oidc_verifier" where
  "demo_verifier = \<lparr>ov_config = \<lparr>oc_issuer = ''i'', oc_audience = ''ab'', oc_public_key_pem = Some ''pem'', oc_jwks_url = None,
      oc_algorithms = [''EdDSA''], oc_role_claim = ''role'', oc_default_role = ''viewer'', oc_jwks_ttl_seconds = NumInt 900,
      oc_jwks_min_refresh_seconds = NumInt 5, oc_fetch_timeout_seconds = NumInt 5\<rparr>,
     ov_cache = [], ov_full_fetch_at = 0, ov_last_attempt_at = None, ov_discovered = JNull\<rparr>"

definition demo_clk :: "nat \<Rightarrow> rat" where
  "demo_clk _ = 1700000001"

definition demo_dir :: "authority_db \<Rightarrow> unit directory" where
  "demo_dir db = \<lparr>dr_db = db, dr_key = ''k'', dr_verifiers = [(''i'', demo_verifier)], dr_sqlite = True, dr_active = None\<rparr>"

definition admin_db :: authority_db where
  "admin_db = empty_authority\<lparr>ad_admins := [((''i'', ''root''), admin_row_of 1)]\<rparr>"

definition tenant_db :: authority_db where
  "tenant_db = admin_db\<lparr>ad_tenants := [(''t'', \<lparr>tn_revision = 1, tn_active = True\<rparr>)]\<rparr>"

definition member_db :: authority_db where
  "member_db = tenant_db\<lparr>ad_members := [((''t'', ''i'', ''root''), member_row_of (''tenant_admin'', [''read''], [''x'']) 1)]\<rparr>"

definition agent_db :: authority_db where
  "agent_db = member_db\<lparr>ad_agents := [((''t'', ''a''), agent_row_of (to_hex demo_priv, [''read''], [''x'']) 1)]\<rparr>"

definition admin_context :: principal where
  "admin_context = (let q = (plain_principal None ''root'' ''i'' ''platform_admin'' 1)\<lparr>p_valid_until := JInt 2000000000\<rparr>
     in q\<lparr>p_proof := projr (au_seal pad_crypto ''k'' q)\<rparr>)"

lemma admin_fields [simp]: "p_kind admin_context = ''platform_admin''" "p_issuer admin_context = ''i''"
  "p_subject admin_context = ''root''" "p_tenant admin_context = None" "p_revision admin_context = 1"
  "p_valid_until admin_context = JInt 2000000000"
  by (simp_all add: admin_context_def Let_def plain_principal_def)

lemma admin_minted:
  "au_mint pad_crypto ''k'' ((plain_principal None ''root'' ''i'' ''platform_admin'' 1)\<lparr>p_valid_until := JInt 2000000000\<rparr>) = Inr admin_context"
  "au_seal pad_crypto ''k'' admin_context = Inr (p_proof admin_context)"
  using mint_exists [of "(plain_principal None ''root'' ''i'' ''platform_admin'' 1)\<lparr>p_valid_until := JInt 2000000000\<rparr>" pad_crypto "''k''"]
  by (auto simp: admin_context_def Let_def)

lemma demo_expiry: "to_float (NumInt 2000000000) = Some (Fin 2000000000)"
  by code_simp

lemma admin_administers:
  "map_of (ad_admins db) (''i'', ''root'') = Some (admin_row_of 1) \<Longrightarrow> administers pad_crypto demo_clk i admin_context t (demo_dir db)"
  using demo_expiry
  by (simp add: administers_def au_current_def verify_seal_def admin_minted(2) finite_after_def demo_clk_def demo_dir_def
      au_platform_def admin_row_of_def del: to_float.simps)

lemma demo_bootstrap: "auth_exec pad_crypto (Bootstrap ''i'' ''root'') (demo_dir empty_authority) = ([], demo_dir admin_db)"
  by (simp add: bootstrap_platform_admin_def bindP_def requireP_def known_issuer_def demo_dir_def au_subject_def py_strip_def
      py_space_def au_transaction_def update_db_def admin_db_def empty_authority_def)

lemma demo_operator:
  "auth_exec pad_crypto (Operator demo_clk demo_jwt net 0 0 ''i'' ''tok'' None) (demo_dir admin_db) = ([admin_context], demo_dir admin_db)"
  using demo_expiry
  by (simp add: authenticate_operator_def operator_login_def bindP_def handleP_def requireP_def known_issuer_def demo_dir_def
      on_verifier_def oidc_verify_def resolve_signing_key_def demo_verifier_def demo_jwt_def unset_def operator_claims_def
      finite_number_def au_subject_def py_strip_def py_space_def au_transaction_def on_db_def au_platform_def admin_db_def
      empty_authority_def admin_row_of_def mintP_def admin_minted(1) minted_def demo_clk_def del: to_float.simps)

lemma administers_run: "administers C clk i p t d \<Longrightarrow> au_admin C clk i p t d = (Inr (), d)"
  by (simp add: au_admin_ok)

lemma demo_dir_simps [simp]: "dr_active (demo_dir db) = None" "dr_db (demo_dir db) = db" "dr_key (demo_dir db) = ''k''"
  "(demo_dir db)\<lparr>dr_active := x, dr_db := db', dr_active := None\<rparr> = demo_dir db'"
  by (simp_all add: demo_dir_def)

lemma demo_tenant: "auth_exec pad_crypto (SetTenant demo_clk admin_context ''t'' True) (demo_dir admin_db) = ([], demo_dir tenant_db)"
proof -
  have "administers pad_crypto demo_clk 0 admin_context None (demo_dir admin_db)"
    by (rule admin_administers) (simp add: admin_db_def)
  then show ?thesis
    by (simp add: set_tenant_def bindP_def au_identifier_def id_start_def au_transaction_def administers_run update_db_def
        upsert_def tenant_db_def) (simp add: admin_db_def empty_authority_def)
qed

lemma demo_member:
  "auth_exec pad_crypto (EnrollMember demo_clk admin_context ''t'' ''i'' ''root'' ''tenant_admin'' [''read''] [''x'']) (demo_dir tenant_db)
     = ([], demo_dir member_db)"
proof -
  have "administers pad_crypto demo_clk 0 admin_context (Some ''t'') (demo_dir tenant_db)"
    by (rule admin_administers) (simp add: admin_db_def tenant_db_def)
  moreover have "known_issuer ''i'' (demo_dir tenant_db)" by (simp add: known_issuer_def demo_dir_def)
  ultimately show ?thesis
    by (simp add: enroll_member_def bindP_def au_identifier_def au_subject_def id_start_def au_transaction_def administers_run
        update_db_def requireP_def tenant_roles_def upsert_def au_scopes_def scope_ok_def py_strip_def py_space_def on_db_def
        au_tenant_def member_db_def) (simp add: tenant_db_def admin_db_def empty_authority_def)
qed

definition local_context :: principal where
  "local_context = (let q = (plain_principal (Some ''t'') ''root'' ''i'' ''tenant_admin'' 1)
      \<lparr>p_tenant_revision := 1, p_valid_until := JInt 2000000000, p_capabilities := [''read''], p_targets := [''x'']\<rparr>
     in q\<lparr>p_proof := projr (au_seal pad_crypto ''k'' q)\<rparr>)"

lemma local_fields [simp]: "p_kind local_context = ''tenant_admin''" "p_issuer local_context = ''i''"
  "p_subject local_context = ''root''" "p_tenant local_context = Some ''t''" "p_revision local_context = 1"
  "p_tenant_revision local_context = 1" "p_valid_until local_context = JInt 2000000000"
  by (simp_all add: local_context_def Let_def plain_principal_def)

lemma local_minted:
  "au_mint pad_crypto ''k'' ((plain_principal (Some ''t'') ''root'' ''i'' ''tenant_admin'' 1)
      \<lparr>p_tenant_revision := 1, p_valid_until := JInt 2000000000, p_capabilities := [''read''], p_targets := [''x'']\<rparr>) = Inr local_context"
  "au_seal pad_crypto ''k'' local_context = Inr (p_proof local_context)"
  using mint_exists [of "(plain_principal (Some ''t'') ''root'' ''i'' ''tenant_admin'' 1)
      \<lparr>p_tenant_revision := 1, p_valid_until := JInt 2000000000, p_capabilities := [''read''], p_targets := [''x'']\<rparr>" pad_crypto "''k''"]
  by (auto simp: local_context_def Let_def)

lemma local_administers:
  "ad_tenants db = ad_tenants tenant_db \<Longrightarrow> ad_members db = ad_members member_db
    \<Longrightarrow> administers pad_crypto demo_clk i local_context (Some ''t'') (demo_dir db)"
  using demo_expiry
  by (simp add: administers_def au_current_def verify_seal_def local_minted(2) finite_after_def demo_clk_def demo_dir_def
      au_tenant_def au_member_def tenant_db_def member_db_def member_row_of_def tenant_roles_def del: to_float.simps)

lemma demo_local:
  "auth_exec pad_crypto (Operator demo_clk demo_jwt net 0 0 ''i'' ''tok'' (Some ''t'')) (demo_dir member_db) = ([local_context], demo_dir member_db)"
proof -
  have "operator_login (demo_clk 0) demo_jwt net 0 0 ''i'' ''tok'' (Some ''t'') (demo_dir member_db)
      = (Inr (''root'', JInt 2000000000), demo_dir member_db)"
    using demo_expiry
    by (simp add: operator_login_def bindP_def handleP_def demo_dir_def
        on_verifier_def oidc_verify_def resolve_signing_key_def demo_verifier_def demo_jwt_def unset_def operator_claims_def
        finite_number_def au_subject_def au_identifier_def id_start_def py_strip_def py_space_def demo_clk_def del: to_float.simps)
  moreover have "known_issuer ''i'' (demo_dir member_db)" by (simp add: known_issuer_def demo_dir_def)
  moreover have "read_scopes (mb_capabilities (member_row_of (''tenant_admin'', [''read''], [''x'']) 1)) = Inr [''read'']"
    "read_scopes (mb_targets (member_row_of (''tenant_admin'', [''read''], [''x'']) 1)) = Inr [''x'']"
    by (simp_all add: member_row_of_def)
  ultimately show ?thesis
    by (simp add: authenticate_operator_def bindP_def requireP_def au_transaction_def on_db_def au_tenant_def au_member_def
        member_db_def tenant_db_def member_row_of_def mintP_def local_minted(1) minted_def)
qed

lemma demo_agent:
  "auth_exec pad_crypto (EnrollAgent demo_clk local_context ''t'' ''a'' (to_hex demo_priv) [''read''] [''x'']) (demo_dir member_db)
     = ([], demo_dir agent_db)"
proof -
  have "administers pad_crypto demo_clk 0 local_context (Some ''t'') (demo_dir member_db)"
    by (rule local_administers) (simp_all add: member_db_def)
  moreover have "is_hex 64 (to_hex demo_priv)" by (simp add: is_hex_to_hex demo_priv_def)
  ultimately show ?thesis
    by (simp add: enroll_agent_def bindP_def au_identifier_def id_start_def au_transaction_def administers_run update_db_def
        upsert_def au_scopes_def scope_ok_def py_strip_def py_space_def on_db_def au_tenant_def agent_db_def)
      (simp add: member_db_def tenant_db_def admin_db_def empty_authority_def)
qed

lemma reach_agent: "reach pad_crypto [local_context, admin_context] (demo_dir agent_db)"
proof -
  have gen: "genuine pad_crypto M d p" if "p \<in> set M" for M p and d :: "unit directory" using that by (simp add: genuine_def)
  have "reach pad_crypto [] (demo_dir empty_authority)" by (rule reach.start) simp_all
  from reach.step [OF this _ demo_bootstrap] have "reach pad_crypto [] (demo_dir admin_db)" by simp
  from reach.step [OF this _ demo_operator] have "reach pad_crypto [admin_context] (demo_dir admin_db)" by simp
  from reach.step [OF this _ demo_tenant] have "reach pad_crypto [admin_context] (demo_dir tenant_db)" by (simp add: gen)
  from reach.step [OF this _ demo_member] have "reach pad_crypto [admin_context] (demo_dir member_db)" by (simp add: gen)
  from reach.step [OF this _ demo_local] have "reach pad_crypto [local_context, admin_context] (demo_dir member_db)" by simp
  from reach.step [OF this _ demo_agent] show ?thesis by (simp add: gen)
qed

definition agent_signature :: string where
  "agent_signature = projr (sign_tenant_request pad_crypto (ident_generate pad_crypto ''a'' demo_priv) ''t'' demo_nonce ''{}'' None)"

lemma agent_signed:
  "sign_tenant_request pad_crypto (ident_generate pad_crypto ''a'' demo_priv) ''t'' demo_nonce ''{}'' None = Inr agent_signature"
  by (simp add: agent_signature_def sign_tenant_request_def canonical_tenant_payload_def au_identifier_def id_start_def
      ident_generate_def ident_sign_def)

lemma lower_hex_digit: "n < 16 \<Longrightarrow> lower_char (hex_digit n) = hex_digit n"
  by (auto simp: lower_char_def hex_digit_def)

lemma lower_hex: "py_lower (to_hex b) = to_hex b"
proof (induction b)
  case (Cons c cs)
  have "k div 16 < 16" if "k < 256" for k :: nat using that by auto
  from this [OF of_char_256 [of c]] Cons show ?case by (simp add: py_lower_def Let_def lower_hex_digit)
qed (simp add: py_lower_def)

lemma demo_priv_length: "length demo_priv = 32"
  by (simp add: demo_priv_def)

lemma pad_public: "ed_public pad_crypto k = k"
  by (simp add: pad_crypto_def)

lemmas request_demo = pad_crypto_ok agent_signed demo_stamp demo_float demo_priv_length pad_public

lemma demo_request:
  "\<exists>p d'. authenticate_agent pad_crypto demo_clk ''t'' ''a'' demo_nonce ''{}'' agent_signature None (demo_dir agent_db) = (Inr p, d')
    \<and> p_kind p = ''machine'' \<and> p_tenant p = Some ''t'' \<and> p_agent p = Some ''a''
    \<and> (\<forall>clk' c tg. fst (au_authorize pad_crypto clk' p c tg d') = Inr p \<longleftrightarrow>
         clk' 0 < fadd 1700000000 300 \<and> c \<in> set [''read''] \<and> (case tg of None \<Rightarrow> True | Some y \<Rightarrow> y \<in> set [''x'']))"
  by (rule request_served [where k = demo_priv and tn = "\<lparr>tn_revision = 1, tn_active = True\<rparr>"
        and r = "agent_row_of (to_hex demo_priv, [''read''], [''x'']) 1"
        and st = "''1700000000''" and rnd = "''abcdefghijklmnop''"])
    (simp_all add: request_demo fsub_def demo_clk_def lower_hex
       agent_db_def member_db_def tenant_db_def admin_db_def empty_authority_def agent_row_of_def)

lemma demo_authorized:
  "\<exists>p (d :: unit directory). p_tenant p = Some ''t'' \<and> p_agent p = Some ''a'' \<and> p_kind p = ''machine''
     \<and> reach pad_crypto [p, local_context, admin_context] d
     \<and> au_authorize pad_crypto demo_clk p ''read'' (Some ''x'') d = (Inr p, d)
     \<and> (\<exists>d'. revoke_agent pad_crypto demo_clk local_context ''t'' ''a'' d = (Inr (), d'))"
proof -
  let ?op = "Request demo_clk ''t'' ''a'' demo_nonce ''{}'' agent_signature None :: unit auth_op"
  from demo_request obtain p d where
    r: "authenticate_agent pad_crypto demo_clk ''t'' ''a'' demo_nonce ''{}'' agent_signature None (demo_dir agent_db) = (Inr p, d)"
    and p: "p_tenant p = Some ''t''" "p_agent p = Some ''a''" "p_kind p = ''machine''"
    and z: "\<And>clk' c tg. fst (au_authorize pad_crypto clk' p c tg d) = Inr p \<longleftrightarrow>
         clk' 0 < fadd 1700000000 300 \<and> c \<in> set [''read''] \<and> (case tg of None \<Rightarrow> True | Some y \<Rightarrow> y \<in> set [''x''])"
    by blast
  have "auth_exec pad_crypto ?op (demo_dir agent_db) = ([p], d)" using r by (simp add: minted_def)
  from reach.step [OF reach_agent _ this] have rch: "reach pad_crypto [p, local_context, admin_context] d" by simp
  note act = reach_idle [OF rch]
  have "fst (au_authorize pad_crypto demo_clk p ''read'' (Some ''x'') d) = Inr p"
    unfolding z by (simp add: demo_clk_def fadd_def)
  then have a: "au_authorize pad_crypto demo_clk p ''read'' (Some ''x'') d = (Inr p, d)"
    using au_authorize_keeps [OF act, of pad_crypto demo_clk p "''read''" "Some ''x''"] by (metis prod.collapse)
  have d: "d = demo_dir (agent_db\<lparr>ad_replays := ad_replays agent_db @ [((''t'', ''a'', demo_nonce), demo_clk 2)]\<rparr>)"
    by (rule authenticate_agent_ok [OF _ r]) (simp_all add: changed_def demo_dir_def)
  have "administers pad_crypto demo_clk 0 local_context (Some ''t'') d"
    unfolding d by (rule local_administers) (simp_all add: agent_db_def member_db_def)
  moreover have "au_agent (Some ''t'') (Some ''a'') (dr_db d) = Inr (agent_row_of (to_hex demo_priv, [''read''], [''x'']) 1)"
    by (simp add: d au_agent_def agent_db_def agents.enrolled_active)
  ultimately have "\<exists>d'. revoke_agent pad_crypto demo_clk local_context ''t'' ''a'' d = (Inr (), d')"
    using act by (simp add: revoke_agent_def au_transaction_def bindP_def administers_run on_db_def update_db_def)
  with p rch a show ?thesis by blast
qed

definition demo_op :: "unit auth_op" where
  "demo_op = Request demo_clk ''t'' ''a'' demo_nonce ''{}'' agent_signature None"

lemma demo_once: "accepted_requests pad_crypto [demo_op, demo_op] (demo_dir agent_db) = [(''t'', ''a'', demo_nonce)]"
proof -
  from demo_request obtain p d where
    r: "authenticate_agent pad_crypto demo_clk ''t'' ''a'' demo_nonce ''{}'' agent_signature None (demo_dir agent_db) = (Inr p, d)" by blast
  have d: "dr_active d = None" "map_of (ad_replays (dr_db d)) (''t'', ''a'', demo_nonce) \<noteq> None"
    by (rule authenticate_agent_ok [OF _ r]; simp add: changed_def map_add_def)+
  have "authenticate_agent pad_crypto demo_clk ''t'' ''a'' demo_nonce ''{}'' agent_signature None d \<noteq> (Inr q, d')" for q d'
  proof
    assume "authenticate_agent pad_crypto demo_clk ''t'' ''a'' demo_nonce ''{}'' agent_signature None d = (Inr q, d')"
    then show False by (rule authenticate_agent_ok [OF d(1)]) (use d(2) in simp)
  qed
  then have "accepted_request pad_crypto demo_op d = []"
    by (auto simp: demo_op_def split: prod.splits sum.splits)
  with r show ?thesis by (simp add: demo_op_def)
qed

section \<open>Properties\<close>

text \<open>C12: In every state the operations can reach, an authorised action lies inside the enrolment of
  that moment: tenant and agent are active, the capability and the target are in the scopes the
  agent is enrolled with now, and for a delegated human also in the scopes of the active member
  who consented, under an active grant in its period whose grantor administers now.\<close>

theorem authorized_within_enrolment:
  assumes "reach C M d" and "genuine C M d p" and "au_authorize C clk p capability target d = (Inr q, d')"
  shows "\<exists>t a tn r. p_tenant p = Some t \<and> p_agent p = Some a
    \<and> map_of (ad_tenants (dr_db d)) t = Some tn \<and> tn_active tn
    \<and> map_of (ad_agents (dr_db d)) (t, a) = Some r \<and> ar_active r
    \<and> scopes_within ar_capabilities ar_targets [capability] (case target of None \<Rightarrow> [] | Some x \<Rightarrow> [x]) r
    \<and> (p_kind p = ''machine'' \<or>
       (\<exists>x g u. p_delegation p = Some x \<and> map_of (ad_grants (dr_db d)) (t, x) = Some g \<and> gr_active g
          \<and> gr_not_before g \<le> clk 1 \<and> clk 1 < gr_expires_at g \<and> gr_agent g = a
          \<and> au_grantor (Some t) g (dr_db d) = Inr (gr_grantor_revision g)
          \<and> map_of (ad_members (dr_db d)) (t, gr_user_issuer g, gr_user_subject g) = Some u \<and> mb_active u
          \<and> scopes_within mb_capabilities mb_targets [capability] (case target of None \<Rightarrow> [] | Some x \<Rightarrow> [x]) u))"
proof -
  let ?ts = "case target of None \<Rightarrow> [] | Some x \<Rightarrow> [x]"
  note act = reach_idle [OF assms(1)]
  from assms(3) have cur: "au_current C (dr_key d) clk 0 p (dr_db d) = Inr ()" and kind: "p_kind p \<in> set agent_kinds"
    and c: "set [capability] \<subseteq> set (p_capabilities p)" "set ?ts \<subseteq> set (p_targets p)"
    by (auto simp: authorize_ok [OF act] split: option.splits)
  have "p \<in> set M" using assms(2) current_seal [OF cur] by (simp add: genuine_def)
  with reach_inv [OF assms(1)] have ctx: "context_ok (dr_db d) p"
    and grants: "\<And>t x g. map_of (ad_grants (dr_db d)) (t, x) = Some g \<Longrightarrow> grant_ok (dr_db d) t g"
    by (auto simp: authority_inv_def list_all_iff)
  from current_agent [OF cur kind] obtain t a tn r where
    row: "p_tenant p = Some t" "p_agent p = Some a" "map_of (ad_tenants (dr_db d)) t = Some tn" "tn_active tn"
      "map_of (ad_agents (dr_db d)) (t, a) = Some r" "ar_active r" "ar_revision r = p_agent_revision p"
    and del: "p_kind p = ''delegated_human'' \<Longrightarrow> \<exists>g. au_grant (clk 1) (Some t) (p_delegation p) a r (dr_db d) = Inr g"
    by (metis One_nat_def)
  show ?thesis
  proof (cases "p_kind p = ''machine''")
    case True
    with ctx row have "scopes_are ar_capabilities ar_targets (p_capabilities p) (p_targets p) r"
      by (auto simp: context_ok_def agent_kinds_def dest: remembered_now)
    with c row True show ?thesis by (auto simp: scopes_are_def scopes_within_def)
  next
    case False
    with kind have dh: "p_kind p = ''delegated_human''" by (auto simp: agent_kinds_def)
    with del obtain g where "au_grant (clk 1) (Some t) (p_delegation p) a r (dr_db d) = Inr g" by blast
    then show ?thesis
    proof (cases rule: au_grant_ok)
      case (1 x u)
      from ctx dh row 1 have sc: "scopes_are gr_capabilities gr_targets (p_capabilities p) (p_targets p) g"
        by (auto simp: context_ok_def)
      with grants [OF 1(2)] have
        "remembered ar_revision (map_of (ad_agents (dr_db d))) (t, gr_agent g) (gr_agent_revision g)
           (scopes_within ar_capabilities ar_targets (p_capabilities p) (p_targets p))"
        "remembered mb_revision (map_of (ad_members (dr_db d))) (t, gr_user_issuer g, gr_user_subject g) (gr_user_revision g)
           (scopes_within mb_capabilities mb_targets (p_capabilities p) (p_targets p))"
        by (auto simp: grant_ok_def scopes_are_def)
      with 1 row have "scopes_within ar_capabilities ar_targets (p_capabilities p) (p_targets p) r"
        "scopes_within mb_capabilities mb_targets (p_capabilities p) (p_targets p) u"
        by (auto dest: remembered_now)
      with c have "scopes_within ar_capabilities ar_targets [capability] ?ts r"
        "scopes_within mb_capabilities mb_targets [capability] ?ts u"
        unfolding scopes_within_def by (meson order_trans)+
      with 1 row show ?thesis by blast
    qed
  qed
qed

theorem authorized_within_enrolment_witness:
  "\<exists>p (d :: unit directory) r. reach pad_crypto [p, local_context, admin_context] d
     \<and> au_authorize pad_crypto demo_clk p ''read'' (Some ''x'') d = (Inr p, d)
     \<and> map_of (ad_agents (dr_db d)) (''t'', ''a'') = Some r \<and> ar_active r
     \<and> scopes_within ar_capabilities ar_targets [''read''] [''x''] r"
proof -
  from demo_authorized obtain p and d :: "unit directory" where p: "p_tenant p = Some ''t''" "p_agent p = Some ''a''"
    and r: "reach pad_crypto [p, local_context, admin_context] d"
    and a: "au_authorize pad_crypto demo_clk p ''read'' (Some ''x'') d = (Inr p, d)" by blast
  have "genuine pad_crypto [p, local_context, admin_context] d p" by (simp add: genuine_def)
  from authorized_within_enrolment [OF r this a] p r a show ?thesis by auto
qed

text \<open>C13: A revoked enrolment never comes back: a context minted before the agent was revoked is
  refused in every later state, whatever operations follow, a new enrolment of the same agent
  included.\<close>

theorem revocation_is_permanent:
  assumes "reach C M d" and "p \<in> set M" and "p_kind p \<in> set agent_kinds"
    and "p_tenant p = Some t" "p_agent p = Some a"
    and "revoke_agent C clk actor t a d = (Inr u, d')"
  shows "\<exists>e. au_authorize C clk' p capability target (auth_run C ops d') = (Inl e, auth_run C ops d')"
proof -
  note act = reach_idle [OF assms(1)]
  let ?e = "auth_run C ops d'"
  from revoke_agent_ok(2) [OF act assms(6)] have d': "d' = changed (\<lambda>db. db\<lparr>ad_agents := AList.map_entry (t, a) retired_agent (ad_agents db)\<rparr>) d" .
  then have act': "dr_active d' = None" using act by (simp add: changed_def)
  then have k: "kept d' ?e" by (rule run_kept)
  then have adv: "advances ar_revision (map_of (AList.map_entry (t, a) retired_agent (ad_agents (dr_db d)))) (map_of (ad_agents (dr_db ?e)))"
    by (simp add: kept_def grows_def d' changed_def)
  have "context_ok (dr_db d) p" using reach_inv [OF assms(1)] assms(2) by (simp add: authority_inv_def list_all_iff)
  with assms(3-5) obtain r where r: "map_of (ad_agents (dr_db d)) (t, a) = Some r" "p_agent_revision p \<le> ar_revision r"
    by (auto simp: context_ok_def remembered_def)
  have "au_current C (dr_key ?e) clk' 0 p (dr_db ?e) \<noteq> Inr ()"
  proof
    assume "au_current C (dr_key ?e) clk' 0 p (dr_db ?e) = Inr ()"
    from current_agent [OF this assms(3)] assms(4,5) obtain r' where
      "map_of (ad_agents (dr_db ?e)) (t, a) = Some r'" "ar_active r'" "ar_revision r' = p_agent_revision p" by auto
    with agents.remembered_stale [OF r adv] show False by blast
  qed
  moreover have act'': "dr_active ?e = None" using k by (simp add: kept_def)
  ultimately show ?thesis
    using au_authorize_keeps [OF act''] authorize_ok [OF act''] by (cases "au_authorize C clk' p capability target ?e", cases "fst (au_authorize C clk' p capability target ?e)") (auto, metis snd_conv)
qed

theorem revocation_is_permanent_witness:
  "\<exists>p (d :: unit directory) d' e. au_authorize pad_crypto demo_clk p ''read'' (Some ''x'') d = (Inr p, d)
     \<and> revoke_agent pad_crypto demo_clk local_context ''t'' ''a'' d = (Inr (), d')
     \<and> au_authorize pad_crypto demo_clk p ''read'' (Some ''x'')
         (auth_run pad_crypto [EnrollAgent demo_clk local_context ''t'' ''a'' (to_hex demo_priv) [''read''] [''x'']] d')
       = (Inl e, auth_run pad_crypto [EnrollAgent demo_clk local_context ''t'' ''a'' (to_hex demo_priv) [''read''] [''x'']] d')"
proof -
  from demo_authorized obtain p and d :: "unit directory" where p: "p_tenant p = Some ''t''" "p_agent p = Some ''a''" "p_kind p = ''machine''"
    and r: "reach pad_crypto [p, local_context, admin_context] d"
    and a: "au_authorize pad_crypto demo_clk p ''read'' (Some ''x'') d = (Inr p, d)"
    and v: "\<exists>d'. revoke_agent pad_crypto demo_clk local_context ''t'' ''a'' d = (Inr (), d')" by blast
  from v obtain d' where v': "revoke_agent pad_crypto demo_clk local_context ''t'' ''a'' d = (Inr (), d')" ..
  have "p_kind p \<in> set agent_kinds" using p by (simp add: agent_kinds_def)
  moreover have "p \<in> set [p, local_context, admin_context]" by simp
  ultimately show ?thesis using revocation_is_permanent [OF r _ _ p(1,2) v'] a v' by blast
qed

text \<open>C14: An administrator of one tenant is confined to it: an operation presented with a context that
  is not a platform administrator's leaves the platform administrators and every other tenant's
  rows as they are, and a context that is no administrator's changes nothing.\<close>

theorem administrators_confined:
  assumes "dr_active d = None" and "auth_exec C op d = (ms, d')"
    and "presented op = p # ps" and "p_kind p \<noteq> ''platform_admin''"
  shows "ad_admins (dr_db d') = ad_admins (dr_db d)
    \<and> (\<forall>t. p_tenant p \<noteq> Some t \<longrightarrow> tenant_view t (dr_db d') = tenant_view t (dr_db d))
    \<and> (p_kind p \<noteq> ''tenant_admin'' \<longrightarrow> dr_db d' = dr_db d)"
proof -
  from exec_refines [OF assms(1,2)] consider "dr_db d' = dr_db d" | "effect C d op (dr_db d')"
    by (auto simp: refines_def)
  then show ?thesis
  proof cases
    case 1
    then show ?thesis by simp
  next
    case 2
    then show ?thesis using assms(3,4)
      by cases (auto simp: administers_def tenant_view_def map_of_upsert map_of_map_entry map_add_def fun_eq_iff split: option.splits)
  qed
qed

theorem administrators_confined_witness:
  "agent_db \<noteq> member_db \<and> p_kind local_context = ''tenant_admin'' \<and> tenant_view ''u'' agent_db = tenant_view ''u'' member_db"
proof -
  have "agent_db \<noteq> member_db" by (simp add: agent_db_def member_db_def tenant_db_def admin_db_def empty_authority_def)
  moreover have "tenant_view ''u'' agent_db = tenant_view ''u'' member_db"
    using administrators_confined [OF _ demo_agent, of local_context "[]"] by simp
  ultimately show ?thesis by simp
qed

text \<open>C15: Along any run in which the clock does not go backwards no signed tenant request is accepted
  twice, whatever else happens in between, the pruning of old nonces included.\<close>

theorem tenant_request_once:
  assumes "dr_active d = None" and "ad_replays (dr_db d) = []" and "timed T ops"
  shows "distinct (accepted_requests C ops d)"
proof -
  have "distinct (accepted_requests C ops d) \<and> set (accepted_requests C ops d) \<inter> A = {}"
    if "dr_active d = None" "replay_inv T (dr_db d) A" "timed T ops" for A
    using that
  proof (induction ops arbitrary: d T A)
    case Nil
    then show ?case by simp
  next
    case (Cons op ops)
    let ?d = "snd (auth_exec C op d)"
    have "dr_active ?d = None" using exec_kept [OF Cons.prems(1) prod.collapse [symmetric]] by (simp add: kept_def)
    note IH = Cons.IH [OF this]
    from step_replay [OF Cons.prems] obtain T' where "timed T' ops"
      "replay_inv T' (dr_db ?d) (A \<union> set (accepted_request C op d))"
      "set (accepted_request C op d) \<inter> A = {}" "distinct (accepted_request C op d)" by (auto simp: still_fresh_def)
    with IH [of T' "A \<union> set (accepted_request C op d)"] show ?case by auto
  qed
  from this [of "{}"] assms show ?thesis by (simp add: replay_inv_def)
qed

theorem tenant_request_once_witness:
  "accepted_requests pad_crypto [demo_op, demo_op] (demo_dir agent_db) = [(''t'', ''a'', demo_nonce)]
   \<and> distinct (accepted_requests pad_crypto [demo_op, demo_op] (demo_dir agent_db))"
proof -
  have "timed 0 [demo_op, demo_op]" by (simp add: demo_op_def demo_clk_def clock_ok_def multiple_of_unit_def)
  moreover have "ad_replays (dr_db (demo_dir agent_db)) = []"
    by (simp add: agent_db_def member_db_def tenant_db_def admin_db_def empty_authority_def)
  ultimately show ?thesis using tenant_request_once [of "demo_dir agent_db" 0 "[demo_op, demo_op]" pad_crypto] demo_once by simp
qed

text \<open>C16: A fresh request that an enrolled agent has signed with its enrolled key is accepted, and the
  context it yields is good for exactly the enrolled capabilities and targets until 300 seconds
  after the time stamp of the nonce.\<close>

theorem signed_request_is_served:
  assumes C: "crypto_ok C" "\<And>m. length (ed_sign C k m) = 64" "length k = 32"
    and act: "dr_active d = None"
    and tn: "map_of (ad_tenants (dr_db d)) t = Some tn" "tn_active tn"
    and ag: "map_of (ad_agents (dr_db d)) (t, a) = Some r" "ar_active r" "ar_key r = to_hex (ed_public C k)"
    and sc: "read_scopes (ar_capabilities r) = Inr cs" "read_scopes (ar_targets r) = Inr ts"
    and sg: "sign_tenant_request C (ident_generate C a k) t nonce body None = Inr sg"
    and nonce: "length nonce \<le> 256" "split_first CHR '':'' nonce = [st, rnd]" "16 \<le> length rnd"
      "float_of_string st = Some (Fin x)" "\<bar>fsub (clk 0) x\<bar> \<le> 300"
    and fresh: "map_of (ad_replays (dr_db d)) (t, a, nonce) = None" and size: "length body \<le> 1048576"
  shows "\<exists>p d'. authenticate_agent C clk t a nonce body sg None d = (Inr p, d')
    \<and> p_kind p = ''machine'' \<and> p_tenant p = Some t \<and> p_agent p = Some a
    \<and> (\<forall>clk' c tg. fst (au_authorize C clk' p c tg d') = Inr p \<longleftrightarrow>
         clk' 0 < fadd x 300 \<and> c \<in> set cs \<and> (case tg of None \<Rightarrow> True | Some y \<Rightarrow> y \<in> set ts))"
  using assms by (rule request_served)

theorem signed_request_is_served_witness:
  "\<exists>p d'. authenticate_agent pad_crypto demo_clk ''t'' ''a'' demo_nonce ''{}'' agent_signature None (demo_dir agent_db) = (Inr p, d')
    \<and> p_kind p = ''machine'' \<and> p_tenant p = Some ''t'' \<and> p_agent p = Some ''a''
    \<and> (\<forall>clk' c tg. fst (au_authorize pad_crypto clk' p c tg d') = Inr p \<longleftrightarrow>
         clk' 0 < fadd 1700000000 300 \<and> c \<in> set [''read''] \<and> (case tg of None \<Rightarrow> True | Some y \<Rightarrow> y \<in> set [''x'']))"
  by (rule signed_request_is_served [where k = demo_priv and tn = "\<lparr>tn_revision = 1, tn_active = True\<rparr>"
        and r = "agent_row_of (to_hex demo_priv, [''read''], [''x'']) 1"
        and st = "''1700000000''" and rnd = "''abcdefghijklmnop''"])
    (simp_all add: request_demo fsub_def demo_clk_def lower_hex
       agent_db_def member_db_def tenant_db_def admin_db_def empty_authority_def agent_row_of_def)

text \<open>C17: Once a platform administrator has been set up, every state the operations can reach has an
  active one: the last active administrator cannot be revoked.\<close>

theorem platform_admin_survives:
  assumes "reach C M d" and "ad_admins (dr_db d) \<noteq> []"
  shows "\<exists>k r. map_of (ad_admins (dr_db d)) k = Some r \<and> pa_active r"
proof -
  from assms(1) have "admin_ok (dr_db d)"
  proof (induction rule: reach.induct)
    case (start d)
    then show ?case by (simp add: admin_ok_def empty_authority_def)
  next
    case (step M d op ms d')
    with exec_refines [OF reach_idle [OF step.hyps(1)] step.hyps(3)] show ?case
      by (auto simp: refines_def dest: effect_admin)
  qed
  with assms(2) show ?thesis unfolding admin_ok_def by blast
qed

theorem platform_admin_survives_witness:
  "ad_admins (dr_db (demo_dir agent_db)) \<noteq> [] \<and> (\<exists>k r. map_of (ad_admins (dr_db (demo_dir agent_db))) k = Some r \<and> pa_active r)"
proof -
  have "ad_admins (dr_db (demo_dir agent_db)) \<noteq> []" by (simp add: agent_db_def member_db_def tenant_db_def admin_db_def)
  with platform_admin_survives [OF reach_agent this] show ?thesis by blast
qed

end
