(* ===== verification/Spec2Isabelle.thy ===== *)
theory Spec2Isabelle
  imports Gateway_World Admission_Quotas Controls Text_Adapters Durable_Tasks Queued_Evidence Authority_Properties Audit_Capacity
begin

text \<open>
  AgentBridge is a governed gateway between agent protocols.  A request arrives in one of six wire
  protocols, is read into a canonical call, checked against the identity, the policy rules, the
  approvals and the budget of the calling agent, recorded in a tamper-evident audit log, claimed
  once in a durable operation ledger, dispatched, and settled.  Several worker processes share
  one SQL database; what one worker does between two transactions the others can interleave with.

  \<^bold>\<open>Conventions.\<close>  An operation that may raise returns \<open>Inl (Exn class message)\<close> or \<open>Inr value\<close>; one
  that also changes state is a \<open>prog\<close>, a function from the state to a result and the state after it.
  \<open>sql_atomic\<close> is \<^verbatim>\<open>run_atomic\<close>: the state of a transaction that raises is the state before it.  A
  dict is an association list in insertion order, a string the list of its characters (code points
  below 256), a float a binary64 value with the rounding of Python's arithmetic (\<open>fl\<close>), an int an
  \<open>int\<close>.  Clock readings, random tokens and environment variables are arguments.  SHA-256, Ed25519 and
  PyJWT are not part of the repository: they are parameters (HMAC is built from SHA-256), and a theorem that needs
  collision-freedom or the correctness of signatures has that as a hypothesis, with a witness that
  gives a concrete function for it.

  \<^bold>\<open>Python underneath.\<close>
  \<^item> \<open>AB_Prelude\<close>: exceptions, programs, their weakest-precondition style rules (\<open>prog_simps\<close>,
    \<open>prog_keeps\<close>), lemmas on association lists.
  \<^item> \<open>Py_Float\<close>: rounding to binary64 and the lemmas on sums the budgets rest on.
  \<^item> \<open>Py_Json\<close>, \<open>Py_Repr\<close>, \<open>Py_Text\<close>: JSON-shaped values, \<^verbatim>\<open>str\<close>/\<^verbatim>\<open>repr\<close>, UTF-8, splitting, number text.
  \<^item> \<open>Py_JsonText\<close>: \<^verbatim>\<open>json.dumps\<close> and \<^verbatim>\<open>json.loads\<close>; reading back what was written (\<open>loads_dumps\<close>), and
    injectivity of the sorted compact form (\<open>dumps_compact_inj\<close>).  The reader recurses with fuel, the
    length of its text; the round-trip lemma shows that this is always enough for a text that
    \<^verbatim>\<open>dumps\<close> wrote.
  \<^item> \<open>Py_FloatText\<close>: the shortest text of a float reads back as that float, hence every value Python
    can hold as JSON survives its text.

  \<^bold>\<open>Persistence\<close> (\<^verbatim>\<open>src/governance/store.py\<close>, \<^verbatim>\<open>audit_capacity.py\<close>).
  \<^item> \<open>Store_Interface\<close>: the \<^verbatim>\<open>GovernanceStore\<close> operations as the record \<open>store_ops\<close>, and what its
    clients rely on as the locales \<open>identity_store\<close>, \<open>budget_store\<close>, \<open>approval_store\<close>, \<open>audit_store\<close>,
    \<open>governance_store\<close>.
  \<^item> \<open>Mem_Store\<close>, \<open>Sql_Store\<close>: the in-memory, SQLite and PostgreSQL stores, each with the
    interpretations of those locales.
  \<^item> \<open>Audit_Capacity\<close>: the shared database (record \<open>db\<close>), the insert and delete triggers of both
    databases and the operator policy: counters are exact, history stays within capacity, and the
    two databases agree on every row with non-negative counters.

  \<^bold>\<open>Governance\<close> (\<^verbatim>\<open>src/governance/\<close>).
  \<^item> \<open>Budget\<close> (\<^verbatim>\<open>budget.py\<close>): reservations, spend and rate limits; the manager over the store refines the
    in-memory class, and no interleaving exceeds a limit (within the range where sums are exact).
  \<^item> \<open>Approvals\<close> (\<^verbatim>\<open>approvals.py\<close>), \<open>Identity\<close> (\<^verbatim>\<open>identity.py\<close>, \<^verbatim>\<open>request_auth.py\<close>, \<^verbatim>\<open>durable_replay.py\<close>): one
    call for each approval, no replay in a cluster, signing round trip.
  \<^item> \<open>Audit_Log\<close> (\<^verbatim>\<open>audit.py\<close>): the chain verifies after every run, is tamper evident, survives
    retention on SQL stores.
  \<^item> \<open>Policy_Rules\<close>, \<open>Policy\<close> (\<^verbatim>\<open>policy_rules.py\<close>, \<^verbatim>\<open>durable_policy.py\<close>, \<^verbatim>\<open>policy.py\<close>): exactly which calls are
    authorised, and by which rule one is refused.
  \<^item> \<open>Operation_Ledger\<close> (\<^verbatim>\<open>operation_ledger.py\<close>, \<^verbatim>\<open>owned_settlement.py\<close>), \<open>Admission_Quotas\<close>
    (\<^verbatim>\<open>admission_quotas.py\<close>), \<open>Controls\<close> (\<^verbatim>\<open>rbac.py\<close>, \<^verbatim>\<open>resilience.py\<close>, \<^verbatim>\<open>src/api/ratelimit.py\<close>).
  \<^item> \<open>Gateway\<close>, \<open>Gateway_World\<close> (\<^verbatim>\<open>gateway.py\<close>): admission, dispatch outcome, settlement and abort of one
    call, and any number of workers that interleave and die: no operation is dispatched twice, an
    unknown outcome keeps its claim, a dispatched operation can be settled.

  \<^bold>\<open>Tenant authority\<close> (\<^verbatim>\<open>src/governance/authority.py\<close>, \<^verbatim>\<open>src/api/auth_oidc.py\<close>).
  \<^item> \<open>Principals\<close>: identifiers, scopes, the signed tenant request and the sealed context \<^verbatim>\<open>Principal\<close>.
  \<^item> \<open>Oidc\<close>: the token verifier with its cache of signing keys; a key is used only from the set fetched
    last and within its lifetime.
  \<^item> \<open>Authority\<close>: the tables of the directory (record \<open>authority_db\<close>), its transactions and every
    operation on them, each with the lemma that says what holds when it returns.
  \<^item> \<open>Authority_Runs\<close>: the specification of a step (\<open>effect\<close>) and that every operation refines it; the
    locale \<open>enrolment\<close> (a changed row has a newer revision), interpreted for members, agents and
    administrators; the invariant that ties minted contexts and grants to the rows they rest on.
  \<^item> \<open>Authority_Properties\<close>: authorised actions lie inside the current enrolment, revocation is permanent,
    administrators stay within their tenant, a request is accepted once, an enrolled agent is served.

  \<^bold>\<open>Destinations\<close> (\<^verbatim>\<open>src/governance/\<close>).
  \<^item> \<open>Fencing\<close> (\<^verbatim>\<open>pg_fencing.py\<close>, \<^verbatim>\<open>fenced_postgres_destination.py\<close>, \<^verbatim>\<open>fenced_sqlite_destination.py\<close>,
    \<^verbatim>\<open>destination_receipts.py\<close>): leases with epochs and fenced commits under the locale
    \<open>fenced_destination\<close>; a replaced leader is fenced off, and a stored receipt is trusted again.
  \<^item> \<open>Queued_Destination\<close>, \<open>Queued_Evidence\<close> (\<^verbatim>\<open>queued_destination_contract.py\<close> and the queued commit of the
    SQLite destination): descriptors, authorizations and receipts; every stored effect is evidence.

  \<^bold>\<open>Protocols\<close> (\<^verbatim>\<open>src/protocols/\<close>).
  \<^item> \<open>Canonical\<close>, \<open>Adapters\<close>, \<open>Text_Adapters\<close>: canonical calls and results, the six adapters in all four
    directions and the registry.  Every adapter interprets the locale \<open>faithful_adapter\<close>, so a named
    call survives translation between any two protocols.
  \<^item> \<open>Task_Lifecycle\<close>, \<open>Durable_Tasks\<close>: the task state machine, and task snapshots with their append-only
    events in the database under two capacities (history slots and bytes), whose reserves make
    every unfinished task cancellable.

  \<^bold>\<open>Not modelled.\<close>  Creating tables, installing triggers and migrating schemas (data definition text
  executed by the database); connections, threads, sockets, TLS and the web framework; telemetry,
  text output and demos.  The tenant kernel and everything that runs on tenant stores (task
  admission and execution, stream leases, reconciliation with signed read-back) wires live objects
  of the modelled components to network adapters; the policy engine and the gateway are modelled in
  their single-tenant configuration.  The translation engine under \<^verbatim>\<open>src/engine/\<close> is a legacy
  translator beside the adapters, with heuristics over free text.
\<close>

end
